(* ===== verification/Prelude.thy ===== *)
theory Prelude
  imports Main "HOL-Library.Word" "HOL-Library.AList"
begin

text \<open>
  Shared vocabulary of the development: the machine integers and time values of the Rust
  sources, the standard-library operations on text and on hash maps that the sources call, and
  the generic lemmas the component theories rest on.

  \<^item> Text (\<^verbatim>\<open>&str\<close>, \<^verbatim>\<open>String\<close>) and datagrams (\<^verbatim>\<open>&[u8]\<close>) are \<^typ>\<open>string\<close>: a
    \<^typ>\<open>char\<close> is one byte, 0 to 255, so every byte sequence is such a list. Binary material
    (cookies, points, keys, hashes) is a list of \<open>byte\<close>, an 8-bit word.
  \<^item> A \<^verbatim>\<open>std::time::Instant\<close> is a \<^typ>\<open>nat\<close> counting nanoseconds, a \<^verbatim>\<open>Duration\<close> likewise;
    \<^verbatim>\<open>Instant::duration_since\<close> saturates at zero exactly as subtraction on \<^typ>\<open>nat\<close> does.
  \<^item> A \<^verbatim>\<open>HashMap\<close> is an association list with distinct keys. The order of the list stands for
    the map's unspecified iteration order; every theorem holds for all lists and so for every
    iteration order.
\<close>

unbundle bit_operations_syntax

section \<open>Machine integers and time\<close>

type_synonym byte = "8 word"
type_synonym u16 = "16 word"
type_synonym u32 = "32 word"
type_synonym u64 = "64 word"
type_synonym usize = "64 word"
type_synonym instant = nat
type_synonym duration = nat

definition from_millis :: "nat \<Rightarrow> duration" where
  "from_millis ms = ms * 1000000"

definition from_secs :: "nat \<Rightarrow> duration" where
  "from_secs s = s * 1000000000"

definition duration_since :: "instant \<Rightarrow> instant \<Rightarrow> duration" where
  "duration_since now t = now - t"

lemma unat_incr: "unat c < unat m \<Longrightarrow> unat (c + 1) = Suc (unat c)" for c m :: "'a :: len word"
proof -
  assume "unat c < unat m"
  moreover have "unat m < 2 ^ LENGTH('a)" by (rule unsigned_less)
  ultimately have "Suc (unat c) < 2 ^ LENGTH('a)" by linarith
  then show ?thesis by (simp add: unat_word_ariths)
qed

lemma unat_diff_of_nat: "n \<le> unat t \<Longrightarrow> unat (t - word_of_nat n) = unat t - n" for t :: "'a :: len word"
proof -
  assume n: "n \<le> unat t"
  moreover have "unat t < 2 ^ LENGTH('a)" by (rule unsigned_less)
  ultimately have "n < 2 ^ LENGTH('a)" by linarith
  then have "unat (word_of_nat n :: 'a word) = n" by (simp add: unsigned_of_nat take_bit_nat_eq_self)
  with n show ?thesis by (simp add: unat_sub word_le_nat_alt)
qed

lemma word_diff_le: "n \<le> unat t \<Longrightarrow> t \<le> m \<Longrightarrow> t - word_of_nat n \<le> m" for t :: "'a :: len word"
  by (simp add: word_le_nat_alt unat_diff_of_nat)

named_theorems wf_intros \<open>well-formedness of every state an operation returns\<close>
named_theorems frame_simps \<open>fields an operation leaves alone\<close>

section \<open>Text\<close>

definition is_ascii_digit :: "char \<Rightarrow> bool" where
  "is_ascii_digit c = (let n = (of_char c :: nat) in 48 \<le> n \<and> n \<le> 57)"

definition is_ascii_hexdigit :: "char \<Rightarrow> bool" where
  "is_ascii_hexdigit c =
     (let n = (of_char c :: nat)
      in (48 \<le> n \<and> n \<le> 57) \<or> (97 \<le> n \<and> n \<le> 102) \<or> (65 \<le> n \<and> n \<le> 70))"

text \<open>\<^verbatim>\<open>slice.split_at\<close> the first occurrence of a delimiter byte, which is dropped.\<close>

fun split_first :: "char \<Rightarrow> string \<Rightarrow> (string \<times> string) option" where
  "split_first c [] = None"
| "split_first c (x # xs) =
     (if x = c then Some ([], xs)
      else (case split_first c xs of None \<Rightarrow> None | Some (a, b) \<Rightarrow> Some (x # a, b)))"

text \<open>\<^verbatim>\<open>splitn(n, c)\<close>: at most \<open>n\<close> pieces, the last one holding the rest.\<close>

fun splitn :: "nat \<Rightarrow> char \<Rightarrow> string \<Rightarrow> string list" where
  "splitn 0 c s = []"
| "splitn (Suc 0) c s = [s]"
| "splitn (Suc (Suc n)) c s =
     (case split_first c s of None \<Rightarrow> [s] | Some (a, b) \<Rightarrow> a # splitn (Suc n) c b)"

definition NL :: string where
  "NL = [CHR 10]"

definition starts_with :: "string \<Rightarrow> string \<Rightarrow> bool" where
  "starts_with s p \<longleftrightarrow> take (length p) s = p"

definition strip_prefix :: "string \<Rightarrow> string \<Rightarrow> string option" where
  "strip_prefix p s = (if starts_with s p then Some (drop (length p) s) else None)"

lemma split_first_None: "split_first c s = None \<longleftrightarrow> c \<notin> set s"
  by (induction s) (auto split: option.splits)

lemma split_first_append [simp]: "c \<notin> set a \<Longrightarrow> split_first c (a @ c # b) = Some (a, b)"
  by (induction a) auto

lemma split_first_SomeD: "split_first c s = Some (a, b) \<Longrightarrow> s = a @ c # b \<and> c \<notin> set a"
proof (induction s arbitrary: a)
  case Nil
  then show ?case by simp
next
  case (Cons x s)
  show ?case
  proof (cases "x = c")
    case True
    with Cons.prems show ?thesis by simp
  next
    case False
    with Cons.prems obtain a' where "split_first c s = Some (a', b)" and "a = x # a'"
      by (auto split: option.splits)
    with False Cons.IH [of a'] show ?thesis by simp
  qed
qed

lemma split_first_Some: "split_first c s = Some (a, b) \<longleftrightarrow> s = a @ c # b \<and> c \<notin> set a"
  using split_first_SomeD by fastforce

lemma strip_prefix_append [simp]: "strip_prefix p (p @ s) = Some s"
  by (simp add: strip_prefix_def starts_with_def)

lemma strip_prefix_Some: "strip_prefix p s = Some t \<longleftrightarrow> s = p @ t"
proof
  assume "strip_prefix p s = Some t"
  then have "take (length p) s = p" and "t = drop (length p) s"
    by (auto simp: strip_prefix_def starts_with_def split: if_splits)
  then show "s = p @ t" by (metis append_take_drop_id)
qed simp

lemma starts_with_iff: "starts_with s p \<longleftrightarrow> (\<exists>t. s = p @ t)"
  by (metis (no_types, lifting) option.distinct(1) strip_prefix_Some strip_prefix_def)

section \<open>Sums over lists\<close>

lemma sum_list_update_add:
  "i < length xs \<Longrightarrow> sum_list (xs[i := x]) + xs ! i = sum_list xs + (x :: nat)"
proof (induction xs arbitrary: i)
  case Nil
  then show ?case by simp
next
  case (Cons a xs)
  then show ?case by (cases i) (auto simp: add.assoc add.left_commute)
qed

lemma filter_length_add:
  "length (filter P xs) + length (filter (\<lambda>x. \<not> P x) xs) = length xs"
  by (induction xs) auto

end
