(* ===== verification/Hash_Map.thy ===== *)
theory Hash_Map
  imports Prelude
begin

text \<open>
  The standard library's \<^verbatim>\<open>HashMap\<close> as the sources use it, and maps split over several
  shards (the relay keeps \<^verbatim>\<open>Vec<Mutex<HashMap<K, V>>>\<close> and picks the shard from a hash of the
  key). The interface both offer is the locale \<open>keyed_store\<close>: lookup, insertion, removal and a
  sum over all entries, from which sizes and per-key tallies follow. The flat map and the
  sharded map are its two interpretations, so every counting lemma is proved once.
\<close>

section \<open>Flat maps\<close>

type_synonym ('k, 'v) hashmap = "('k \<times> 'v) list"

abbreviation hm_get :: "('k, 'v) hashmap \<Rightarrow> 'k \<Rightarrow> 'v option" where
  "hm_get \<equiv> map_of"

abbreviation hm_insert :: "'k \<Rightarrow> 'v \<Rightarrow> ('k, 'v) hashmap \<Rightarrow> ('k, 'v) hashmap" where
  "hm_insert \<equiv> AList.update"

abbreviation hm_remove :: "'k \<Rightarrow> ('k, 'v) hashmap \<Rightarrow> ('k, 'v) hashmap" where
  "hm_remove \<equiv> AList.delete"

definition hm_contains :: "('k, 'v) hashmap \<Rightarrow> 'k \<Rightarrow> bool" where
  "hm_contains m k \<longleftrightarrow> hm_get m k \<noteq> None"

definition hm_retain :: "('k \<Rightarrow> 'v \<Rightarrow> bool) \<Rightarrow> ('k, 'v) hashmap \<Rightarrow> ('k, 'v) hashmap" where
  "hm_retain P m = filter (\<lambda>(k, v). P k v) m"

definition hm_keys :: "('k, 'v) hashmap \<Rightarrow> 'k list" where
  "hm_keys m = map fst m"

definition hm_ok :: "('k, 'v) hashmap \<Rightarrow> bool" where
  "hm_ok m \<longleftrightarrow> distinct (map fst m)"

definition hm_sum :: "('k \<Rightarrow> 'v \<Rightarrow> nat) \<Rightarrow> ('k, 'v) hashmap \<Rightarrow> nat" where
  "hm_sum f m = sum_list (map (\<lambda>(k, v). f k v) m)"

definition opt_sum :: "('k \<Rightarrow> 'v \<Rightarrow> nat) \<Rightarrow> 'k \<Rightarrow> 'v option \<Rightarrow> nat" where
  "opt_sum f k x = (case x of None \<Rightarrow> 0 | Some v \<Rightarrow> f k v)"

lemma opt_sum_simps [simp]: "opt_sum f k None = 0" "opt_sum f k (Some v) = f k v"
  by (simp_all add: opt_sum_def)

section \<open>The interface\<close>

text \<open>
  \<open>get\<close> is a lookup, \<open>put\<close> an insertion that replaces, \<open>del\<close> a removal; \<open>total f\<close> adds
  \<open>f k v\<close> over every entry. The two counting laws are stated additively, so that no
  subtraction on \<^typ>\<open>nat\<close> hides an entry that is not there.
\<close>

locale keyed_store =
  fixes get :: "'m \<Rightarrow> 'k \<Rightarrow> 'v option"
    and put :: "'k \<Rightarrow> 'v \<Rightarrow> 'm \<Rightarrow> 'm"
    and del :: "'k \<Rightarrow> 'm \<Rightarrow> 'm"
    and total :: "('k \<Rightarrow> 'v \<Rightarrow> nat) \<Rightarrow> 'm \<Rightarrow> nat"
    and inv :: "'m \<Rightarrow> bool"
  assumes get_put: "inv m \<Longrightarrow> get (put k v m) j = (if j = k then Some v else get m j)"
    and get_del: "inv m \<Longrightarrow> get (del k m) j = (if j = k then None else get m j)"
    and total_put: "inv m \<Longrightarrow> total f (put k v m) + opt_sum f k (get m k) = total f m + f k v"
    and total_del: "inv m \<Longrightarrow> total f (del k m) + opt_sum f k (get m k) = total f m"
    and inv_put: "inv m \<Longrightarrow> inv (put k v m)"
    and inv_del: "inv m \<Longrightarrow> inv (del k m)"
begin

lemmas store_laws = get_put get_del inv_put inv_del

lemma total_get: "inv m \<Longrightarrow> get m k = Some v \<Longrightarrow> f k v \<le> total f m"
  using total_del [of m f k] by simp

lemma total_put_new: "inv m \<Longrightarrow> get m k = None \<Longrightarrow> total f (put k v m) = total f m + f k v"
  using total_put [of m f k v] by simp

lemma total_put_same:
  "inv m \<Longrightarrow> get m k = Some w \<Longrightarrow> f k v = f k w \<Longrightarrow> total f (put k v m) = total f m"
  using total_put [of m f k v] by simp

lemma total_del_None: "inv m \<Longrightarrow> get m k = None \<Longrightarrow> total f (del k m) = total f m"
  using total_del [of m f k] by simp

lemma total_del_Some: "inv m \<Longrightarrow> get m k = Some v \<Longrightarrow> total f (del k m) = total f m - f k v"
  using total_del [of m f k] by simp

end

lemma hm_get_insert: "hm_get (hm_insert k v m) j = (if j = k then Some v else hm_get m j)"
  by (simp add: AList.update_conv')

lemma hm_get_remove: "hm_get (hm_remove k m) j = (if j = k then None else hm_get m j)"
  by (simp add: AList.delete_conv')

lemma hm_ok_insert: "hm_ok m \<Longrightarrow> hm_ok (hm_insert k v m)"
  by (simp add: hm_ok_def AList.distinct_update)

lemma hm_ok_remove: "hm_ok m \<Longrightarrow> hm_ok (hm_remove k m)"
  by (simp add: hm_ok_def AList.distinct_delete)

lemma hm_sum_Nil [simp]: "hm_sum f [] = 0"
  and hm_sum_Cons [simp]: "hm_sum f ((k, v) # m) = f k v + hm_sum f m"
  by (simp_all add: hm_sum_def)

lemma hm_sum_append [simp]: "hm_sum f (m @ n) = hm_sum f m + hm_sum f n"
  by (simp add: hm_sum_def)

lemma hm_sum_insert:
  "hm_sum f (hm_insert k v m) + opt_sum f k (hm_get m k) = hm_sum f m + f k v"
  by (induction m) auto

lemma hm_remove_notin: "k \<notin> fst ` set m \<Longrightarrow> hm_remove k m = m"
  by (simp add: AList.delete_idem)

lemma hm_remove_Cons:
  "hm_remove k ((j, v) # m) = (if j = k then hm_remove k m else (j, v) # hm_remove k m)"
  by (simp add: AList.delete_eq)

lemma hm_sum_remove:
  "hm_ok m \<Longrightarrow> hm_sum f (hm_remove k m) + opt_sum f k (hm_get m k) = hm_sum f m"
proof (induction m)
  case Nil
  then show ?case by simp
next
  case (Cons a m)
  obtain j v where a: "a = (j, v)" by (cases a)
  show ?case
  proof (cases "j = k")
    case True
    with Cons.prems a have "k \<notin> fst ` set m" by (simp add: hm_ok_def)
    with a True show ?thesis by (simp add: hm_remove_Cons hm_remove_notin)
  next
    case False
    with Cons a show ?thesis by (simp add: hm_ok_def hm_remove_Cons)
  qed
qed

interpretation hm: keyed_store hm_get hm_insert hm_remove hm_sum hm_ok
proof unfold_locales
  fix m :: "('a \<times> 'b) list" and k j v
  show "hm_get (hm_insert k v m) j = (if j = k then Some v else hm_get m j)"
    by (rule hm_get_insert)
  show "hm_get (hm_remove k m) j = (if j = k then None else hm_get m j)"
    by (rule hm_get_remove)
qed (simp_all add: hm_sum_insert hm_sum_remove hm_ok_insert hm_ok_remove)

section \<open>Further facts on flat maps\<close>

lemma hm_len_sum: "length m = hm_sum (\<lambda>_ _. 1) m"
  by (induction m) auto

lemma hm_ok_Nil [simp]: "hm_ok []"
  by (simp add: hm_ok_def)

lemma hm_ok_retain [simp]: "hm_ok m \<Longrightarrow> hm_ok (hm_retain P m)"
  unfolding hm_ok_def hm_retain_def by (rule distinct_map_filter)

lemma hm_get_in: "hm_ok m \<Longrightarrow> hm_get m k = Some v \<longleftrightarrow> (k, v) \<in> set m"
  by (simp add: hm_ok_def)

lemma hm_contains_keys: "hm_contains m k \<longleftrightarrow> k \<in> set (hm_keys m)"
  by (simp add: hm_contains_def hm_keys_def map_of_eq_None_iff)

lemma hm_get_retain:
  "hm_ok m \<Longrightarrow> hm_get (hm_retain P m) k =
     (case hm_get m k of None \<Rightarrow> None | Some v \<Rightarrow> if P k v then Some v else None)"
proof (induction m)
  case Nil
  then show ?case by (simp add: hm_retain_def)
next
  case (Cons a m)
  obtain j v where a: "a = (j, v)" by (cases a)
  have "hm_get (hm_retain P m) j = None" if "\<not> P j v"
  proof -
    from Cons.prems a have "j \<notin> fst ` set m" by (simp add: hm_ok_def)
    then show ?thesis by (force simp: hm_retain_def map_of_eq_None_iff)
  qed
  with Cons a show ?case by (auto simp: hm_retain_def hm_ok_def)
qed

lemma hm_len_keys [simp]: "length (hm_keys m) = length m"
  by (simp add: hm_keys_def)

lemma hm_keys_insert: "set (hm_keys (hm_insert k v m)) = insert k (set (hm_keys m))"
  unfolding hm_keys_def by (simp add: AList.dom_update)

lemma hm_keys_remove: "set (hm_keys (hm_remove k m)) = set (hm_keys m) - {k}"
  unfolding hm_keys_def by (auto simp: AList.delete_eq)

lemma hm_len_insert:
  "length (hm_insert k v m) = (if hm_contains m k then length m else Suc (length m))"
  by (induction m) (auto simp: hm_contains_def)

lemma hm_len_remove_le: "length (hm_remove k m) \<le> length m"
  by (simp add: AList.delete_eq)

lemma hm_len_retain_le: "length (hm_retain P m) \<le> length m"
  by (simp add: hm_retain_def)

lemma hm_sum_le_retain: "hm_sum f (hm_retain P m) \<le> hm_sum f m"
  by (induction m) (auto simp: hm_retain_def)

lemma hm_sum_split:
  "hm_sum f (hm_retain P m) + hm_sum f (hm_retain (\<lambda>k v. \<not> P k v) m) = hm_sum f m"
  by (induction m) (auto simp: hm_retain_def)

lemma hm_sum_mono: "(\<And>k v. (k, v) \<in> set m \<Longrightarrow> f k v \<le> g k v) \<Longrightarrow> hm_sum f m \<le> hm_sum g m"
  unfolding hm_sum_def by (rule sum_list_mono) auto

text \<open>Removing a list of keys one after the other; removing the keys a predicate selects is
  keeping the others.\<close>

lemma hm_remove_all: "fold hm_remove ks m = filter (\<lambda>(k, v). k \<notin> set ks) m"
  by (induction ks arbitrary: m) (auto simp: AList.delete_eq intro: filter_cong)

lemma hm_remove_retained:
  assumes "hm_ok m"
  shows "fold hm_remove (hm_keys (hm_retain P m)) m = hm_retain (\<lambda>k v. \<not> P k v) m"
  unfolding hm_remove_all hm_retain_def
proof (rule filter_cong)
  fix kv assume kv: "kv \<in> set m"
  obtain k v where eq: "kv = (k, v)" by (cases kv)
  have "w = v" if "(k, w) \<in> set m" for w
    using that kv eq assms unfolding hm_ok_def by (blast intro: eq_key_imp_eq_value)
  moreover have "k \<in> set (hm_keys (filter (\<lambda>(k, v). P k v) m)) \<longleftrightarrow> (\<exists>w. (k, w) \<in> set m \<and> P k w)"
    by (force simp: hm_keys_def)
  ultimately show "(case kv of (k, v) \<Rightarrow> k \<notin> set (hm_keys (filter (\<lambda>(k, v). P k v) m)))
      = (case kv of (k, v) \<Rightarrow> \<not> P k v)"
    using kv eq by fast
qed simp

lemma hm_get_retained_key:
  "hm_ok m \<Longrightarrow> k \<in> set (hm_keys (hm_retain P m)) \<longleftrightarrow> (\<exists>v. hm_get m k = Some v \<and> P k v)"
  by (force simp: hm_keys_def hm_retain_def hm_get_in)

section \<open>Sharded maps\<close>

text \<open>
  A vector of maps; the shard of a key is a function of the key alone. The locale fixes that
  function and the number of shards, and shows that the vector offers the same interface as one
  map.
\<close>

type_synonym ('k, 'v) shards = "('k, 'v) hashmap list"

definition sh_get :: "('k \<Rightarrow> nat) \<Rightarrow> ('k, 'v) shards \<Rightarrow> 'k \<Rightarrow> 'v option" where
  "sh_get idx shs k = hm_get (shs ! idx k) k"

definition sh_put :: "('k \<Rightarrow> nat) \<Rightarrow> 'k \<Rightarrow> 'v \<Rightarrow> ('k, 'v) shards \<Rightarrow> ('k, 'v) shards" where
  "sh_put idx k v shs = shs[idx k := hm_insert k v (shs ! idx k)]"

definition sh_del :: "('k \<Rightarrow> nat) \<Rightarrow> 'k \<Rightarrow> ('k, 'v) shards \<Rightarrow> ('k, 'v) shards" where
  "sh_del idx k shs = shs[idx k := hm_remove k (shs ! idx k)]"

definition sh_sum :: "('k \<Rightarrow> 'v \<Rightarrow> nat) \<Rightarrow> ('k, 'v) shards \<Rightarrow> nat" where
  "sh_sum f shs = sum_list (map (hm_sum f) shs)"

definition shard_ok :: "('k \<Rightarrow> nat) \<Rightarrow> nat \<Rightarrow> ('k, 'v) hashmap \<Rightarrow> bool" where
  "shard_ok idx i m \<longleftrightarrow> hm_ok m \<and> (\<forall>k \<in> set (hm_keys m). idx k = i)"

definition sh_ok :: "('k \<Rightarrow> nat) \<Rightarrow> nat \<Rightarrow> ('k, 'v) shards \<Rightarrow> bool" where
  "sh_ok idx n shs \<longleftrightarrow> length shs = n \<and> (\<forall>i < n. shard_ok idx i (shs ! i))"

lemma shard_ok_insert: "shard_ok idx (idx k) m \<Longrightarrow> shard_ok idx (idx k) (hm_insert k v m)"
  by (auto simp: shard_ok_def hm_ok_insert hm_keys_insert)

lemma shard_ok_remove: "shard_ok idx i m \<Longrightarrow> shard_ok idx i (hm_remove k m)"
  by (auto simp: shard_ok_def hm_ok_remove hm_keys_remove)

lemma shard_ok_get: "shard_ok idx i m \<Longrightarrow> hm_get m k = Some v \<Longrightarrow> idx k = i"
  by (force simp: shard_ok_def hm_keys_def dest: map_of_SomeD)

lemma sh_ok_empty: "sh_ok idx n (replicate n [])"
  by (simp add: sh_ok_def shard_ok_def hm_keys_def)

lemma sh_sum_update:
  "i < length shs \<Longrightarrow> sh_sum f (shs[i := m]) + hm_sum f (shs ! i) = sh_sum f shs + hm_sum f m"
  unfolding sh_sum_def map_update
  using sum_list_update_add [of i "map (hm_sum f) shs" "hm_sum f m"] by simp

lemma sh_sum_empty [simp]: "sh_sum f (replicate n []) = 0"
  by (simp add: sh_sum_def)

lemma sh_ok_update: "sh_ok idx n shs \<Longrightarrow> shard_ok idx i m \<Longrightarrow> sh_ok idx n (shs[i := m])"
  by (cases "i < length shs") (auto simp: sh_ok_def nth_list_update list_update_beyond)

locale sharding =
  fixes idx :: "'k \<Rightarrow> nat" and n :: nat
  assumes idx_less: "idx k < n"
begin

lemma ok_shard: "sh_ok idx n shs \<Longrightarrow> shard_ok idx (idx k) (shs ! idx k)"
  using idx_less by (simp add: sh_ok_def)

lemma ok_idx: "sh_ok idx n shs \<Longrightarrow> idx k < length shs"
  using idx_less by (simp add: sh_ok_def)

lemma sh_get_put:
  "sh_ok idx n shs \<Longrightarrow> sh_get idx (sh_put idx k v shs) j = (if j = k then Some v else sh_get idx shs j)"
  by (auto simp: sh_get_def sh_put_def nth_list_update ok_idx hm_get_insert)

lemma sh_get_del:
  "sh_ok idx n shs \<Longrightarrow> sh_get idx (sh_del idx k shs) j = (if j = k then None else sh_get idx shs j)"
  by (auto simp: sh_get_def sh_del_def nth_list_update ok_idx hm_get_remove)

lemma sh_sum_put:
  "sh_ok idx n shs \<Longrightarrow>
     sh_sum f (sh_put idx k v shs) + opt_sum f k (sh_get idx shs k) = sh_sum f shs + f k v"
  using sh_sum_update [OF ok_idx, of shs f k "hm_insert k v (shs ! idx k)"]
    hm_sum_insert [of f k v "shs ! idx k"]
  by (simp add: sh_get_def sh_put_def)

lemma sh_sum_del:
  "sh_ok idx n shs \<Longrightarrow>
     sh_sum f (sh_del idx k shs) + opt_sum f k (sh_get idx shs k) = sh_sum f shs"
  using sh_sum_update [OF ok_idx, of shs f k "hm_remove k (shs ! idx k)"]
    hm_sum_remove [of "shs ! idx k" f k] ok_shard [of shs k]
  by (simp add: sh_get_def sh_del_def shard_ok_def)

lemma sh_ok_put: "sh_ok idx n shs \<Longrightarrow> sh_ok idx n (sh_put idx k v shs)"
  by (simp add: sh_put_def sh_ok_update shard_ok_insert ok_shard)

lemma sh_ok_del: "sh_ok idx n shs \<Longrightarrow> sh_ok idx n (sh_del idx k shs)"
  by (simp add: sh_del_def sh_ok_update shard_ok_remove ok_shard)

end

sublocale sharding < store: keyed_store "sh_get idx" "sh_put idx" "sh_del idx" sh_sum "sh_ok idx n"
  by unfold_locales
    (simp_all add: sh_get_put sh_get_del sh_sum_put sh_sum_del sh_ok_put sh_ok_del)

section \<open>Counters kept beside a store\<close>

text \<open>
  The relay keeps, beside a map of registrations, a map from source IP to the number of its
  registrations, so that a per-IP cap is one lookup. The sources write the same three steps in
  two places (\<^verbatim>\<open>RoomEntry::add_pending\<close>/\<^verbatim>\<open>remove_pending\<close>/\<^verbatim>\<open>pending_count_for_ip\<close> and
  \<^verbatim>\<open>Relay::add_pending_ip\<close>/\<^verbatim>\<open>remove_pending_ip\<close>/\<^verbatim>\<open>pending_count_for_ip\<close>): increment or start
  at one, decrement and drop the key at zero, read zero for a missing key.
\<close>

definition ctr_incr :: "'i \<Rightarrow> ('i, nat) hashmap \<Rightarrow> ('i, nat) hashmap" where
  "ctr_incr i m = hm_insert i (case hm_get m i of None \<Rightarrow> 1 | Some c \<Rightarrow> c + 1) m"

definition ctr_decr :: "'i \<Rightarrow> ('i, nat) hashmap \<Rightarrow> ('i, nat) hashmap" where
  "ctr_decr i m =
     (case hm_get m i of None \<Rightarrow> m
      | Some c \<Rightarrow> if c - 1 = 0 then hm_remove i m else hm_insert i (c - 1) m)"

definition ctr_get :: "('i, nat) hashmap \<Rightarrow> 'i \<Rightarrow> nat" where
  "ctr_get m i = (case hm_get m i of None \<Rightarrow> 0 | Some c \<Rightarrow> c)"

definition ctr_ok :: "('i, nat) hashmap \<Rightarrow> bool" where
  "ctr_ok m \<longleftrightarrow> hm_ok m \<and> (\<forall>i c. hm_get m i = Some c \<longrightarrow> 0 < c)"

locale counter =
  fixes incr :: "'i \<Rightarrow> 'c \<Rightarrow> 'c"
    and decr :: "'i \<Rightarrow> 'c \<Rightarrow> 'c"
    and cnt :: "'c \<Rightarrow> 'i \<Rightarrow> nat"
    and cinv :: "'c \<Rightarrow> bool"
  assumes cnt_incr: "cinv c \<Longrightarrow> cnt (incr i c) j = (if j = i then cnt c j + 1 else cnt c j)"
    and cnt_decr: "cinv c \<Longrightarrow> cnt (decr i c) j = (if j = i then cnt c j - 1 else cnt c j)"
    and cinv_incr: "cinv c \<Longrightarrow> cinv (incr i c)"
    and cinv_decr: "cinv c \<Longrightarrow> cinv (decr i c)"
begin

lemma cinv_decr_all: "cinv c \<Longrightarrow> cinv (fold decr is c)"
  by (induction "is" arbitrary: c) (simp_all add: cinv_decr)

lemma cnt_decr_all: "cinv c \<Longrightarrow> cnt (fold decr is c) j = cnt c j - count_list is j"
  by (induction "is" arbitrary: c) (auto simp: cinv_decr cnt_decr)

end

lemma ctr_ok_incr: "ctr_ok m \<Longrightarrow> ctr_ok (ctr_incr i m)"
  by (auto simp: ctr_ok_def ctr_incr_def hm_ok_insert hm_get_insert split: option.splits)

lemma ctr_ok_decr: "ctr_ok m \<Longrightarrow> ctr_ok (ctr_decr i m)"
  by (auto simp: ctr_ok_def ctr_decr_def hm_ok_insert hm_ok_remove hm_get_insert hm_get_remove
      split: option.splits if_splits)

lemma ctr_get_incr: "ctr_get (ctr_incr i m) j = (if j = i then ctr_get m j + 1 else ctr_get m j)"
  by (auto simp: ctr_get_def ctr_incr_def hm_get_insert split: option.splits)

lemma ctr_get_decr: "ctr_get (ctr_decr i m) j = (if j = i then ctr_get m j - 1 else ctr_get m j)"
  by (auto simp: ctr_get_def ctr_decr_def hm_get_insert hm_get_remove split: option.splits)

interpretation ctr: counter ctr_incr ctr_decr ctr_get ctr_ok
  by unfold_locales (simp_all add: ctr_get_incr ctr_get_decr ctr_ok_incr ctr_ok_decr)

text \<open>The same counters spread over shards.\<close>

definition sctr_incr :: "('i \<Rightarrow> nat) \<Rightarrow> 'i \<Rightarrow> ('i, nat) shards \<Rightarrow> ('i, nat) shards" where
  "sctr_incr idx i shs = shs[idx i := ctr_incr i (shs ! idx i)]"

definition sctr_decr :: "('i \<Rightarrow> nat) \<Rightarrow> 'i \<Rightarrow> ('i, nat) shards \<Rightarrow> ('i, nat) shards" where
  "sctr_decr idx i shs = shs[idx i := ctr_decr i (shs ! idx i)]"

definition sctr_get :: "('i \<Rightarrow> nat) \<Rightarrow> ('i, nat) shards \<Rightarrow> 'i \<Rightarrow> nat" where
  "sctr_get idx shs i = ctr_get (shs ! idx i) i"

definition sctr_ok :: "nat \<Rightarrow> ('i, nat) shards \<Rightarrow> bool" where
  "sctr_ok n shs \<longleftrightarrow> length shs = n \<and> (\<forall>m \<in> set shs. ctr_ok m)"

lemma sctr_ok_update: "sctr_ok n shs \<Longrightarrow> ctr_ok m \<Longrightarrow> sctr_ok n (shs[i := m])"
  by (auto simp: sctr_ok_def dest: subsetD [OF set_update_subset_insert])

lemma sctr_ok_empty: "sctr_ok n (replicate n [])"
  by (simp add: sctr_ok_def ctr_ok_def)

sublocale sharding < counters: counter "sctr_incr idx" "sctr_decr idx" "sctr_get idx" "sctr_ok n"
proof unfold_locales
  fix c :: "('k, nat) shards" and i j
  assume ok: "sctr_ok n c"
  then have i: "idx i < length c" and j: "idx j < length c"
    using idx_less by (simp_all add: sctr_ok_def)
  then have shard: "ctr_ok (c ! idx i)" using ok by (simp add: sctr_ok_def)
  show "sctr_get idx (sctr_incr idx i c) j = (if j = i then sctr_get idx c j + 1 else sctr_get idx c j)"
    using i j by (auto simp: sctr_get_def sctr_incr_def nth_list_update ctr_get_incr)
  show "sctr_get idx (sctr_decr idx i c) j = (if j = i then sctr_get idx c j - 1 else sctr_get idx c j)"
    using i j by (auto simp: sctr_get_def sctr_decr_def nth_list_update ctr_get_decr)
  show "sctr_ok n (sctr_incr idx i c)"
    unfolding sctr_incr_def using ok shard by (intro sctr_ok_update ctr_ok_incr)
  show "sctr_ok n (sctr_decr idx i c)"
    unfolding sctr_decr_def using ok shard by (intro sctr_ok_update ctr_ok_decr)
qed


section \<open>Stores with a tally beside them\<close>

text \<open>
  The contract that ties the two together: the counter of \<open>i\<close> is the number of entries whose key
  belongs to \<open>i\<close>. Inserting a new key increments, replacing a key changes nothing, removing a
  present key decrements.
\<close>

definition tally :: "('k \<Rightarrow> 'i) \<Rightarrow> 'i \<Rightarrow> 'k \<Rightarrow> 'v \<Rightarrow> nat" where
  "tally key i k v = (if key k = i then 1 else 0)"

locale tallied_store = keyed_store get put del total inv + counter incr decr cnt cinv
  for get :: "'m \<Rightarrow> 'k \<Rightarrow> 'v option" and put del total inv
    and incr :: "'i \<Rightarrow> 'c \<Rightarrow> 'c" and decr cnt cinv +
  fixes key :: "'k \<Rightarrow> 'i"
begin

lemma tally_put_new:
  assumes "inv m" "cinv c" "\<And>i. cnt c i = total (tally key i) m" "get m k = None"
  shows "cnt (incr (key k) c) i = total (tally key i) (put k v m)"
  using assms by (simp add: cnt_incr total_put_new tally_def)

lemma tally_put_old:
  assumes "inv m" "\<And>i. cnt c i = total (tally key i) m" "get m k = Some w"
  shows "cnt c i = total (tally key i) (put k v m)"
  using assms by (simp add: total_put_same tally_def)

lemma tally_del:
  assumes "inv m" "cinv c" "\<And>i. cnt c i = total (tally key i) m" "get m k = Some w"
  shows "cnt (decr (key k) c) i = total (tally key i) (del k m)"
  using assms by (simp add: cnt_decr total_del_Some tally_def)

end

section \<open>Maps of maps\<close>

text \<open>
  A sharded map from an outer key to a flat map, addressed by pairs of keys; an inner map that
  becomes empty is dropped. This is the layout of the relay's store of registrations whose room
  does not exist yet, and it offers the same interface once more.
\<close>

type_synonym ('a, 'k, 'v) nested = "('a, ('k, 'v) hashmap) shards"

definition ns_inner :: "('a \<Rightarrow> nat) \<Rightarrow> ('a, 'k, 'v) nested \<Rightarrow> 'a \<Rightarrow> ('k, 'v) hashmap" where
  "ns_inner idx ns a = (case sh_get idx ns a of None \<Rightarrow> [] | Some m \<Rightarrow> m)"

definition ns_get :: "('a \<Rightarrow> nat) \<Rightarrow> ('a, 'k, 'v) nested \<Rightarrow> 'a \<times> 'k \<Rightarrow> 'v option" where
  "ns_get idx ns = (\<lambda>(a, k). case sh_get idx ns a of None \<Rightarrow> None | Some m \<Rightarrow> hm_get m k)"

definition ns_put :: "('a \<Rightarrow> nat) \<Rightarrow> 'a \<times> 'k \<Rightarrow> 'v \<Rightarrow> ('a, 'k, 'v) nested \<Rightarrow> ('a, 'k, 'v) nested" where
  "ns_put idx = (\<lambda>(a, k) v ns. sh_put idx a (hm_insert k v (ns_inner idx ns a)) ns)"

definition ns_del :: "('a \<Rightarrow> nat) \<Rightarrow> 'a \<times> 'k \<Rightarrow> ('a, 'k, 'v) nested \<Rightarrow> ('a, 'k, 'v) nested" where
  "ns_del idx = (\<lambda>(a, k) ns.
     case sh_get idx ns a of None \<Rightarrow> ns
     | Some m \<Rightarrow> let m = hm_remove k m in if m = [] then sh_del idx a ns else sh_put idx a m ns)"

definition ns_row :: "('a \<times> 'k \<Rightarrow> 'v \<Rightarrow> nat) \<Rightarrow> 'a \<Rightarrow> ('k, 'v) hashmap \<Rightarrow> nat" where
  "ns_row f a m = hm_sum (\<lambda>k v. f (a, k) v) m"

definition ns_sum :: "('a \<times> 'k \<Rightarrow> 'v \<Rightarrow> nat) \<Rightarrow> ('a, 'k, 'v) nested \<Rightarrow> nat" where
  "ns_sum f ns = sh_sum (ns_row f) ns"

definition ns_ok :: "('a \<Rightarrow> nat) \<Rightarrow> nat \<Rightarrow> ('a, 'k, 'v) nested \<Rightarrow> bool" where
  "ns_ok idx n ns \<longleftrightarrow> sh_ok idx n ns \<and> (\<forall>a m. sh_get idx ns a = Some m \<longrightarrow> hm_ok m \<and> m \<noteq> [])"

lemma hm_insert_not_Nil [simp]: "hm_insert k v m \<noteq> []"
  by (cases m) auto

lemma ns_row_insert: "ns_row f a (hm_insert k v m) + opt_sum f (a, k) (hm_get m k) = ns_row f a m + f (a, k) v"
  using hm_sum_insert [of "\<lambda>k. f (a, k)" k v m] by (simp add: ns_row_def opt_sum_def)

lemma ns_row_remove:
  "hm_ok m \<Longrightarrow> ns_row f a (hm_remove k m) + opt_sum f (a, k) (hm_get m k) = ns_row f a m"
  using hm_sum_remove [of m "\<lambda>k. f (a, k)" k] by (simp add: ns_row_def opt_sum_def)

lemma ns_row_Nil [simp]: "ns_row f a [] = 0"
  by (simp add: ns_row_def)

lemma ns_ok_empty: "ns_ok idx n (replicate n [])" if "\<And>a. idx a < n"
  using that by (simp add: ns_ok_def sh_ok_empty sh_get_def)

lemma ns_ok_inner: "ns_ok idx n ns \<Longrightarrow> hm_ok (ns_inner idx ns a)"
  by (auto simp: ns_ok_def ns_inner_def split: option.splits)


context sharding
begin

lemma ns_get_put:
  assumes "ns_ok idx n ns"
  shows "ns_get idx (ns_put idx ak v ns) bj = (if bj = ak then Some v else ns_get idx ns bj)"
  using assms
  by (cases ak; cases bj)
    (auto simp: ns_get_def ns_put_def ns_ok_def sh_get_put hm_get_insert ns_inner_def split: option.splits)

lemma ns_get_del:
  assumes "ns_ok idx n ns"
  shows "ns_get idx (ns_del idx ak ns) bj = (if bj = ak then None else ns_get idx ns bj)"
proof (cases ak; cases bj)
  fix a k b j
  assume ak: "ak = (a, k)" and bj: "bj = (b, j)"
  show ?thesis
  proof (cases "sh_get idx ns a")
    case None
    with ak bj show ?thesis by (simp add: ns_get_def ns_del_def)
  next
    case (Some m)
    have gone: "hm_get m j = None" if "hm_remove k m = []" "j \<noteq> k"
      using that hm_get_remove [of k m j] by simp
    with Some ak bj assms show ?thesis
      by (auto simp: ns_get_def ns_del_def ns_ok_def Let_def sh_get_put sh_get_del hm_get_remove)
  qed
qed

lemma ns_sum_put:
  assumes ok: "ns_ok idx n ns"
  shows "ns_sum f (ns_put idx ak v ns) + opt_sum f ak (ns_get idx ns ak) = ns_sum f ns + f ak v"
proof (cases ak)
  case (Pair a k)
  let ?m = "ns_inner idx ns a"
  from ok have "sh_ok idx n ns" by (simp add: ns_ok_def)
  from sh_sum_put [OF this, of "ns_row f" a "hm_insert k v ?m"]
  have 1: "ns_sum f (ns_put idx ak v ns) + opt_sum (ns_row f) a (sh_get idx ns a)
      = ns_sum f ns + ns_row f a (hm_insert k v ?m)"
    by (simp add: ns_sum_def ns_put_def Pair)
  have 2: "opt_sum (ns_row f) a (sh_get idx ns a) = ns_row f a ?m"
    by (simp add: ns_inner_def split: option.splits)
  have 3: "ns_get idx ns ak = hm_get ?m k"
    by (simp add: Pair ns_get_def ns_inner_def split: option.splits)
  from 1 2 3 ns_row_insert [of f a k v ?m] Pair show ?thesis by simp
qed

lemma ns_sum_del:
  assumes ok: "ns_ok idx n ns"
  shows "ns_sum f (ns_del idx ak ns) + opt_sum f ak (ns_get idx ns ak) = ns_sum f ns"
proof (cases ak)
  case (Pair a k)
  from ok have sh: "sh_ok idx n ns" by (simp add: ns_ok_def)
  show ?thesis
  proof (cases "sh_get idx ns a")
    case None
    with Pair show ?thesis by (simp add: ns_get_def ns_del_def)
  next
    case (Some m)
    with ok have m: "hm_ok m" by (simp add: ns_ok_def)
    from sh_sum_del [OF sh, of "ns_row f" a] sh_sum_put [OF sh, of "ns_row f" a "hm_remove k m"]
      ns_row_remove [OF m, of f a k] Some Pair
    show ?thesis by (auto simp: ns_get_def ns_del_def ns_sum_def Let_def)
  qed
qed

lemma ns_ok_put: "ns_ok idx n ns \<Longrightarrow> ns_ok idx n (ns_put idx ak v ns)"
  by (cases ak)
    (auto simp: ns_put_def ns_ok_def ns_inner_def sh_ok_put sh_get_put hm_ok_insert
      split: if_splits option.splits)

lemma ns_ok_del: "ns_ok idx n ns \<Longrightarrow> ns_ok idx n (ns_del idx ak ns)"
  by (cases ak)
    (auto simp: ns_del_def ns_ok_def Let_def sh_ok_put sh_ok_del sh_get_put sh_get_del hm_ok_remove
      split: if_splits option.splits)

end

sublocale sharding < nested: keyed_store "ns_get idx" "ns_put idx" "ns_del idx" ns_sum "ns_ok idx n"
  by unfold_locales
    (simp_all add: ns_get_put ns_get_del ns_sum_put ns_sum_del ns_ok_put ns_ok_del)

end
