(* ===== verification/Net.thy ===== *)
theory Net
  imports Prelude
begin

text \<open>
  Internet addresses as \<^verbatim>\<open>std::net\<close> has them, their textual form (\<^verbatim>\<open>Display\<close>), and
  \<^verbatim>\<open>ip_key\<close> of \<^verbatim>\<open>qvole-relay/src/room.rs\<close>, the key every per-IP limit of the relay uses.

  A \<^verbatim>\<open>SocketAddrV6\<close> also carries a flow label, which takes no part in its textual form and
  which the relay never reads; it is left out. The relay keys its tables by the text of a
  socket address and parses it back where it needs the IP; the model keys them by the address.
\<close>

section \<open>Addresses\<close>

datatype ip_addr = V4 "32 word" | V6 "128 word"

datatype socket_addr =
    SockV4 (v4_ip: "32 word") (v4_port: u16)
  | SockV6 (v6_ip: "128 word") (v6_port: u16) (v6_scope: u32)

fun sock_ip :: "socket_addr \<Rightarrow> ip_addr" where
  "sock_ip (SockV4 ip _) = V4 ip"
| "sock_ip (SockV6 ip _ _) = V6 ip"

fun sock_port :: "socket_addr \<Rightarrow> u16" where
  "sock_port (SockV4 _ p) = p"
| "sock_port (SockV6 _ p _) = p"

text \<open>\<^verbatim>\<open>Ipv6Addr::to_ipv4_mapped\<close>: the addresses of \<open>::ffff:0:0/96\<close>.\<close>

definition to_ipv4_mapped :: "128 word \<Rightarrow> (32 word) option" where
  "to_ipv4_mapped x = (if drop_bit 32 x = 0xFFFF then Some (ucast x) else None)"

definition v6_is_loopback :: "128 word \<Rightarrow> bool" where
  "v6_is_loopback x \<longleftrightarrow> x = 1"

text \<open>Keeping the first eight octets and zeroing the other eight.\<close>

definition v6_mask64 :: "128 word \<Rightarrow> 128 word" where
  "v6_mask64 x = push_bit 64 (drop_bit 64 x)"

fun ip_key :: "socket_addr \<Rightarrow> ip_addr" where
  "ip_key (SockV4 ip _) = V4 ip"
| "ip_key (SockV6 ip _ _) =
     (case to_ipv4_mapped ip of
        Some v4 \<Rightarrow> V4 v4
      | None \<Rightarrow> if v6_is_loopback ip then V6 ip else V6 (v6_mask64 ip))"

section \<open>Textual form\<close>

definition digit_char :: "nat \<Rightarrow> char" where
  "digit_char d = ''0123456789abcdef'' ! d"

fun radix_str :: "nat \<Rightarrow> nat \<Rightarrow> string" where
  "radix_str b n = (if b < 2 \<or> n < b then [digit_char n] else radix_str b (n div b) @ [digit_char (n mod b)])"

declare radix_str.simps [simp del]

abbreviation dec_str :: "nat \<Rightarrow> string" where
  "dec_str \<equiv> radix_str 10"

fun join_with :: "string \<Rightarrow> string list \<Rightarrow> string" where
  "join_with sep [] = []"
| "join_with sep [x] = x"
| "join_with sep (x # y # xs) = x @ sep @ join_with sep (y # xs)"

definition v4_octets :: "32 word \<Rightarrow> nat list" where
  "v4_octets x = map (\<lambda>i. unat (take_bit 8 (drop_bit i x))) [24, 16, 8, 0]"

definition v4_str :: "32 word \<Rightarrow> string" where
  "v4_str x = join_with ''.'' (map dec_str (v4_octets x))"

definition v6_segments :: "128 word \<Rightarrow> nat list" where
  "v6_segments x = map (\<lambda>i. unat (take_bit 16 (drop_bit i x))) [112, 96, 80, 64, 48, 32, 16, 0]"

text \<open>
  The longest run of zero segments, the first one among equals, as (start, length): the scan of
  \<^verbatim>\<open>impl Display for Ipv6Addr\<close> over index, current run and longest run.
\<close>

fun longest_zeros :: "nat \<Rightarrow> nat \<times> nat \<Rightarrow> nat \<times> nat \<Rightarrow> nat list \<Rightarrow> nat \<times> nat" where
  "longest_zeros i cur best [] = best"
| "longest_zeros i cur best (s # ss) =
     (if s = 0
      then let cur' = (if snd cur = 0 then (i, 1) else (fst cur, snd cur + 1))
           in longest_zeros (i + 1) cur' (if snd cur' > snd best then cur' else best) ss
      else longest_zeros (i + 1) (0, 0) best ss)"

definition v6_str :: "128 word \<Rightarrow> string" where
  "v6_str x =
     (case to_ipv4_mapped x of
        Some v4 \<Rightarrow> ''::ffff:'' @ v4_str v4
      | None \<Rightarrow>
          let segs = v6_segments x; (start, len) = longest_zeros 0 (0, 0) (0, 0) segs;
              sub = (\<lambda>ss. join_with '':'' (map (radix_str 16) ss))
          in if len > 1 then sub (take start segs) @ ''::'' @ sub (drop (start + len) segs)
             else sub segs)"

fun ip_str :: "ip_addr \<Rightarrow> string" where
  "ip_str (V4 x) = v4_str x"
| "ip_str (V6 x) = v6_str x"

fun sock_str :: "socket_addr \<Rightarrow> string" where
  "sock_str (SockV4 ip p) = v4_str ip @ '':'' @ dec_str (unat p)"
| "sock_str (SockV6 ip p scope) =
     ''['' @ v6_str ip @ (if scope = 0 then [] else ''%'' @ dec_str (unat scope)) @ '']:'' @ dec_str (unat p)"

section \<open>What the key identifies\<close>

lemma v6_mask64_eq_iff: "v6_mask64 x = v6_mask64 y \<longleftrightarrow> drop_bit 64 x = drop_bit 64 y"
proof
  assume "v6_mask64 x = v6_mask64 y"
  then have "drop_bit 64 (v6_mask64 x) = drop_bit 64 (v6_mask64 y)" by simp
  moreover have "drop_bit 64 (v6_mask64 z) = drop_bit 64 z" for z
    by (rule bit_eqI) (auto simp: v6_mask64_def bit_simps dest: bit_imp_le_length)
  ultimately show "drop_bit 64 x = drop_bit 64 y" by simp
qed (simp add: v6_mask64_def)

end
