(* ===== verification/Limiter.thy ===== *)
theory Limiter
  imports Prelude
begin

text \<open>
  The contract the relay's two rate limiters share (the per-client message limiter and the
  per-IP registration limiter of \<^verbatim>\<open>room.rs\<close>): a fixed window that opens at the first call, a
  counter that admits while it is below the limit, a new window once the old one is older than
  its width. Proved once from the contract: a key is admitted at most \<open>m\<close> times in one window,
  and at most \<open>2 * m\<close> times in any stretch of time no longer than the window, whatever calls for
  other keys come in between.
\<close>

fun admitted :: "('k \<Rightarrow> instant \<Rightarrow> 's \<Rightarrow> 's \<times> bool) \<Rightarrow> 'k \<Rightarrow> ('k \<times> instant) list \<Rightarrow> 's \<Rightarrow> nat" where
  "admitted step k [] s = 0"
| "admitted step k ((j, t) # calls) s =
     (if j = k \<and> \<not> snd (step j t s) then 1 else 0) + admitted step k calls (fst (step j t s))"

locale window_limiter =
  fixes step :: "'k \<Rightarrow> instant \<Rightarrow> 's \<Rightarrow> 's \<times> bool"
    and win :: "'s \<Rightarrow> 'k \<Rightarrow> (instant \<times> nat) option"
    and linv :: "'s \<Rightarrow> bool"
    and w :: duration
    and m :: nat
  assumes linv_step: "linv s \<Longrightarrow> linv (fst (step k now s))"
    and other: "linv s \<Longrightarrow> j \<noteq> k \<Longrightarrow> win (fst (step j now s)) k = win s k"
    and fresh: "linv s \<Longrightarrow> (\<And>t c. win s k = Some (t, c) \<Longrightarrow> now - t > w) \<Longrightarrow>
        (if snd (step k now s)
         then win (fst (step k now s)) k = win s k \<or> win (fst (step k now s)) k = Some (now, m)
         else win (fst (step k now s)) k = Some (now, 1))"
    and within: "linv s \<Longrightarrow> win s k = Some (t, c) \<Longrightarrow> now - t \<le> w \<Longrightarrow>
        (if c < m then \<not> snd (step k now s) \<and> win (fst (step k now s)) k = Some (t, c + 1)
         else snd (step k now s) \<and> win (fst (step k now s)) k = Some (t, c))"
begin

text \<open>As long as the window stays open, only what is left of the limit is admitted.\<close>

lemma admitted_window:
  "linv s \<Longrightarrow> win s k = Some (t, c) \<Longrightarrow> (\<forall>x \<in> set calls. snd x - t \<le> w) \<Longrightarrow>
     admitted step k calls s \<le> m - c"
proof (induction calls arbitrary: s c)
  case (Cons x calls)
  obtain j u where x: "x = (j, u)" by (cases x)
  let ?s = "fst (step j u s)"
  from Cons.prems x have inv: "linv ?s" and open_win: "u - t \<le> w"
    and rest: "\<forall>x \<in> set calls. snd x - t \<le> w"
    by (simp_all add: linv_step)
  show ?case
  proof (cases "j = k")
    case True
    note w = within [OF Cons.prems(1,2) open_win]
    show ?thesis
    proof (cases "c < m")
      case True
      with w \<open>j = k\<close> have "win ?s k = Some (t, c + 1)" by simp
      from Cons.IH [OF inv this rest] True w x \<open>j = k\<close> show ?thesis by simp
    next
      case False
      with w \<open>j = k\<close> have "win ?s k = Some (t, c)" by simp
      from Cons.IH [OF inv this rest] False w x \<open>j = k\<close> show ?thesis by simp
    qed
  next
    case False
    with Cons.prems other have "win ?s k = Some (t, c)" by simp
    from Cons.IH [OF inv this rest] False x show ?thesis by simp
  qed
qed simp

text \<open>What is left of a window that may still be open.\<close>

definition left_over :: "'s \<Rightarrow> 'k \<Rightarrow> nat" where
  "left_over s k = (case win s k of None \<Rightarrow> 0 | Some (t, c) \<Rightarrow> m - c)"

lemma left_over_other: "linv s \<Longrightarrow> j \<noteq> k \<Longrightarrow> left_over (fst (step j u s)) k = left_over s k"
  by (simp add: left_over_def other)

lemma admitted_stretch:
  assumes "linv s" "sorted (map snd calls)" "\<forall>x \<in> set calls. t0 \<le> snd x \<and> snd x \<le> t0 + w"
  shows "admitted step k calls s \<le> left_over s k + max 1 m"
  using assms
proof (induction calls arbitrary: s)
  case (Cons x calls)
  obtain j u where x: "x = (j, u)" by (cases x)
  let ?s = "fst (step j u s)"
  from Cons.prems x have inv: "linv ?s" and rest: "sorted (map snd calls)"
    "\<forall>x \<in> set calls. t0 \<le> snd x \<and> snd x \<le> t0 + w"
    and in_win: "\<forall>x \<in> set calls. snd x - u \<le> w"
    by (auto simp: linv_step)
  note IH = Cons.IH [OF inv rest]
  consider "j \<noteq> k" | "j = k" "\<forall>t c. win s k = Some (t, c) \<longrightarrow> u - t > w"
    | t c where "j = k" "win s k = Some (t, c)" "u - t \<le> w"
    using not_less by blast
  then show ?case
  proof cases
    case 1
    with IH left_over_other [OF Cons.prems(1) 1] x show ?thesis by simp
  next
    case 2
    note fr = fresh [OF Cons.prems(1), of k u] 2
    show ?thesis
    proof (cases "snd (step k u s)")
      case True
      with fr have "win ?s k = win s k \<or> win ?s k = Some (u, m)" by simp
      then have "left_over ?s k \<le> left_over s k" by (auto simp: left_over_def)
      with IH True x \<open>j = k\<close> show ?thesis by simp
    next
      case False
      with fr have "win ?s k = Some (u, 1)" by simp
      from admitted_window [OF inv this in_win] False x \<open>j = k\<close> show ?thesis by simp
    qed
  next
    case 3
    note wi = within [OF Cons.prems(1) 3(2,3)]
    then have "left_over ?s k + (if snd (step k u s) then 0 else 1) = left_over s k"
      using 3 by (auto simp: left_over_def split: if_splits)
    with IH x 3 show ?thesis by (auto split: if_splits)
  qed
qed simp

theorem admitted_twice:
  assumes "linv s" "sorted (map snd calls)" "\<forall>x \<in> set calls. t0 \<le> snd x \<and> snd x \<le> t0 + w"
  shows "admitted step k calls s \<le> 2 * max 1 m"
proof -
  have "left_over s k \<le> m" by (simp add: left_over_def split: option.splits)
  with admitted_stretch [OF assms, of k] show ?thesis by simp
qed

end

end
