(* ===== verification/Room.thy ===== *)
theory Room
  imports Hash_Map Net Limiter
begin

text \<open>
  \<^verbatim>\<open>crates/qvole-relay/src/room.rs\<close>: validation helpers, the two rate limiters, the state of one
  room (admitted clients, registrations waiting for their cookie, the per-IP count of those),
  eviction of stale clients and of stale rooms.

  Every operation that reads the clock takes the reading as its argument \<open>now\<close>; operations
  that mutate \<^verbatim>\<open>self\<close> return the new value beside their result.
\<close>

section \<open>Constants\<close>

definition NUM_SHARDS :: nat where "NUM_SHARDS = 16"
definition NUM_REG_SHARDS :: nat where "NUM_REG_SHARDS = 16"
definition MAX_ROOM_NAME_LEN :: nat where "MAX_ROOM_NAME_LEN = 64"
definition MAX_DATAGRAM_LEN :: nat where "MAX_DATAGRAM_LEN = 1400"
definition PENDING_REG_TTL_MS :: nat where "PENDING_REG_TTL_MS = 5000"
definition PENDING_COOKIE_BYTES :: nat where "PENDING_COOKIE_BYTES = 16"
definition MAX_REG_SHARD_ENTRIES :: nat where "MAX_REG_SHARD_ENTRIES = 100000"

lemmas room_consts = NUM_SHARDS_def NUM_REG_SHARDS_def MAX_ROOM_NAME_LEN_def MAX_DATAGRAM_LEN_def
  PENDING_REG_TTL_MS_def PENDING_COOKIE_BYTES_def MAX_REG_SHARD_ENTRIES_def

section \<open>Sharding and validation\<close>

definition fnv_step :: "u32 \<Rightarrow> char \<Rightarrow> u32" where
  "fnv_step h b = (h XOR of_char b) * 0x01000193"

definition fnv1a32 :: "string \<Rightarrow> u32" where
  "fnv1a32 key = foldl fnv_step 0x811c9dc5 key"

definition shard_idx :: "string \<Rightarrow> nat \<Rightarrow> nat" where
  "shard_idx key n = unat (fnv1a32 key mod word_of_nat n)"

definition valid_room_name :: "string \<Rightarrow> bool" where
  "valid_room_name room =
     (if room = [] \<or> length room > MAX_ROOM_NAME_LEN then False
      else list_all (\<lambda>c. 33 \<le> (of_char c :: nat) \<and> (of_char c :: nat) \<le> 126) room)"

definition is_valid_hex :: "string \<Rightarrow> bool" where
  "is_valid_hex s =
     (if s = [] \<or> length s mod 2 \<noteq> 0 then False else list_all is_ascii_hexdigit s)"

definition ws_bytes :: "string" where
  "ws_bytes = map char_of [9 :: nat, 10, 11, 12, 13, 32]"

fun position :: "('a \<Rightarrow> bool) \<Rightarrow> 'a list \<Rightarrow> nat option" where
  "position P [] = None"
| "position P (x # xs) = (if P x then Some 0 else map_option Suc (position P xs))"

definition rposition :: "('a \<Rightarrow> bool) \<Rightarrow> 'a list \<Rightarrow> nat option" where
  "rposition P xs = map_option (\<lambda>i. length xs - Suc i) (position P (rev xs))"

definition trim_ascii_space :: "string \<Rightarrow> string" where
  "trim_ascii_space b =
     (let start = (case position (\<lambda>c. c \<notin> set ws_bytes) b of None \<Rightarrow> length b | Some i \<Rightarrow> i);
          stop = (case rposition (\<lambda>c. c \<notin> set ws_bytes) b of None \<Rightarrow> start | Some i \<Rightarrow> i + 1)
      in take (stop - start) (drop start b))"

section \<open>Message rate limiter\<close>

record rate_limiter =
  msg_count :: u32
  window_start :: instant

definition rate_limiter_new :: "instant \<Rightarrow> rate_limiter" where
  "rate_limiter_new now = \<lparr>msg_count = 0, window_start = now\<rparr>"

definition is_limited :: "instant \<Rightarrow> duration \<Rightarrow> u32 \<Rightarrow> rate_limiter \<Rightarrow> rate_limiter \<times> bool" where
  "is_limited now rate_window max_msg_rate l =
     (let l = (if duration_since now (window_start l) > rate_window
               then l\<lparr>msg_count := 0, window_start := now\<rparr> else l)
      in if msg_count l \<ge> max_msg_rate then (l, True)
         else (l\<lparr>msg_count := msg_count l + 1\<rparr>, False))"

section \<open>Rooms\<close>

record udp_client =
  last_seen :: instant
  c_rate_limiter :: rate_limiter
  c_resolved_addr :: "socket_addr option"

definition udp_client_new :: "instant \<Rightarrow> socket_addr option \<Rightarrow> udp_client" where
  "udp_client_new now resolved =
     \<lparr>last_seen = now, c_rate_limiter = rate_limiter_new now, c_resolved_addr = resolved\<rparr>"

record pending_reg =
  cookie :: "byte list"
  created_at :: instant
  p_resolved_addr :: socket_addr

record room_entry =
  udp_clients :: "(socket_addr, udp_client) hashmap"
  pending :: "(socket_addr, pending_reg) hashmap"
  pending_by_ip :: "(ip_addr, nat) hashmap"
  entry_t :: instant

definition room_entry_new :: "instant \<Rightarrow> room_entry" where
  "room_entry_new now = \<lparr>udp_clients = [], pending = [], pending_by_ip = [], entry_t = now\<rparr>"

definition add_pending :: "socket_addr \<Rightarrow> pending_reg \<Rightarrow> nat \<Rightarrow> room_entry \<Rightarrow> room_entry \<times> bool" where
  "add_pending src p max_per_room e =
     (if \<not> hm_contains (pending e) src \<and> length (pending e) \<ge> max_per_room then (e, False)
      else let was = hm_get (pending e) src;
               e = e\<lparr>pending := hm_insert src p (pending e)\<rparr>;
               e = (if was = None
                    then e\<lparr>pending_by_ip := ctr_incr (ip_key src) (pending_by_ip e)\<rparr> else e)
           in (e, True))"

definition remove_pending :: "socket_addr \<Rightarrow> room_entry \<Rightarrow> room_entry \<times> pending_reg option" where
  "remove_pending src e =
     (let removed = hm_get (pending e) src;
          e = e\<lparr>pending := hm_remove src (pending e)\<rparr>;
          e = (if removed \<noteq> None
               then e\<lparr>pending_by_ip := ctr_decr (ip_key src) (pending_by_ip e)\<rparr> else e)
      in (e, removed))"

definition entry_pending_count_for_ip :: "room_entry \<Rightarrow> ip_addr \<Rightarrow> nat" where
  "entry_pending_count_for_ip e ip = ctr_get (pending_by_ip e) ip"

definition stale_clients :: "instant \<Rightarrow> duration \<Rightarrow> room_entry \<Rightarrow> socket_addr list" where
  "stale_clients now reg_ttl e =
     hm_keys (hm_retain (\<lambda>_ info. duration_since now (last_seen info) > reg_ttl) (udp_clients e))"

definition expired_pending :: "instant \<Rightarrow> room_entry \<Rightarrow> socket_addr list" where
  "expired_pending now e =
     hm_keys (hm_retain (\<lambda>_ p. duration_since now (created_at p) > from_millis PENDING_REG_TTL_MS)
       (pending e))"

definition remove_stale_clients ::
    "string \<Rightarrow> instant \<Rightarrow> duration \<Rightarrow> room_entry \<Rightarrow> room_entry \<times> (ip_addr \<times> string) list" where
  "remove_stale_clients room now reg_ttl e =
     (let stale = stale_clients now reg_ttl e;
          unlinked = map (\<lambda>addr. (ip_key addr, room))
            (filter (\<lambda>addr. \<not> (\<exists>other \<in> set (hm_keys (udp_clients e)).
                                 other \<noteq> addr \<and> ip_key other = ip_key addr)) stale);
          e = e\<lparr>udp_clients := fold hm_remove stale (udp_clients e)\<rparr>;
          e = fold (\<lambda>addr e. fst (remove_pending addr e)) (expired_pending now e) e
      in (e, unlinked))"

section \<open>Registration rate limiter and log throttle\<close>

record reg_shard =
  sent :: "(string, u32) hashmap"
  times :: "(string, instant) hashmap"

definition reg_shard_default :: reg_shard where
  "reg_shard_default = \<lparr>sent = [], times = []\<rparr>"

definition reg_is_limited ::
    "string \<Rightarrow> instant \<Rightarrow> duration \<Rightarrow> u32 \<Rightarrow> reg_shard \<Rightarrow> reg_shard \<times> bool" where
  "reg_is_limited src now rate_window max_rate sh =
     (case hm_get (times sh) src of
        None \<Rightarrow>
          if length (times sh) \<ge> MAX_REG_SHARD_ENTRIES then (sh, True)
          else (sh\<lparr>sent := hm_insert src 1 (sent sh), times := hm_insert src now (times sh)\<rparr>, False)
      | Some reset \<Rightarrow>
          if duration_since now reset > rate_window
          then (sh\<lparr>sent := hm_insert src 1 (sent sh), times := hm_insert src now (times sh)\<rparr>, False)
          else let count = (case hm_get (sent sh) src of None \<Rightarrow> 0 | Some c \<Rightarrow> c)
               in if count \<ge> max_rate then (sh\<lparr>sent := hm_insert src count (sent sh)\<rparr>, True)
                  else (sh\<lparr>sent := hm_insert src (count + 1) (sent sh)\<rparr>, False))"

definition reg_cleanup_stale :: "instant \<Rightarrow> duration \<Rightarrow> reg_shard \<Rightarrow> reg_shard" where
  "reg_cleanup_stale now max_age sh =
     (let old = hm_keys (hm_retain (\<lambda>_ t. duration_since now t > max_age) (times sh));
          sh = sh\<lparr>sent := fold hm_remove old (sent sh),
                  times := hm_retain (\<lambda>_ t. \<not> duration_since now t > max_age) (times sh)\<rparr>;
          sh = (if length (sent sh) > MAX_REG_SHARD_ENTRIES then sh\<lparr>sent := []\<rparr> else sh)
      in if length (times sh) > MAX_REG_SHARD_ENTRIES then sh\<lparr>times := []\<rparr> else sh)"

record drop_log_limiter =
  dl_last :: "(string, instant) hashmap"
  dl_window_start :: instant
  dl_window_count :: nat
  dl_max_entries :: nat
  dl_max_per_sec :: nat

definition drop_log_limiter_new :: "instant \<Rightarrow> drop_log_limiter" where
  "drop_log_limiter_new now =
     \<lparr>dl_last = [], dl_window_start = now, dl_window_count = 0, dl_max_entries = 100000,
      dl_max_per_sec = 100\<rparr>"

definition drop_log_with_limits :: "instant \<Rightarrow> nat \<Rightarrow> nat \<Rightarrow> drop_log_limiter" where
  "drop_log_with_limits now max_entries max_per_sec =
     (drop_log_limiter_new now)\<lparr>dl_max_entries := max_entries, dl_max_per_sec := max_per_sec\<rparr>"

definition allow_log ::
    "string \<Rightarrow> instant \<Rightarrow> duration \<Rightarrow> drop_log_limiter \<Rightarrow> drop_log_limiter \<times> bool" where
  "allow_log ip now interval d =
     (let d = (if duration_since now (dl_window_start d) \<ge> from_secs 1
               then d\<lparr>dl_window_start := now, dl_window_count := 0\<rparr> else d)
      in if dl_window_count d \<ge> dl_max_per_sec d then (d, False)
         else if (case hm_get (dl_last d) ip of None \<Rightarrow> False
                  | Some prev \<Rightarrow> duration_since now prev < interval) then (d, False)
         else if \<not> hm_contains (dl_last d) ip \<and> length (dl_last d) \<ge> dl_max_entries d then (d, False)
         else (d\<lparr>dl_last := hm_insert ip now (dl_last d),
                 dl_window_count := dl_window_count d + 1\<rparr>, True))"

definition drop_log_cleanup_stale :: "instant \<Rightarrow> duration \<Rightarrow> drop_log_limiter \<Rightarrow> drop_log_limiter" where
  "drop_log_cleanup_stale now max_age d =
     d\<lparr>dl_last := hm_retain (\<lambda>_ t. duration_since now t \<le> max_age) (dl_last d)\<rparr>"

datatype reg_action = Regd | Challenge "byte list" | NoReply

section \<open>Eviction of rooms\<close>

definition evict_stale_rooms ::
    "(string, room_entry) hashmap \<Rightarrow> instant \<Rightarrow> duration \<Rightarrow>
     (string, room_entry) hashmap \<times> nat \<times> (ip_addr \<times> string) list" where
  "evict_stale_rooms rooms now reg_ttl =
     (let swept = map (\<lambda>(room, e). (room, remove_stale_clients room now reg_ttl e)) rooms;
          unlinked_all = concat (map (\<lambda>(_, _, unlinked). unlinked) swept);
          rooms = map (\<lambda>(room, e, _). (room, e)) swept;
          to_remove = hm_keys (hm_retain
            (\<lambda>_ e. udp_clients e = [] \<and> duration_since now (entry_t e) > reg_ttl) rooms)
      in (fold hm_remove to_remove rooms, length to_remove, unlinked_all))"


section \<open>Validation helpers\<close>

lemma shard_idx_less: "0 < n \<Longrightarrow> n < 2 ^ 32 \<Longrightarrow> shard_idx key n < n"
proof -
  assume "0 < n" "n < 2 ^ 32"
  then have "unat (word_of_nat n :: u32) = n" by (simp add: unsigned_of_nat take_bit_nat_eq_self)
  with \<open>0 < n\<close> show ?thesis by (simp add: shard_idx_def unat_mod)
qed

lemma shard_idx_16 [simp]: "shard_idx key NUM_SHARDS < NUM_SHARDS" "shard_idx key NUM_REG_SHARDS < NUM_REG_SHARDS"
  using shard_idx_less [of 16 key] by (simp_all add: room_consts)

lemma position_Some:
  "position P xs = Some i \<Longrightarrow> i = length (takeWhile (\<lambda>x. \<not> P x) xs) \<and> i < length xs"
  by (induction xs arbitrary: i) (auto split: if_splits)

lemma position_None: "position P xs = None \<longleftrightarrow> (\<forall>x \<in> set xs. \<not> P x)"
  by (induction xs) auto

text \<open>What trimming means: drop white space from the front, then from the back.\<close>

definition trim_spec :: "string \<Rightarrow> string" where
  "trim_spec b = rev (dropWhile (\<lambda>c. c \<in> set ws_bytes) (rev (dropWhile (\<lambda>c. c \<in> set ws_bytes) b)))"

lemma ws_bytes_of_char: "c \<in> set ws_bytes \<longleftrightarrow> (of_char c :: nat) \<in> {9, 10, 11, 12, 13, 32}"
proof -
  have "c = char_of n \<longleftrightarrow> of_char c = n" if "n < 256" for n :: nat
    using that by (metis char_of_char of_char_of mod_less)
  then show ?thesis by (simp add: ws_bytes_def)
qed

lemma rev_dropWhile_rev: "rev (dropWhile P (rev y)) = take (length y - length (takeWhile P (rev y))) y"
  by (simp add: dropWhile_eq_drop rev_drop)

lemma trim_ascii_space_spec: "trim_ascii_space b = trim_spec b"
proof (cases "\<forall>c \<in> set b. c \<in> set ws_bytes")
  case True
  then have "dropWhile (\<lambda>c. c \<in> set ws_bytes) b = []" by (simp add: dropWhile_eq_Nil_conv)
  moreover from True have "position (\<lambda>c. c \<notin> set ws_bytes) b = None"
    "rposition (\<lambda>c. c \<notin> set ws_bytes) b = None"
    by (simp_all add: position_None rposition_def)
  ultimately show ?thesis using True by (auto simp: trim_ascii_space_def trim_spec_def dest: set_dropWhileD)
next
  case False
  let ?ws = "\<lambda>c. c \<in> set ws_bytes"
  let ?y = "dropWhile ?ws b" and ?t = "takeWhile ?ws b"
  from False obtain c where c: "c \<in> set b" "\<not> ?ws c" by blast
  from False obtain i where i: "position (\<lambda>c. c \<notin> set ws_bytes) b = Some i"
    using position_None by (metis (mono_tags, lifting) not_None_eq)
  from False obtain k where k: "position (\<lambda>c. c \<notin> set ws_bytes) (rev b) = Some k"
    using position_None by (metis (mono_tags, lifting) not_None_eq set_rev)
  have b: "rev b = rev ?y @ rev ?t" by (metis rev_append takeWhile_dropWhile_id)
  have "c \<in> set ?y" using c by (metis UnE set_append set_takeWhileD takeWhile_dropWhile_id)
  then have "takeWhile ?ws (rev b) = takeWhile ?ws (rev ?y)"
    unfolding b using c takeWhile_append1 [of c "rev ?y" ?ws] by simp
  then have stop: "length b - Suc k + 1 = length b - length (takeWhile ?ws (rev ?y))"
    using position_Some [OF k] by (auto simp: Suc_diff_Suc)
  have "length b = length ?t + length ?y" by (metis length_append takeWhile_dropWhile_id)
  then have len: "length b - length (takeWhile ?ws (rev ?y)) - length ?t = length ?y - length (takeWhile ?ws (rev ?y))"
    by simp
  have "trim_ascii_space b = take (length b - length (takeWhile ?ws (rev ?y)) - length ?t) (drop (length ?t) b)"
    using i k stop position_Some [OF i] by (simp add: trim_ascii_space_def rposition_def Let_def)
  also have "drop (length ?t) b = ?y" by (rule dropWhile_eq_drop [symmetric])
  finally show ?thesis unfolding len trim_spec_def rev_dropWhile_rev .
qed

section \<open>The limiters meet their contract\<close>

interpretation msg_limiter: window_limiter "\<lambda>(_ :: unit) now. is_limited now w max_rate"
  "\<lambda>l _. Some (window_start l, unat (msg_count l))" "\<lambda>_. True" w "unat max_rate"
  for w :: duration and max_rate :: u32
  by unfold_locales
    (auto simp: is_limited_def Let_def duration_since_def unat_incr [of _ max_rate] word_less_nat_alt word_le_nat_alt)

definition reg_window :: "reg_shard \<Rightarrow> string \<Rightarrow> (instant \<times> nat) option" where
  "reg_window sh src =
     (case hm_get (times sh) src of None \<Rightarrow> None
      | Some t \<Rightarrow> Some (t, unat (case hm_get (sent sh) src of None \<Rightarrow> 0 | Some c \<Rightarrow> c)))"

interpretation reg_limiter: window_limiter "\<lambda>src now. reg_is_limited src now w max_rate"
  reg_window "\<lambda>_. True" w "unat max_rate"
  for w :: duration and max_rate :: u32
proof (unfold_locales, goal_cases)
  case (2 s j k now)
  then show ?case
    by (auto simp: reg_is_limited_def reg_window_def hm_get_insert Let_def split: option.splits)
next
  case (3 s k now)
  then show ?case
    by (force simp: reg_is_limited_def reg_window_def hm_get_insert Let_def duration_since_def
        split: option.splits)
next
  case (4 s k t c now)
  then show ?case
    by (auto simp: reg_is_limited_def reg_window_def hm_get_insert Let_def duration_since_def
        unat_incr [of _ max_rate] word_le_nat_alt not_le split: option.splits if_splits)
qed simp

section \<open>The room invariant\<close>

text \<open>
  The per-IP map counts the waiting registrations of each IP; addresses resolved from a
  datagram's source are the keys they are stored under.
\<close>

definition room_ok :: "room_entry \<Rightarrow> bool" where
  "room_ok e \<longleftrightarrow> hm_ok (udp_clients e) \<and> hm_ok (pending e) \<and> ctr_ok (pending_by_ip e)
     \<and> (\<forall>ip. ctr_get (pending_by_ip e) ip = hm_sum (tally ip_key ip) (pending e))
     \<and> (\<forall>a c. hm_get (udp_clients e) a = Some c \<longrightarrow> c_resolved_addr c = Some a)
     \<and> (\<forall>a p. hm_get (pending e) a = Some p \<longrightarrow> p_resolved_addr p = a)"

interpretation pend: tallied_store hm_get hm_insert hm_remove hm_sum hm_ok
  ctr_incr ctr_decr ctr_get ctr_ok ip_key
  by unfold_locales

lemma room_okD:
  assumes "room_ok e"
  shows "hm_ok (udp_clients e)" "hm_ok (pending e)" "ctr_ok (pending_by_ip e)"
    "ctr_get (pending_by_ip e) ip = hm_sum (tally ip_key ip) (pending e)"
    "hm_get (udp_clients e) a = Some c \<Longrightarrow> c_resolved_addr c = Some a"
    "hm_get (pending e) a = Some p \<Longrightarrow> p_resolved_addr p = a"
  using assms by (simp_all add: room_ok_def)

lemma room_ok_new [wf_intros]: "room_ok (room_entry_new now)"
  by (simp add: room_ok_def room_entry_new_def ctr_ok_def ctr_get_def)

lemma room_ok_add_pending [wf_intros]:
  assumes "room_ok e" "p_resolved_addr p = src"
  shows "room_ok (fst (add_pending src p n e))"
proof (cases "hm_get (pending e) src")
  case None
  note tally = pend.tally_put_new [OF room_okD(2-4) [OF assms(1)] None]
  from assms None show ?thesis
    by (auto simp: add_pending_def Let_def room_ok_def hm_contains_def hm_ok_insert ctr_ok_incr
        hm_get_insert tally [symmetric] split: if_splits)
next
  case (Some q)
  note tally = pend.tally_put_old [OF room_okD(2,4) [OF assms(1)] Some]
  from assms Some show ?thesis
    by (auto simp: add_pending_def Let_def room_ok_def hm_contains_def hm_ok_insert
        hm_get_insert tally [symmetric] split: if_splits)
qed

lemma room_ok_remove_pending [wf_intros]:
  assumes "room_ok e"
  shows "room_ok (fst (remove_pending src e))"
proof (cases "hm_get (pending e) src")
  case None
  with assms show ?thesis
    by (auto simp: remove_pending_def Let_def room_ok_def hm_ok_remove hm_get_remove hm.total_del_None)
next
  case (Some p)
  note tally = pend.tally_del [OF room_okD(2-4) [OF assms] Some]
  from assms Some show ?thesis
    by (auto simp: remove_pending_def Let_def room_ok_def hm_ok_remove ctr_ok_decr hm_get_remove
        tally [symmetric] split: if_splits)
qed

lemma remove_pending_frame [frame_simps, simp]:
  "udp_clients (fst (remove_pending src e)) = udp_clients e"
  "entry_t (fst (remove_pending src e)) = entry_t e"
  "pending (fst (remove_pending src e)) = hm_remove src (pending e)"
  by (simp_all add: remove_pending_def Let_def)

lemma room_ok_remove_client [wf_intros]:
  "room_ok e \<Longrightarrow> room_ok (e\<lparr>udp_clients := hm_remove a (udp_clients e)\<rparr>)"
  by (auto simp: room_ok_def hm_ok_remove hm_get_remove split: if_splits)


section \<open>Sweeping a room\<close>

lemma room_ok_remove_pendings:
  "room_ok e \<Longrightarrow> room_ok (fold (\<lambda>a e. fst (remove_pending a e)) as e)"
  by (induction as arbitrary: e) (simp_all add: room_ok_remove_pending)

lemma remove_pendings_frame [simp]:
  "udp_clients (fold (\<lambda>a e. fst (remove_pending a e)) as e) = udp_clients e"
  "entry_t (fold (\<lambda>a e. fst (remove_pending a e)) as e) = entry_t e"
  "pending (fold (\<lambda>a e. fst (remove_pending a e)) as e) = fold hm_remove as (pending e)"
  by (induction as arbitrary: e) simp_all

lemma room_ok_remove_clients:
  "room_ok e \<Longrightarrow> room_ok (e\<lparr>udp_clients := fold hm_remove as (udp_clients e)\<rparr>)"
proof (induction as arbitrary: e)
  case (Cons a as)
  from Cons.IH [OF room_ok_remove_client [OF Cons.prems, of a]] show ?case by simp
qed simp

lemma room_ok_remove_stale_clients [wf_intros]:
  "room_ok e \<Longrightarrow> room_ok (fst (remove_stale_clients room now ttl e))"
  by (simp add: remove_stale_clients_def Let_def room_ok_remove_pendings room_ok_remove_clients)

lemma remove_stale_clients_state:
  assumes "room_ok e"
  shows "udp_clients (fst (remove_stale_clients room now ttl e))
           = hm_retain (\<lambda>_ c. now - last_seen c \<le> ttl) (udp_clients e)"
    and "pending (fst (remove_stale_clients room now ttl e))
           = hm_retain (\<lambda>_ p. now - created_at p \<le> from_millis PENDING_REG_TTL_MS) (pending e)"
    and "entry_t (fst (remove_stale_clients room now ttl e)) = entry_t e"
  using assms
  by (simp_all add: remove_stale_clients_def Let_def stale_clients_def expired_pending_def
      hm_remove_retained room_okD duration_since_def not_less)

lemma remove_stale_clients_unlinked:
  assumes "room_ok e"
  shows "(ip, r) \<in> set (snd (remove_stale_clients room now ttl e)) \<longleftrightarrow>
    r = room \<and> (\<exists>a c. hm_get (udp_clients e) a = Some c \<and> now - last_seen c > ttl \<and> ip_key a = ip
      \<and> (\<forall>b \<in> set (hm_keys (udp_clients e)). ip_key b = ip \<longrightarrow> b = a))"
  using room_okD(1) [OF assms]
  by (auto simp: remove_stale_clients_def Let_def stale_clients_def hm_get_retained_key duration_since_def)

lemma remove_stale_clients_unlinked_gone:
  assumes ok: "room_ok e" and un: "(ip, r) \<in> set (snd (remove_stale_clients room now ttl e))"
    and a: "a \<in> set (hm_keys (udp_clients (fst (remove_stale_clients room now ttl e))))"
  shows "ip_key a \<noteq> ip"
proof -
  from a ok obtain d where d: "hm_get (udp_clients e) a = Some d" "now - last_seen d \<le> ttl"
    by (auto simp: remove_stale_clients_state hm_get_retained_key room_okD(1))
  then have "a \<in> set (hm_keys (udp_clients e))"
    by (simp add: hm_contains_keys [symmetric] hm_contains_def)
  with un ok d show ?thesis by (fastforce simp: remove_stale_clients_unlinked)
qed

section \<open>Sweeping a shard\<close>

definition rooms_ok :: "(string, room_entry) hashmap \<Rightarrow> bool" where
  "rooms_ok rooms \<longleftrightarrow> hm_ok rooms \<and> (\<forall>(room, e) \<in> set rooms. room_ok e)"

definition room_evictable :: "instant \<Rightarrow> duration \<Rightarrow> room_entry \<Rightarrow> bool" where
  "room_evictable now ttl e \<longleftrightarrow>
     (\<forall>c \<in> snd ` set (udp_clients e). now - last_seen c > ttl) \<and> now - entry_t e > ttl"

lemma hm_get_map_snd:
  "hm_get (map (\<lambda>(k, v). (k, f k v)) m) k = map_option (f k) (hm_get m k)"
  by (induction m) auto

lemma hm_ok_map_snd [simp]: "hm_ok (map (\<lambda>(k, v). (k, f k v)) m) = hm_ok m"
  by (simp add: hm_ok_def comp_def case_prod_beta')

lemma hm_retain_empty: "hm_retain P m = [] \<longleftrightarrow> (\<forall>(k, v) \<in> set m. \<not> P k v)"
  by (auto simp: hm_retain_def filter_empty_conv)

lemma evictable_iff:
  "room_ok e \<Longrightarrow> room_evictable now ttl e \<longleftrightarrow>
     udp_clients (fst (remove_stale_clients room now ttl e)) = [] \<and> now - entry_t e > ttl"
  by (force simp: room_evictable_def remove_stale_clients_state hm_retain_empty)


definition sweep_rooms ::
    "instant \<Rightarrow> duration \<Rightarrow> (string, room_entry) hashmap \<Rightarrow> (string, room_entry) hashmap" where
  "sweep_rooms now ttl rooms = map (\<lambda>(room, e). (room, fst (remove_stale_clients room now ttl e))) rooms"

lemma sweep_rooms_eq:
  "map (\<lambda>(room, e, _). (room, e)) (map (\<lambda>(room, e). (room, remove_stale_clients room now ttl e)) rooms)
    = sweep_rooms now ttl rooms"
  by (simp add: sweep_rooms_def comp_def case_prod_beta')

lemma evict_stale_rooms_alt:
  assumes "rooms_ok rooms"
  shows "evict_stale_rooms rooms now ttl =
    (hm_retain (\<lambda>_ e. \<not> (udp_clients e = [] \<and> now - entry_t e > ttl)) (sweep_rooms now ttl rooms),
     length (hm_retain (\<lambda>_ e. udp_clients e = [] \<and> now - entry_t e > ttl) (sweep_rooms now ttl rooms)),
     concat (map (\<lambda>(room, e). snd (remove_stale_clients room now ttl e)) rooms))"
proof -
  have "hm_ok (sweep_rooms now ttl rooms)" using assms by (simp add: sweep_rooms_def rooms_ok_def)
  then show ?thesis
    unfolding evict_stale_rooms_def Let_def sweep_rooms_eq
    by (simp add: hm_remove_retained duration_since_def comp_def case_prod_beta')
qed

lemma evict_stale_rooms_state:
  assumes "rooms_ok rooms"
  shows "fst (evict_stale_rooms rooms now ttl) =
    sweep_rooms now ttl (hm_retain (\<lambda>_ e. \<not> room_evictable now ttl e) rooms)"
  unfolding evict_stale_rooms_alt [OF assms] sweep_rooms_def hm_retain_def filter_map fst_conv
proof (rule arg_cong [of _ _ "map _"], rule filter_cong)
  fix kv assume "kv \<in> set rooms"
  with assms have "room_ok (snd kv)" by (auto simp: rooms_ok_def)
  then show "((\<lambda>(_, e). \<not> (udp_clients e = [] \<and> ttl < now - entry_t e)) \<circ>
      (\<lambda>(room, e). (room, fst (remove_stale_clients room now ttl e)))) kv
      = (case kv of (_, e) \<Rightarrow> \<not> room_evictable now ttl e)"
    by (simp add: case_prod_beta' evictable_iff [of _ _ _ "fst kv"] remove_stale_clients_state)
qed simp

lemma evict_stale_rooms_count:
  assumes "rooms_ok rooms"
  shows "length (fst (evict_stale_rooms rooms now ttl)) + fst (snd (evict_stale_rooms rooms now ttl))
    = length rooms"
  using filter_length_add [of "\<lambda>(_, e). udp_clients e = [] \<and> now - entry_t e > ttl" "sweep_rooms now ttl rooms"]
  by (simp add: evict_stale_rooms_alt [OF assms] hm_retain_def case_prod_beta' sweep_rooms_def)

lemma evict_stale_rooms_unlinked:
  "snd (snd (evict_stale_rooms rooms now ttl)) =
     concat (map (\<lambda>(room, e). snd (remove_stale_clients room now ttl e)) rooms)"
  by (simp add: evict_stale_rooms_def Let_def comp_def case_prod_beta')

lemma hm_get_evict:
  assumes "rooms_ok rooms"
  shows "hm_get (fst (evict_stale_rooms rooms now ttl)) room =
    (case hm_get rooms room of None \<Rightarrow> None
     | Some e \<Rightarrow> if room_evictable now ttl e then None
               else Some (fst (remove_stale_clients room now ttl e)))"
  using assms
  by (simp add: evict_stale_rooms_state sweep_rooms_def hm_get_map_snd hm_get_retain rooms_ok_def
      split: option.splits)

lemma rooms_ok_evict: "rooms_ok rooms \<Longrightarrow> rooms_ok (fst (evict_stale_rooms rooms now ttl))"
  by (auto simp: evict_stale_rooms_state rooms_ok_def sweep_rooms_def hm_retain_def
      hm_ok_retain [unfolded hm_retain_def] intro!: room_ok_remove_stale_clients)


section \<open>Properties\<close>

text \<open>
  C30. Sweeping a room is exact: the clients that stay are those seen within the life time, the
  waiting registrations that stay are the unexpired ones, the invariant is kept, and an IP is
  reported as gone exactly when its only client in the room was stale.
\<close>

theorem room_sweep_exact:
  assumes "room_ok e"
  shows "room_ok (fst (remove_stale_clients room now ttl e))
    \<and> udp_clients (fst (remove_stale_clients room now ttl e)) = hm_retain (\<lambda>_ c. now - last_seen c \<le> ttl) (udp_clients e)
    \<and> pending (fst (remove_stale_clients room now ttl e))
        = hm_retain (\<lambda>_ p. now - created_at p \<le> from_millis PENDING_REG_TTL_MS) (pending e)
    \<and> set (snd (remove_stale_clients room now ttl e)) =
        {(ip_key a, room) | a c. hm_get (udp_clients e) a = Some c \<and> now - last_seen c > ttl
          \<and> (\<forall>b \<in> set (hm_keys (udp_clients e)). ip_key b = ip_key a \<longrightarrow> b = a)}"
proof -
  have "set (snd (remove_stale_clients room now ttl e)) =
        {(ip_key a, room) | a c. hm_get (udp_clients e) a = Some c \<and> now - last_seen c > ttl
          \<and> (\<forall>b \<in> set (hm_keys (udp_clients e)). ip_key b = ip_key a \<longrightarrow> b = a)}"
  proof (rule set_eqI)
    fix x :: "ip_addr \<times> string"
    obtain ip r where "x = (ip, r)" by (cases x)
    then show "x \<in> set (snd (remove_stale_clients room now ttl e)) \<longleftrightarrow> x \<in> {(ip_key a, room) | a c.
        hm_get (udp_clients e) a = Some c \<and> now - last_seen c > ttl
          \<and> (\<forall>b \<in> set (hm_keys (udp_clients e)). ip_key b = ip_key a \<longrightarrow> b = a)}"
      using remove_stale_clients_unlinked [OF assms, of ip r room now ttl] by auto
  qed
  with assms show ?thesis by (simp add: room_ok_remove_stale_clients remove_stale_clients_state)
qed

text \<open>A room with two clients of one IP, last seen at the start, and one waiting registration.\<close>

definition demo_room :: room_entry where
  "demo_room = fst (add_pending (SockV4 5 1)
     \<lparr>cookie = [], created_at = 0, p_resolved_addr = SockV4 5 1\<rparr> 1
     \<lparr>udp_clients = [(SockV4 9 1, udp_client_new 0 (Some (SockV4 9 1))), (SockV4 9 2, udp_client_new 0 (Some (SockV4 9 2)))],
      pending = [], pending_by_ip = [], entry_t = 0\<rparr>)"

lemma demo_room_ok: "room_ok demo_room"
  unfolding demo_room_def
  by (rule room_ok_add_pending)
    (auto simp: room_ok_def hm_ok_def ctr_ok_def ctr_get_def udp_client_new_def split: if_splits)

theorem room_sweep_exact_witness:
  "pending (fst (remove_stale_clients ''r'' 6000000000 10000000000 demo_room)) = []
     \<and> udp_clients (fst (remove_stale_clients ''r'' 6000000000 10000000000 demo_room)) = udp_clients demo_room"
proof -
  have "hm_retain (\<lambda>_ p. 6000000000 - created_at p \<le> from_millis PENDING_REG_TTL_MS) (pending demo_room) = []"
    "hm_retain (\<lambda>_ c. 6000000000 - last_seen c \<le> 10000000000) (udp_clients demo_room) = udp_clients demo_room"
    by (simp_all add: demo_room_def add_pending_def hm_contains_def hm_retain_def from_millis_def room_consts
        udp_client_new_def)
  then show ?thesis using room_sweep_exact [OF demo_room_ok, of "''r''" 6000000000 10000000000] by simp
qed

text \<open>
  A link that is never dropped: when two clients of one IP go stale together, the sweep
  removes both but reports nothing for that IP, because each is still counted while the other is
  looked at. The caller keeps the IP linked to the room although it has no client there.
\<close>

theorem stale_pair_keeps_link:
  assumes "room_ok e" "hm_get (udp_clients e) a = Some ca" "hm_get (udp_clients e) b = Some cb"
    "a \<noteq> b" "ip_key a = ip_key b" "now - last_seen ca > ttl" "now - last_seen cb > ttl"
  shows "hm_get (udp_clients (fst (remove_stale_clients room now ttl e))) a = None
    \<and> hm_get (udp_clients (fst (remove_stale_clients room now ttl e))) b = None
    \<and> (ip_key a, room) \<notin> set (snd (remove_stale_clients room now ttl e))"
proof -
  have keys: "a \<in> set (hm_keys (udp_clients e))" "b \<in> set (hm_keys (udp_clients e))"
    using assms(2,3) by (simp_all add: hm_contains_keys [symmetric] hm_contains_def)
  from assms keys show ?thesis
    by (auto simp: remove_stale_clients_state hm_get_retain room_okD(1) remove_stale_clients_unlinked)
qed

theorem stale_pair_keeps_link_witness:
  "udp_clients (fst (remove_stale_clients ''r'' 20000000000 10000000000 demo_room)) = []
     \<and> (V4 9, ''r'') \<notin> set (snd (remove_stale_clients ''r'' 20000000000 10000000000 demo_room))"
proof -
  have "udp_clients (fst (remove_stale_clients ''r'' 20000000000 10000000000 demo_room)) = []"
    by (simp add: remove_stale_clients_state [OF demo_room_ok])
      (simp add: demo_room_def add_pending_def hm_contains_def hm_retain_def udp_client_new_def)
  moreover have "hm_get (udp_clients demo_room) (SockV4 9 1) = Some (udp_client_new 0 (Some (SockV4 9 1)))"
    "hm_get (udp_clients demo_room) (SockV4 9 2) = Some (udp_client_new 0 (Some (SockV4 9 2)))"
    by (simp_all add: demo_room_def add_pending_def hm_contains_def)
  from stale_pair_keeps_link [OF demo_room_ok this, of 10000000000 20000000000 "''r''"]
  have "(V4 9, ''r'') \<notin> set (snd (remove_stale_clients ''r'' 20000000000 10000000000 demo_room))"
    by (simp add: udp_client_new_def)
  ultimately show ?thesis ..
qed


text \<open>
  Evicting rooms of a shard is exact: a room disappears exactly when all its clients are
  stale and it was not touched within the life time, every other room stays with its stale
  clients removed, and the count returned is the number of rooms that disappeared.
\<close>

theorem evict_stale_rooms_exact:
  assumes "rooms_ok rooms"
  shows "rooms_ok (fst (evict_stale_rooms rooms now ttl))
    \<and> hm_get (fst (evict_stale_rooms rooms now ttl)) room =
        (case hm_get rooms room of None \<Rightarrow> None
         | Some e \<Rightarrow> if room_evictable now ttl e then None
                   else Some (fst (remove_stale_clients room now ttl e)))
    \<and> length (fst (evict_stale_rooms rooms now ttl)) + fst (snd (evict_stale_rooms rooms now ttl)) = length rooms"
  using assms by (simp add: rooms_ok_evict hm_get_evict evict_stale_rooms_count)

theorem evict_stale_rooms_exact_witness:
  "hm_get (fst (evict_stale_rooms [(''r'', demo_room)] 20000000000 10000000000)) ''r'' = None"
proof -
  have "rooms_ok [(''r'', demo_room)]" by (simp add: rooms_ok_def demo_room_ok hm_ok_def)
  moreover have "room_evictable 20000000000 10000000000 demo_room"
    by (simp add: room_evictable_def demo_room_def add_pending_def hm_contains_def udp_client_new_def)
  ultimately show ?thesis
    using evict_stale_rooms_exact [of "[(''r'', demo_room)]" 20000000000 10000000000 "''r''"] by simp
qed

text \<open>
  The registration limiter bounds every source: in any stretch of time no longer than the
  window, whatever other sources do in between, a source is let through at most twice the rate
  (the rate of the window that is open when the stretch begins and of the one after it; at least
  one registration passes per window even at rate zero).
\<close>

theorem reg_rate_bound:
  assumes "sorted (map snd calls)" "\<forall>x \<in> set calls. t0 \<le> snd x \<and> snd x \<le> t0 + w"
  shows "admitted (\<lambda>src now. reg_is_limited src now w max_rate) k calls sh \<le> 2 * max 1 (unat max_rate)"
  using assms by (intro reg_limiter.admitted_twice) auto

theorem reg_rate_bound_witness:
  "admitted (\<lambda>src now. reg_is_limited src now 10 1) ''a'' [(''a'', 1), (''a'', 2), (''b'', 3), (''a'', 4)] reg_shard_default \<le> 2"
  using reg_rate_bound [of "[(''a'', 1), (''a'', 2), (''b'', 3), (''a'', 4)]" 1 10 1 "''a''" reg_shard_default]
  by simp

text \<open>
  C31. The message limiter bounds every client in the same way, and its 32-bit counter never
  passes the limit, so it never wraps.
\<close>

theorem msg_rate_bound:
  assumes "sorted (map snd calls)" "\<forall>x \<in> set calls. t0 \<le> snd x \<and> snd x \<le> t0 + w"
    and "msg_count l \<le> max_rate"
  shows "admitted (\<lambda>_ now. is_limited now w max_rate) () calls l \<le> 2 * max 1 (unat max_rate)
    \<and> msg_count (fst (is_limited now w max_rate l)) \<le> max_rate"
proof
  show "admitted (\<lambda>_ now. is_limited now w max_rate) () calls l \<le> 2 * max 1 (unat max_rate)"
    using assms by (intro msg_limiter.admitted_twice) auto
  show "msg_count (fst (is_limited now w max_rate l)) \<le> max_rate"
    using assms(3)
    by (auto simp: is_limited_def Let_def word_le_nat_alt word_less_nat_alt not_le unat_incr [of _ max_rate])
qed

theorem msg_rate_bound_witness:
  "admitted (\<lambda>_ now. is_limited now 10 3) () [((), 1), ((), 2), ((), 9)] (rate_limiter_new 0) \<le> 6"
  using msg_rate_bound [of "[((), 1), ((), 2), ((), 9)]" 1 10 "rate_limiter_new 0" 3 0]
  by (simp add: rate_limiter_new_def)

text \<open>
  Trimming by index arithmetic is trimming: the slice computed from the first and the last
  byte that is no white space is the text with white space dropped from both ends.
\<close>

theorem trim_ascii_space_correct: "trim_ascii_space b = trim_spec b"
  by (rule trim_ascii_space_spec)

end
