(* ===== verification/Hex.thy ===== *)
theory Hex
  imports Net
begin

text \<open>
  Hexadecimal text. Three encoders and two decoders exist in the sources:
  \<^verbatim>\<open>to_hex_lower\<close> and \<^verbatim>\<open>hex_decode\<close> of \<^verbatim>\<open>qvole-protocol/src/hex.rs\<close>, the pair of the same
  names at the end of \<^verbatim>\<open>qvole-relay/src/relay.rs\<close>, and \<^verbatim>\<open>hex_encode\<close> of
  \<^verbatim>\<open>qvole-spake2/src/code.rs\<close>. All encoders agree, both decoders agree, decoding inverts
  encoding, and a text decodes exactly when it has even length and only hex digits.
\<close>

section \<open>The five routines\<close>

definition HEX :: string where
  "HEX = ''0123456789abcdef''"

definition to_hex_lower :: "byte list \<Rightarrow> string" where
  "to_hex_lower b = concat (map (\<lambda>byte. [HEX ! unat (drop_bit 4 byte), HEX ! unat (byte AND 0x0f)]) b)"

definition hex_encode :: "byte list \<Rightarrow> string" where
  "hex_encode bytes =
     foldl (\<lambda>out b. (out @ [HEX ! unat (drop_bit 4 b)]) @ [HEX ! unat (b AND 0x0f)]) [] bytes"

text \<open>\<^verbatim>\<open>{byte:02x}\<close>: at least two digits, padded with zeros.\<close>

definition fmt_02x :: "byte \<Rightarrow> string" where
  "fmt_02x b = (let s = radix_str 16 (unat b) in replicate (2 - length s) (CHR ''0'') @ s)"

definition relay_to_hex_lower :: "byte list \<Rightarrow> string" where
  "relay_to_hex_lower b = foldl (\<lambda>s byte. s @ fmt_02x byte) [] b"

definition hex_val :: "char \<Rightarrow> byte option" where
  "hex_val ch =
     (let c = (of_char ch :: byte)
      in if 48 \<le> c \<and> c \<le> 57 then Some (c - 48)
         else if 97 \<le> c \<and> c \<le> 102 then Some (c - 97 + 10)
         else if 65 \<le> c \<and> c \<le> 70 then Some (c - 65 + 10)
         else None)"

fun hex_loop :: "string \<Rightarrow> byte list option" where
  "hex_loop (x # y # b) =
     (case hex_val x of None \<Rightarrow> None
      | Some hi \<Rightarrow> (case hex_val y of None \<Rightarrow> None
      | Some lo \<Rightarrow> map_option ((#) (push_bit 4 hi OR lo)) (hex_loop b)))"
| "hex_loop _ = Some []"

definition hex_decode :: "string \<Rightarrow> byte list option" where
  "hex_decode s = (if length s mod 2 \<noteq> 0 then None else hex_loop s)"

text \<open>\<^verbatim>\<open>as_chunks::<2>\<close>: the pairs and the odd byte that is left.\<close>

fun as_chunks2 :: "'a list \<Rightarrow> ('a \<times> 'a) list \<times> 'a list" where
  "as_chunks2 (x # y # b) = (let (pairs, tail) = as_chunks2 b in ((x, y) # pairs, tail))"
| "as_chunks2 b = ([], b)"

fun relay_hex_pairs :: "(char \<times> char) list \<Rightarrow> byte list option" where
  "relay_hex_pairs [] = Some []"
| "relay_hex_pairs ((x, y) # pairs) =
     (case hex_val x of None \<Rightarrow> None
      | Some hi \<Rightarrow> (case hex_val y of None \<Rightarrow> None
      | Some lo \<Rightarrow> map_option ((#) (hi * 16 + lo)) (relay_hex_pairs pairs)))"

definition relay_hex_decode :: "string \<Rightarrow> byte list option" where
  "relay_hex_decode b =
     (let (pairs, tail) = as_chunks2 b in if tail \<noteq> [] then None else relay_hex_pairs pairs)"

section \<open>Nibbles\<close>

lemma hex_val_HEX: "n < 16 \<Longrightarrow> hex_val (HEX ! n) = Some (word_of_nat n)"
proof -
  have "list_all (\<lambda>n. hex_val (HEX ! n) = Some (word_of_nat n)) [0..<16]"
    by (simp add: upt_rec hex_val_def HEX_def)
  then show "n < 16 \<Longrightarrow> ?thesis" by (simp add: list_all_iff)
qed

lemma digit_char_HEX: "digit_char = (!) HEX"
  by (rule ext) (simp add: digit_char_def HEX_def)

lemma nibble_high: "unat (drop_bit 4 b) = unat b div 16" for b :: byte
  by (simp add: drop_bit_eq_div unat_div)

lemma nibble_low: "unat (b AND 0x0f) = unat b mod 16" for b :: byte
proof -
  have "b AND 0x0f = take_bit 4 b" by (simp add: take_bit_eq_mask mask_eq_exp_minus_1)
  then show ?thesis by (simp add: take_bit_eq_mod unat_mod)
qed

lemma byte_less: "unat (b :: byte) < 256"
  using unsigned_less [of b] by simp

lemma hex_val_less: "hex_val c = Some v \<Longrightarrow> unat v < 16"
  by (auto simp: hex_val_def Let_def word_le_nat_alt unat_arith_simps split: if_splits)

lemma or_is_add: "unat lo < 16 \<Longrightarrow> push_bit 4 hi OR lo = hi * 16 + lo" for hi lo :: byte
proof -
  assume "unat lo < 16"
  then have "take_bit 4 (unat lo) = unat lo" by (simp add: take_bit_nat_eq_self_iff)
  then have "take_bit 4 lo = lo" by (metis unsigned_take_bit_eq unsigned_word_eqI)
  then have "\<not> bit (push_bit 4 hi) n \<or> \<not> bit lo n" for n
    by (metis bit_push_bit_iff bit_take_bit_iff not_less)
  then have "push_bit 4 hi + lo = push_bit 4 hi OR lo" by (rule disjunctive_add)
  then show ?thesis by (simp add: push_bit_eq_mult mult.commute)
qed


section \<open>Encoders agree\<close>

lemma to_hex_lower_simps [simp]:
  "to_hex_lower [] = []"
  "to_hex_lower (b # bs) = HEX ! (unat b div 16) # HEX ! (unat b mod 16) # to_hex_lower bs"
  by (simp_all add: to_hex_lower_def nibble_high nibble_low)

lemma foldl_append: "foldl (\<lambda>out b. out @ f b) acc bs = acc @ concat (map f bs)"
  by (induction bs arbitrary: acc) simp_all

lemma hex_encode_eq: "hex_encode bs = to_hex_lower bs"
  using foldl_append [of "\<lambda>b. [HEX ! unat (drop_bit 4 b), HEX ! unat (b AND 0x0f)]" "[]" bs]
  by (simp add: hex_encode_def to_hex_lower_def)

lemma fmt_02x_eq: "fmt_02x b = [HEX ! (unat b div 16), HEX ! (unat b mod 16)]"
proof (cases "unat b < 16")
  case True
  then show ?thesis by (simp add: fmt_02x_def radix_str.simps digit_char_HEX HEX_def)
next
  case False
  moreover have "unat b div 16 < 16" using byte_less [of b] by simp
  ultimately show ?thesis
    by (simp add: fmt_02x_def radix_str.simps [of 16 "unat b"] radix_str.simps [of 16 "unat b div 16"]
        digit_char_HEX)
qed

lemma relay_to_hex_lower_eq: "relay_to_hex_lower bs = to_hex_lower bs"
proof -
  have "concat (map fmt_02x bs) = to_hex_lower bs" by (induction bs) (simp_all add: fmt_02x_eq)
  then show ?thesis using foldl_append [of fmt_02x "[]" bs] by (simp add: relay_to_hex_lower_def)
qed

lemma length_to_hex_lower [simp]: "length (to_hex_lower bs) = 2 * length bs"
  by (induction bs) simp_all

section \<open>Decoders agree and invert\<close>

lemma hex_loop_encode: "hex_loop (to_hex_lower bs) = Some bs"
proof (induction bs)
  case (Cons b bs)
  have hi: "unat b div 16 < 16" using byte_less [of b] by simp
  let ?lo = "word_of_nat (unat b mod 16) :: byte"
  have "unat ?lo < 16" by (simp add: unsigned_of_nat take_bit_eq_mod)
  then have "push_bit 4 (word_of_nat (unat b div 16)) OR ?lo = word_of_nat (unat b div 16) * 16 + ?lo"
    by (rule or_is_add)
  also have "\<dots> = word_of_nat (unat b div 16 * 16 + unat b mod 16)"
    by (simp only: of_nat_add of_nat_mult of_nat_numeral)
  also have "\<dots> = b" by (simp only: div_mult_mod_eq) simp
  finally show ?case using Cons hi by (simp add: hex_val_HEX)
qed simp

lemma hex_decode_encode: "hex_decode (to_hex_lower bs) = Some bs"
  by (simp add: hex_decode_def hex_loop_encode)

lemma as_chunks2_tail: "snd (as_chunks2 b) \<noteq> [] \<longleftrightarrow> length b mod 2 \<noteq> 0"
  by (induction b rule: as_chunks2.induct) (auto simp: case_prod_beta Let_def)

lemma relay_hex_pairs_eq: "length b mod 2 = 0 \<Longrightarrow> relay_hex_pairs (fst (as_chunks2 b)) = hex_loop b"
proof (induction b rule: as_chunks2.induct)
  case (1 x y b)
  have "length b mod 2 = 0" using 1(2) by simp
  with 1(1) show ?case
    by (auto simp: case_prod_beta Let_def or_is_add hex_val_less split: option.splits)
qed auto

lemma relay_hex_decode_eq: "relay_hex_decode s = hex_decode s"
  using as_chunks2_tail [of s] relay_hex_pairs_eq [of s]
  by (auto simp: relay_hex_decode_def hex_decode_def case_prod_beta Let_def)

lemma hex_loop_length: "hex_loop s = Some b \<Longrightarrow> length b = length s div 2"
  by (induction s arbitrary: b rule: hex_loop.induct) (auto split: option.splits)


lemma unat_of_char: "unat (of_char c :: byte) = of_char c"
proof -
  have "of_char c < (256 :: nat)" by simp
  moreover have "(of_char c :: byte) = word_of_nat (of_char c)" by (simp add: of_nat_of_char)
  ultimately show ?thesis by (simp add: unsigned_of_nat take_bit_nat_eq_self)
qed

lemma hex_val_digit: "hex_val c \<noteq> None \<longleftrightarrow> is_ascii_hexdigit c"
  by (simp add: hex_val_def is_ascii_hexdigit_def Let_def word_le_nat_alt unat_of_char)

lemma hex_loop_digits: "length s mod 2 = 0 \<Longrightarrow> hex_loop s \<noteq> None \<longleftrightarrow> list_all is_ascii_hexdigit s"
proof (induction s rule: hex_loop.induct)
  case (1 x y b)
  then have "hex_loop b \<noteq> None \<longleftrightarrow> list_all is_ascii_hexdigit b" if "hex_val x \<noteq> None" "hex_val y \<noteq> None"
    using that by fastforce
  then show ?case
    using hex_val_digit [of x] hex_val_digit [of y] by (auto split: option.splits)
qed auto

lemma hex_decode_iff:
  "hex_decode s \<noteq> None \<longleftrightarrow> length s mod 2 = 0 \<and> list_all is_ascii_hexdigit s"
  using hex_loop_digits [of s] by (auto simp: hex_decode_def)

lemma hex_decode_length: "hex_decode s = Some b \<Longrightarrow> length b = length s div 2"
  by (auto simp: hex_decode_def hex_loop_length split: if_splits)


lemma to_hex_lower_digits: "c \<in> set (to_hex_lower bs) \<Longrightarrow> is_ascii_hexdigit c"
proof -
  have "list_all is_ascii_hexdigit (to_hex_lower bs)"
    using hex_decode_iff [of "to_hex_lower bs"] by (simp add: hex_decode_encode)
  then show "c \<in> set (to_hex_lower bs) \<Longrightarrow> is_ascii_hexdigit c" by (simp add: list_all_iff)
qed

section \<open>Properties\<close>

text \<open>
  Hex encoding and decoding agree across the crates and invert each other: the three
  encoders give the same text, the two decoders the same result, decoding what was encoded gives
  the bytes back.
\<close>

theorem hex_roundtrip:
  "hex_decode (to_hex_lower bs) = Some bs \<and> relay_to_hex_lower bs = to_hex_lower bs
     \<and> hex_encode bs = to_hex_lower bs \<and> relay_hex_decode s = hex_decode s"
  by (simp add: hex_decode_encode relay_to_hex_lower_eq hex_encode_eq relay_hex_decode_eq)

text \<open>
  What decodes: exactly the texts of even length made of hex digits, and the result has half
  the length.
\<close>

theorem hex_decode_total:
  "(hex_decode s \<noteq> None \<longleftrightarrow> length s mod 2 = 0 \<and> list_all is_ascii_hexdigit s)
     \<and> map_option length (hex_decode s) = (if hex_decode s = None then None else Some (length s div 2))"
  using hex_decode_iff [of s] hex_decode_length [of s] by (cases "hex_decode s") auto

end
