(* ===== verification/Env.thy ===== *)
theory Env
  imports Net
begin

text \<open>
  Integers read from text (\<^verbatim>\<open>str::parse\<close> of the standard library) and
  \<^verbatim>\<open>qvole-protocol/src/env.rs\<close>, the rules by which environment variables override defaults.
  The process environment is the argument \<open>getenv\<close>, which gives the value of a variable that is
  set to valid Unicode. An \<^verbatim>\<open>i64\<close> is an \<^typ>\<open>int\<close> here: the only values that arise are those
  \<open>parse_i64\<close> accepts, which it checks to fit 64 bits.
\<close>

section \<open>Decimal integers\<close>

definition digit_val :: "char \<Rightarrow> nat option" where
  "digit_val c = (if is_ascii_digit c then Some (of_char c - 48) else None)"

fun digits_acc :: "nat \<Rightarrow> string \<Rightarrow> nat option" where
  "digits_acc acc [] = Some acc"
| "digits_acc acc (c # cs) =
     (case digit_val c of None \<Rightarrow> None | Some d \<Rightarrow> digits_acc (acc * 10 + d) cs)"

text \<open>\<^verbatim>\<open>i64::from_str\<close>: an optional sign, at least one digit, a value in range.\<close>

definition parse_i64 :: "string \<Rightarrow> int option" where
  "parse_i64 s =
     (let (neg, ds) = (case s of c # cs \<Rightarrow> if c = CHR ''+'' then (False, cs)
                                          else if c = CHR ''-'' then (True, cs) else (False, s)
                       | [] \<Rightarrow> (False, s))
      in if ds = [] then None
         else (case digits_acc 0 ds of None \<Rightarrow> None
               | Some n \<Rightarrow> let v = (if neg then - int n else int n)
                          in if - (2 ^ 63) \<le> v \<and> v < 2 ^ 63 then Some v else None))"

text \<open>\<^verbatim>\<open>uN::from_str\<close>: an optional plus sign, at least one digit, a value below \<open>2 ^ N\<close>.\<close>

definition parse_unsigned :: "nat \<Rightarrow> string \<Rightarrow> nat option" where
  "parse_unsigned N s =
     (let ds = (case s of c # cs \<Rightarrow> if c = CHR ''+'' then cs else s | [] \<Rightarrow> s)
      in if ds = [] then None
         else (case digits_acc 0 ds of None \<Rightarrow> None
               | Some n \<Rightarrow> if n < 2 ^ N then Some n else None))"

section \<open>Overrides\<close>

definition env_int_from :: "string option \<Rightarrow> int \<Rightarrow> int" where
  "env_int_from v d =
     (case v of
        Some s \<Rightarrow> if s \<noteq> []
                  then (case parse_i64 s of Some n \<Rightarrow> if n > 0 then n else d | None \<Rightarrow> d)
                  else d
      | None \<Rightarrow> d)"

definition env_int :: "(string \<Rightarrow> string option) \<Rightarrow> string \<Rightarrow> int \<Rightarrow> int" where
  "env_int getenv name d = env_int_from (getenv name) d"

definition MAX_MS :: nat where
  "MAX_MS = (2 ^ 63 - 1) div 1000"

definition env_duration_ms_from :: "string option \<Rightarrow> nat \<Rightarrow> nat" where
  "env_duration_ms_from v def_ms =
     (case v of
        Some s \<Rightarrow> if s \<noteq> []
                  then (case parse_i64 s of Some ms \<Rightarrow> if ms > 0 then min (nat ms) MAX_MS else def_ms
                        | None \<Rightarrow> def_ms)
                  else def_ms
      | None \<Rightarrow> def_ms)"

definition env_duration_ms :: "(string \<Rightarrow> string option) \<Rightarrow> string \<Rightarrow> nat \<Rightarrow> nat" where
  "env_duration_ms getenv name def_ms = env_duration_ms_from (getenv name) def_ms"

section \<open>Printing and reading decimals\<close>

lemma digits_acc_append:
  "digits_acc acc (xs @ ys) = (case digits_acc acc xs of None \<Rightarrow> None | Some n \<Rightarrow> digits_acc n ys)"
  by (induction xs arbitrary: acc) (auto split: option.splits)

lemma digit_char_facts:
  "d < 10 \<Longrightarrow> digit_val (digit_char d) = Some d \<and> digit_char d \<noteq> CHR ''+'' \<and> digit_char d \<noteq> CHR ''-''"
proof -
  have "list_all (\<lambda>d. digit_val (digit_char d) = Some d \<and> digit_char d \<noteq> CHR ''+'' \<and> digit_char d \<noteq> CHR ''-'') [0..<10]"
    by (simp add: upt_rec digit_val_def digit_char_def is_ascii_digit_def)
  then show "d < 10 \<Longrightarrow> ?thesis" by (simp add: list_all_iff)
qed

lemmas digit_val_char = digit_char_facts [THEN conjunct1]
lemmas digit_char_not_sign = digit_char_facts [THEN conjunct2]

lemma digits_acc_dec_str: "digits_acc 0 (dec_str n) = Some n"
proof (induction n rule: less_induct)
  case (less n)
  show ?case
  proof (cases "n < 10")
    case True
    then show ?thesis by (simp add: radix_str.simps digit_val_char)
  next
    case False
    then have "digits_acc 0 (dec_str (n div 10)) = Some (n div 10)" by (intro less.IH) simp
    with False show ?thesis
      by (simp add: radix_str.simps [of 10 n] digits_acc_append digit_val_char)
  qed
qed

lemma dec_str_nonempty [simp]: "dec_str n \<noteq> []"
  by (simp add: radix_str.simps)

lemma dec_str_digits: "c \<in> set (dec_str n) \<Longrightarrow> \<exists>d < 10. c = digit_char d"
proof (induction n rule: less_induct)
  case (less n)
  show ?case
  proof (cases "n < 10")
    case True
    with less.prems show ?thesis by (auto simp: radix_str.simps [of 10 n])
  next
    case False
    with less.prems less.IH [of "n div 10"] show ?thesis
      by (auto simp: radix_str.simps [of 10 n] intro: exI [of _ "n mod 10"])
  qed
qed

lemma dec_str_hd: "dec_str n = c # cs \<Longrightarrow> c \<noteq> CHR ''+'' \<and> c \<noteq> CHR ''-''"
  using dec_str_digits [of c n] digit_char_not_sign by fastforce

lemma parse_i64_dec_str: "n < 2 ^ 63 \<Longrightarrow> parse_i64 (dec_str n) = Some (int n)"
proof -
  assume n: "n < 2 ^ 63"
  obtain c cs where s: "dec_str n = c # cs" by (cases "dec_str n") auto
  have "int n < 2 ^ 63" using n by simp
  with n dec_str_hd [OF s] digits_acc_dec_str [of n] show ?thesis
    by (simp add: parse_i64_def s)
qed

lemma parse_unsigned_dec_str: "n < 2 ^ N \<Longrightarrow> parse_unsigned N (dec_str n) = Some n"
proof -
  assume n: "n < 2 ^ N"
  obtain c cs where s: "dec_str n = c # cs" by (cases "dec_str n") auto
  with n dec_str_hd [OF s] digits_acc_dec_str [of n] show ?thesis
    by (simp add: parse_unsigned_def s)
qed

lemma parse_i64_range: "parse_i64 s = Some v \<Longrightarrow> - (2 ^ 63) \<le> v \<and> v < 2 ^ 63"
  by (auto simp: parse_i64_def Let_def split: list.splits option.splits if_splits)

lemma env_int_from_pos:
  "0 < d \<Longrightarrow> d < 2 ^ 63 \<Longrightarrow> 0 < env_int_from v d \<and> env_int_from v d < 2 ^ 63"
  by (auto simp: env_int_from_def dest: parse_i64_range split: option.splits)

lemma env_duration_ms_from_pos:
  "0 < d \<Longrightarrow> d \<le> MAX_MS \<Longrightarrow> 0 < env_duration_ms_from v d \<and> env_duration_ms_from v d \<le> MAX_MS"
  by (auto simp: env_duration_ms_from_def MAX_MS_def split: option.splits)


section \<open>Properties\<close>

text \<open>
  An override is positive or ignored: with a positive default, the integer read is positive
  and fits 63 bits whatever the variable holds, a duration is positive and below the maximum, and
  a positive decimal that fits is taken as it is.
\<close>

theorem env_override:
  assumes "0 < d" "d < 2 ^ 63" "0 < ms" "ms \<le> MAX_MS" "0 < n" "n < 2 ^ 63"
  shows "0 < env_int_from v d \<and> env_int_from v d < 2 ^ 63
    \<and> 0 < env_duration_ms_from v ms \<and> env_duration_ms_from v ms \<le> MAX_MS
    \<and> env_int_from (Some (dec_str n)) d = int n"
  using assms env_int_from_pos [of d v] env_duration_ms_from_pos [of ms v]
  by (simp add: env_int_from_def parse_i64_dec_str)

theorem env_override_witness: "env_int_from (Some (dec_str 42)) 10 = 42 \<and> 0 < env_int_from (Some ''-3'') 10"
  using env_override [of 10 500 42 "Some ''-3''"] by (simp add: MAX_MS_def)

end
