(* ===== verification/Net_Parse.thy ===== *)
theory Net_Parse
  imports Env "HOL-Library.Monad_Syntax"
begin

text \<open>
  Reading addresses and text the way the standard library does: \<^verbatim>\<open>core::net::parser\<close> (a
  recursive-descent parser whose readers restore the position on failure), \<^verbatim>\<open>str::from_utf8\<close>, and
  \<^verbatim>\<open>char::from\<close> of a byte. A reader takes the input and gives a value and the rest.
\<close>

section \<open>Readers\<close>

type_synonym 'a reader = "string \<Rightarrow> ('a \<times> string) option"

definition to_digit :: "nat \<Rightarrow> char \<Rightarrow> nat option" where
  "to_digit radix c =
     (let n = (of_char c :: nat);
          d = (if 48 \<le> n \<and> n \<le> 57 then Some (n - 48)
               else if 97 \<le> n \<and> n \<le> 122 then Some (n - 87)
               else if 65 \<le> n \<and> n \<le> 90 then Some (n - 55) else None)
      in case d of Some v \<Rightarrow> if v < radix then Some v else None | None \<Rightarrow> None)"

definition read_number :: "nat \<Rightarrow> nat option \<Rightarrow> bool \<Rightarrow> nat \<Rightarrow> nat reader" where
  "read_number radix max_digits allow_zero_prefix bits s =
     (let ds = takeWhile (\<lambda>c. to_digit radix c \<noteq> None) s;
          v = foldl (\<lambda>r c. r * radix + the (to_digit radix c)) 0 ds
      in if (case max_digits of Some m \<Rightarrow> length ds > m | None \<Rightarrow> False) then None
         else if ds = [] then None
         else if \<not> allow_zero_prefix \<and> hd ds = CHR ''0'' \<and> length ds > 1 then None
         else if v < 2 ^ bits then Some (v, drop (length ds) s) else None)"

definition read_given_char :: "char \<Rightarrow> unit reader" where
  "read_given_char c s = (case s of x # xs \<Rightarrow> if x = c then Some ((), xs) else None | [] \<Rightarrow> None)"

definition read_separator :: "char \<Rightarrow> nat \<Rightarrow> 'a reader \<Rightarrow> 'a reader" where
  "read_separator sep index inner s =
     (if index > 0 then do { (_, s) \<leftarrow> read_given_char sep s; inner s } else inner s)"

definition read_octet :: "nat reader" where
  "read_octet = read_number 10 (Some 3) False 8"

definition read_ipv4_addr :: "(32 word) reader" where
  "read_ipv4_addr s = do {
     (a, s) \<leftarrow> read_separator (CHR ''.'') 0 read_octet s;
     (b, s) \<leftarrow> read_separator (CHR ''.'') 1 read_octet s;
     (c, s) \<leftarrow> read_separator (CHR ''.'') 2 read_octet s;
     (d, s) \<leftarrow> read_separator (CHR ''.'') 3 read_octet s;
     Some (word_of_nat (((a * 256 + b) * 256 + c) * 256 + d), s)
   }"

text \<open>
  Up to \<open>fuel\<close> groups from index \<open>i\<close> on; the embedded IPv4 form needs two free groups. The result
  is the groups and whether the last two came from an IPv4 address.
\<close>

fun read_groups :: "nat \<Rightarrow> nat \<Rightarrow> string \<Rightarrow> nat list \<times> bool \<times> string" where
  "read_groups 0 i s = ([], False, s)"
| "read_groups (Suc fuel) i s =
     (case (if fuel > 0 then read_separator (CHR '':'') i read_ipv4_addr s else None) of
        Some (v4, s') \<Rightarrow> ([unat (drop_bit 16 v4), unat (take_bit 16 v4)], True, s')
      | None \<Rightarrow>
          (case read_separator (CHR '':'') i (read_number 16 (Some 4) True 16) s of
             Some (g, s') \<Rightarrow> (let (gs, v4, s'') = read_groups fuel (i + 1) s' in (g # gs, v4, s''))
           | None \<Rightarrow> ([], False, s)))"

definition groups_word :: "nat list \<Rightarrow> 128 word" where
  "groups_word gs = word_of_nat (foldl (\<lambda>r g. r * 65536 + g) 0 gs)"

definition read_ipv6_addr :: "(128 word) reader" where
  "read_ipv6_addr s =
     (let (head, head_ipv4, s) = read_groups 8 0 s
      in if length head = 8 then Some (groups_word head, s)
         else if head_ipv4 then None
         else do {
           (_, s) \<leftarrow> read_given_char (CHR '':'') s;
           (_, s) \<leftarrow> read_given_char (CHR '':'') s;
           let (tail, _, s) = read_groups (8 - (length head + 1)) 0 s;
           Some (groups_word (head @ replicate (8 - length head - length tail) 0 @ tail), s)
         })"

definition read_port :: "nat reader" where
  "read_port s = do { (_, s) \<leftarrow> read_given_char (CHR '':'') s; read_number 10 None True 16 s }"

definition read_scope_id :: "nat reader" where
  "read_scope_id s = do { (_, s) \<leftarrow> read_given_char (CHR ''%'') s; read_number 10 None True 32 s }"

definition read_socket_addr_v4 :: "socket_addr reader" where
  "read_socket_addr_v4 s = do {
     (ip, s) \<leftarrow> read_ipv4_addr s;
     (p, s) \<leftarrow> read_port s;
     Some (SockV4 ip (word_of_nat p), s)
   }"

definition read_socket_addr_v6 :: "socket_addr reader" where
  "read_socket_addr_v6 s = do {
     (_, s) \<leftarrow> read_given_char (CHR ''['') s;
     (ip, s) \<leftarrow> read_ipv6_addr s;
     let (scope, s) = (case read_scope_id s of Some r \<Rightarrow> r | None \<Rightarrow> (0, s));
     (_, s) \<leftarrow> read_given_char (CHR '']'') s;
     (p, s) \<leftarrow> read_port s;
     Some (SockV6 ip (word_of_nat p) (word_of_nat scope), s)
   }"

definition read_all :: "'a reader \<Rightarrow> string \<Rightarrow> 'a option" where
  "read_all r s = (case r s of Some (x, []) \<Rightarrow> Some x | _ \<Rightarrow> None)"

definition parse_socket_addr :: "string \<Rightarrow> socket_addr option" where
  "parse_socket_addr s =
     read_all (\<lambda>s. case read_socket_addr_v4 s of None \<Rightarrow> read_socket_addr_v6 s | r \<Rightarrow> r) s"

definition parse_ipv4_addr :: "string \<Rightarrow> (32 word) option" where
  "parse_ipv4_addr s = (if length s > 15 then None else read_all read_ipv4_addr s)"

definition parse_ip_addr :: "string \<Rightarrow> ip_addr option" where
  "parse_ip_addr s =
     read_all (\<lambda>s. case read_ipv4_addr s of
                     Some (ip, r) \<Rightarrow> Some (V4 ip, r)
                   | None \<Rightarrow> map_option (\<lambda>(ip, r). (V6 ip, r)) (read_ipv6_addr s)) s"

section \<open>UTF-8\<close>

fun utf8_valid :: "string \<Rightarrow> bool" where
  "utf8_valid [] = True"
| "utf8_valid (c # s) =
     (let n = (of_char c :: nat); tail = (\<lambda>c. 128 \<le> (of_char c :: nat) \<and> (of_char c :: nat) \<le> 191)
      in if n < 128 then utf8_valid s
         else if 194 \<le> n \<and> n \<le> 223 then
           (case s of c1 # s' \<Rightarrow> tail c1 \<and> utf8_valid s' | _ \<Rightarrow> False)
         else if 224 \<le> n \<and> n \<le> 239 then
           (case s of c1 # c2 # s' \<Rightarrow>
              (let m = (of_char c1 :: nat)
               in (if n = 224 then 160 \<le> m \<and> m \<le> 191 else if n = 237 then 128 \<le> m \<and> m \<le> 159 else tail c1))
              \<and> tail c2 \<and> utf8_valid s' | _ \<Rightarrow> False)
         else if 240 \<le> n \<and> n \<le> 244 then
           (case s of c1 # c2 # c3 # s' \<Rightarrow>
              (let m = (of_char c1 :: nat)
               in (if n = 240 then 144 \<le> m \<and> m \<le> 191 else if n = 244 then 128 \<le> m \<and> m \<le> 143 else tail c1))
              \<and> tail c2 \<and> tail c3 \<and> utf8_valid s' | _ \<Rightarrow> False)
         else False)"

text \<open>\<^verbatim>\<open>char::from\<close> of a byte, as it is stored in a \<^verbatim>\<open>String\<close>: two bytes from 128 on.\<close>

definition char_from_byte :: "byte \<Rightarrow> string" where
  "char_from_byte b =
     (if b < 128 then [char_of (unat b)]
      else [char_of (192 + unat b div 64 :: nat), char_of (128 + unat b mod 64 :: nat)])"

lemma utf8_valid_ascii: "\<forall>c \<in> set s. (of_char c :: nat) < 128 \<Longrightarrow> utf8_valid s"
  by (induction s) (auto simp: Let_def)

section \<open>Printed addresses are read back\<close>

lemma to_digit_10: "to_digit 10 c = digit_val c"
proof -
  have "(of_char c :: nat) < 256" by simp
  then show ?thesis by (auto simp: to_digit_def digit_val_def is_ascii_digit_def Let_def)
qed

lemma foldl_digits:
  "digits_acc a ds = Some n \<Longrightarrow>
     foldl (\<lambda>r c. r * 10 + the (digit_val c)) a ds = n \<and> (\<forall>c \<in> set ds. digit_val c \<noteq> None)"
  by (induction ds arbitrary: a) (auto split: option.splits)

lemma dec_str_Suc: "n \<ge> 10 \<Longrightarrow> dec_str n = dec_str (n div 10) @ [digit_char (n mod 10)]"
  by (simp add: radix_str.simps [of 10 n])

lemma hd_dec_str: "n > 0 \<Longrightarrow> hd (dec_str n) \<noteq> CHR ''0''"
proof (induction n rule: less_induct)
  case (less n)
  show ?case
  proof (cases "n < 10")
    case True
    have "list_all (\<lambda>d. digit_char d \<noteq> CHR ''0'') [1..<10]"
      by (simp add: upt_rec digit_char_def)
    moreover have "n \<in> set [1..<10]" using True less.prems by simp
    ultimately have "digit_char n \<noteq> CHR ''0''" unfolding list_all_iff by (rule bspec)
    with True show ?thesis by (simp add: radix_str.simps [of 10 n])
  next
    case False
    with less.IH [of "n div 10"] show ?thesis by (simp add: dec_str_Suc)
  qed
qed

lemma length_dec_str: "n < 10 ^ Suc k \<Longrightarrow> length (dec_str n) \<le> Suc k"
proof (induction k arbitrary: n)
  case 0
  then show ?case by (simp add: radix_str.simps [of 10 n])
next
  case (Suc k)
  show ?case
  proof (cases "n < 10")
    case True
    then show ?thesis by (simp add: radix_str.simps [of 10 n])
  next
    case False
    from Suc.prems have "n div 10 < 10 ^ Suc k" by (simp add: less_mult_imp_div_less)
    with Suc.IH [of "n div 10"] False show ?thesis by (simp add: dec_str_Suc)
  qed
qed

lemma read_number_dec:
  assumes "n < 2 ^ bits" and "case m of Some k \<Rightarrow> n < 10 ^ k \<and> 0 < k | None \<Rightarrow> True"
    and "rest = [] \<or> digit_val (hd rest) = None"
  shows "read_number 10 m z bits (dec_str n @ rest) = Some (n, rest)"
proof -
  note d = foldl_digits [OF digits_acc_dec_str [of n]]
  have tw: "takeWhile (\<lambda>c. digit_val c \<noteq> None) (dec_str n @ rest) = dec_str n"
    using d assms(3) by (cases rest) (auto simp: takeWhile_append)
  have len: "\<not> (case m of Some k \<Rightarrow> length (dec_str n) > k | None \<Rightarrow> False)"
  proof (cases m)
    case (Some k)
    with assms(2) have "n < 10 ^ Suc (k - 1)" by simp
    with assms(2) Some show ?thesis using length_dec_str [of n "k - 1"] by simp
  qed simp
  have "\<not> (hd (dec_str n) = CHR ''0'' \<and> length (dec_str n) > 1)"
  proof (cases "n = 0")
    case True
    then show ?thesis by (simp add: radix_str.simps)
  qed (simp add: hd_dec_str)
  then show ?thesis
    unfolding read_number_def to_digit_10 tw using d len assms(1) by (auto simp: Let_def)
qed

lemma read_octet_dec:
  "n < 256 \<Longrightarrow> rest = [] \<or> digit_val (hd rest) = None \<Longrightarrow> read_octet (dec_str n @ rest) = Some (n, rest)"
  by (simp add: read_octet_def read_number_dec)

lemma octets_unat:
  assumes "v4_octets x = [a, b, c, d]"
  shows "a < 256 \<and> b < 256 \<and> c < 256 \<and> d < 256 \<and> ((a * 256 + b) * 256 + c) * 256 + d = unat x"
proof -
  have byte: "unat (take_bit 8 (drop_bit i x)) = unat x div 2 ^ i mod 256" for i
  proof -
    have "unat (take_bit 8 (drop_bit i x)) = take_bit 8 (drop_bit i (unat x))"
      by (simp only: unsigned_take_bit_eq unat_drop_bit_eq)
    then show ?thesis by (simp add: take_bit_eq_mod drop_bit_eq_div)
  qed
  from assms have v: "a = unat x div 2 ^ 24 mod 256" "b = unat x div 2 ^ 16 mod 256"
    "c = unat x div 2 ^ 8 mod 256" "d = unat x mod 256"
    by (simp_all add: v4_octets_def byte)
  have "unat x < 2 ^ 32" using unsigned_less [of x, where 'a = nat] by simp
  then have "unat x div 2 ^ 24 < 256" by (simp add: less_mult_imp_div_less)
  moreover have "unat x div 2 ^ 16 = unat x div 2 ^ 8 div 256" "unat x div 2 ^ 24 = unat x div 2 ^ 16 div 256"
    by (simp_all add: div_mult2_eq [symmetric])
  ultimately show ?thesis
    using div_mult_mod_eq [of "unat x" 256] div_mult_mod_eq [of "unat x div 2 ^ 8" 256]
      div_mult_mod_eq [of "unat x div 2 ^ 16" 256] v by simp
qed

lemma dot_not_digit: "digit_val (CHR ''.'') = None" "digit_val (CHR '':'') = None"
  by (simp_all add: digit_val_def is_ascii_digit_def)

lemma read_ipv4_str:
  "rest = [] \<or> digit_val (hd rest) = None \<Longrightarrow> read_ipv4_addr (v4_str x @ rest) = Some (x, rest)"
proof -
  assume rest: "rest = [] \<or> digit_val (hd rest) = None"
  obtain a b c d where o: "v4_octets x = [a, b, c, d]" by (simp add: v4_octets_def)
  have "word_of_nat (((a * 256 + b) * 256 + c) * 256 + d) = x" using octets_unat [OF o] by simp
  with octets_unat [OF o] rest show ?thesis
    by (simp add: read_ipv4_addr_def v4_str_def o read_separator_def read_given_char_def read_octet_dec
        dot_not_digit del: of_nat_add of_nat_mult)
qed

lemma parse_sock_str_v4: "parse_socket_addr (sock_str (SockV4 ip p)) = Some (SockV4 ip p)"
proof -
  have "unat p < 2 ^ 16" using unsigned_less [of p, where 'a = nat] by simp
  then have "read_number 10 None True 16 (dec_str (unat p) @ []) = Some (unat p, [])"
    by (intro read_number_dec) simp_all
  then have "read_socket_addr_v4 (sock_str (SockV4 ip p)) = Some (SockV4 ip p, [])"
    by (simp add: read_socket_addr_v4_def read_ipv4_str dot_not_digit read_port_def read_given_char_def)
  then show ?thesis by (simp add: parse_socket_addr_def read_all_def)
qed

end
