(* ===== verification/Spake2.thy ===== *)
theory Spake2
  imports Env "HOL-Library.List_Lexorder" "HOL-Library.Monad_Syntax"
begin

text \<open>
  \<^verbatim>\<open>crates/qvole-spake2/src/spake2.rs\<close>: the SPAKE2 state, the shared secret, the session keys,
  key confirmation and the encryption of metadata.

  The curve and the primitives come from other crates (\<^verbatim>\<open>p256\<close>, \<^verbatim>\<open>sha2\<close>, \<^verbatim>\<open>hkdf\<close>, \<^verbatim>\<open>hmac\<close>,
  \<^verbatim>\<open>pbkdf2\<close>, \<^verbatim>\<open>aes-gcm\<close>). They are the fields of the record \<open>crypto\<close>, over an arbitrary type of
  points; what the protocol relies on is collected in the predicates \<open>group_ok\<close> and \<open>gcm_ok\<close>. A
  field element and a scalar are numbers below the prime \<open>MOD_P\<close> and the order \<open>ORDER_N\<close>.
  Random bytes are arguments. \<open>None\<close> is a routine that does not return: it panics, or its
  search never ends. The lexicographic order of the library on lists is Rust's order on slices.
\<close>

section \<open>Primitives from other crates\<close>

record 'p crypto =
  pt_add :: "'p \<Rightarrow> 'p \<Rightarrow> 'p"
  pt_zero :: 'p
  pt_mul :: "nat \<Rightarrow> 'p \<Rightarrow> 'p"
  encoded_ok :: "byte list \<Rightarrow> bool"
  from_encoded :: "byte list \<Rightarrow> 'p option"
  to_encoded :: "'p \<Rightarrow> byte list"
  coeff_b :: nat
  fe_sqrt :: "nat \<Rightarrow> nat option"
  sha256 :: "byte list \<Rightarrow> byte list"
  pbkdf2 :: "byte list \<Rightarrow> byte list \<Rightarrow> u32 \<Rightarrow> byte list"
  hkdf_expand :: "byte list \<Rightarrow> byte list \<Rightarrow> byte list \<Rightarrow> byte list option"
  hmac256 :: "byte list \<Rightarrow> byte list \<Rightarrow> byte list option"
  gcm_encrypt :: "byte list \<Rightarrow> byte list \<Rightarrow> byte list \<Rightarrow> byte list \<Rightarrow> byte list option"
  gcm_decrypt :: "byte list \<Rightarrow> byte list \<Rightarrow> byte list \<Rightarrow> byte list \<Rightarrow> byte list option"
  gcm_key_ok :: "byte list \<Rightarrow> bool"

datatype spake_error =
    InvalidPeerPoint | PeerPointOffCurve | UnblindedIdentity | SharedXZero | EmptyNonce
  | BadFingerprint | ReflectedFingerprint | CiphertextTooShort | Gcm | GcmAuth | Hkdf | Hmac

section \<open>Numbers and bytes\<close>

definition MOD_P :: nat where
  "MOD_P = 0xffffffff00000001000000000000000000000000ffffffffffffffffffffffff"

definition ORDER_N :: nat where
  "ORDER_N = 0xffffffff00000000ffffffffffffffffbce6faada7179e84f3b9cac2fc632551"

definition bytes_of :: "string \<Rightarrow> byte list" where
  "bytes_of s = map of_char s"

definition be_nat :: "byte list \<Rightarrow> nat" where
  "be_nat bs = foldl (\<lambda>n b. n * 256 + unat b) 0 bs"

fun nat_be :: "nat \<Rightarrow> nat \<Rightarrow> byte list" where
  "nat_be 0 n = []"
| "nat_be (Suc k) n = nat_be k (n div 256) @ [word_of_nat (n mod 256)]"

definition to_fe :: "byte list \<Rightarrow> nat option" where
  "to_fe b = (if length b = 32 \<and> be_nat b < MOD_P then Some (be_nat b) else None)"

definition fe_to_bytes :: "nat \<Rightarrow> byte list" where
  "fe_to_bytes f = nat_be 32 f"

definition M_SEED :: "byte list" where "M_SEED = bytes_of ''qvole-spake2-M-v1''"
definition N_SEED :: "byte list" where "N_SEED = bytes_of ''qvole-spake2-N-v1''"
definition DEFAULT_KDF_ITERATIONS :: nat where "DEFAULT_KDF_ITERATIONS = 600000"
definition MIN_KDF_ITERATIONS :: nat where "MIN_KDF_ITERATIONS = 100000"
definition SESSION_INFO :: "byte list" where "SESSION_INFO = bytes_of ''qvole-spake2-session''"
definition PW_PREFIX :: "byte list" where "PW_PREFIX = bytes_of ''qvole-spake2-pw:''"
definition CONFIRM_INFO :: "byte list" where "CONFIRM_INFO = bytes_of ''qvole-spake2-confirm''"
definition FINGERPRINT_INFO :: "byte list" where
  "FINGERPRINT_INFO = bytes_of ''qvole-spake2-fingerprints''"
definition CONFIRM_SENDER_INFO :: "byte list" where
  "CONFIRM_SENDER_INFO = bytes_of ''qvole-spake2-confirm-sender''"
definition CONFIRM_RECEIVER_INFO :: "byte list" where
  "CONFIRM_RECEIVER_INFO = bytes_of ''qvole-spake2-confirm-receiver''"

definition kdf_iterations :: "(string \<Rightarrow> string option) \<Rightarrow> u32" where
  "kdf_iterations getenv =
     (case getenv ''QVOLE_KDF_ITERATIONS'' of
        None \<Rightarrow> word_of_nat DEFAULT_KDF_ITERATIONS
      | Some v \<Rightarrow>
          (case parse_i64 v of
             None \<Rightarrow> word_of_nat DEFAULT_KDF_ITERATIONS
           | Some n \<Rightarrow> if n \<ge> int MIN_KDF_ITERATIONS then word_of_int n
                      else word_of_nat DEFAULT_KDF_ITERATIONS))"

text \<open>One subtraction reduces a 256-bit number; the subtraction wraps at 256 bits.\<close>

definition reduce_mod_p :: "byte list \<Rightarrow> nat option" where
  "reduce_mod_p b =
     (if length b \<noteq> 32 then None
      else let v = (word_of_nat (be_nat b) :: 256 word);
               r = (if v \<ge> word_of_nat MOD_P then v - word_of_nat MOD_P else v)
           in to_fe (nat_be 32 (unat r)))"

definition to_scalar :: "byte list \<Rightarrow> nat option" where
  "to_scalar b = (if length b = 32 \<and> be_nat b < ORDER_N then Some (be_nat b) else None)"

definition reduce_mod_n :: "byte list \<Rightarrow> nat option" where
  "reduce_mod_n b =
     (if length b \<noteq> 32 then None
      else let v = (word_of_nat (be_nat b) :: 256 word);
               r = (if v \<ge> word_of_nat ORDER_N then v - word_of_nat ORDER_N else v)
           in to_scalar (nat_be 32 (unat r)))"

section \<open>Points\<close>

definition marshal_point :: "nat \<times> nat \<Rightarrow> byte list" where
  "marshal_point = (\<lambda>(x, y). 0x04 # fe_to_bytes x @ fe_to_bytes y)"

definition point_from_xy :: "'p crypto \<Rightarrow> nat \<Rightarrow> nat \<Rightarrow> 'p option" where
  "point_from_xy c x y =
     (let bytes = 0x04 # fe_to_bytes x @ fe_to_bytes y
      in if encoded_ok c bytes then from_encoded c bytes else None)"

definition affine_xy :: "'p crypto \<Rightarrow> 'p \<Rightarrow> (nat \<times> nat) option" where
  "affine_xy c p =
     (let bytes = to_encoded c p
      in if length bytes < 65 then None
         else case to_fe (take 32 (drop 1 bytes)) of None \<Rightarrow> None
              | Some x \<Rightarrow> (case to_fe (take 32 (drop 33 bytes)) of None \<Rightarrow> None | Some y \<Rightarrow> Some (x, y)))"

definition add_affine :: "'p crypto \<Rightarrow> 'p \<Rightarrow> 'p \<Rightarrow> (nat \<times> nat) option" where
  "add_affine c a b = affine_xy c (pt_add c a b)"

definition generator_scalar :: "'p crypto \<Rightarrow> 'p \<Rightarrow> nat \<Rightarrow> 'p" where
  "generator_scalar c g s = pt_mul c s g"

definition compute_weierstrass_y :: "'p crypto \<Rightarrow> nat \<Rightarrow> nat option" where
  "compute_weierstrass_y c x =
     (let x3 = x * x * x mod MOD_P;
          three_x = 3 * x mod MOD_P;
          rhs = (x3 + (MOD_P - three_x) + coeff_b c) mod MOD_P
      in if rhs = 0 then Some 0 else fe_sqrt c rhs)"

partial_function (option) hash_loop :: "'p crypto \<Rightarrow> byte list \<Rightarrow> u64 \<Rightarrow> 'p option" where
  "hash_loop c h counter =
     (case reduce_mod_p (sha256 c (h @ nat_be 8 (unat counter))) of
        None \<Rightarrow> None
      | Some x \<Rightarrow>
          if x = 0 then hash_loop c h (counter + 1)
          else (case compute_weierstrass_y c x of
                  Some y \<Rightarrow> point_from_xy c x y
                | None \<Rightarrow> hash_loop c h (counter + 1)))"

definition hash_to_curve :: "'p crypto \<Rightarrow> byte list \<Rightarrow> 'p option" where
  "hash_to_curve c seed = hash_loop c (sha256 c seed) 0"

definition m_generator :: "'p crypto \<Rightarrow> 'p option" where
  "m_generator c = hash_to_curve c M_SEED"

definition n_generator :: "'p crypto \<Rightarrow> 'p option" where
  "n_generator c = hash_to_curve c N_SEED"

definition BASE_BYTES :: "byte list" where
  "BASE_BYTES = [
     0x04, 0x6b, 0x17, 0xd1, 0xf2, 0xe1, 0x2c, 0x42, 0x47, 0xf8, 0xbc, 0xe6, 0xe5, 0x63,
     0xa4, 0x40, 0xf2, 0x77, 0x03, 0x7d, 0x81, 0x2d, 0xeb, 0x33, 0xa0, 0xf4, 0xa1, 0x39,
     0x45, 0xd8, 0x98, 0xc2, 0x96, 0x4f, 0xe3, 0x42, 0xe2, 0xfe, 0x1a, 0x7f, 0x9b, 0x8e,
     0xe7, 0xeb, 0x4a, 0x7c, 0x0f, 0x9e, 0x16, 0x2b, 0xce, 0x33, 0x57, 0x6b, 0x31, 0x5e,
     0xce, 0xcb, 0xb6, 0x40, 0x68, 0x37, 0xbf, 0x51, 0xf5]"

definition base_generator :: "'p crypto \<Rightarrow> 'p option" where
  "base_generator c = (if encoded_ok c BASE_BYTES then from_encoded c BASE_BYTES else None)"

section \<open>The state\<close>

partial_function (option) password_loop ::
    "'p crypto \<Rightarrow> u32 \<Rightarrow> byte list \<Rightarrow> u64 \<Rightarrow> nat option" where
  "password_loop c iters pw counter =
     (let input = (if counter = 0 then pw else pw @ nat_be 8 (unat counter))
      in case reduce_mod_n (pbkdf2 c input PW_PREFIX iters) of
           None \<Rightarrow> None
         | Some s \<Rightarrow> if s \<noteq> 0 then Some s else password_loop c iters pw (counter + 1))"

definition password_to_scalar :: "'p crypto \<Rightarrow> u32 \<Rightarrow> string \<Rightarrow> nat option" where
  "password_to_scalar c iters password = password_loop c iters (PW_PREFIX @ bytes_of password) 0"

record spake_state =
  pw_scalar :: nat
  scalar_m :: nat
  scalar_n :: nat
  blinded_m :: "nat \<times> nat"
  blinded_n :: "nat \<times> nat"

definition state_from_scalars :: "'p crypto \<Rightarrow> u32 \<Rightarrow> string \<Rightarrow> nat \<Rightarrow> nat \<Rightarrow> spake_state option" where
  "state_from_scalars c iters password sm sn =
     do {
       pw \<leftarrow> password_to_scalar c iters password;
       g \<leftarrow> base_generator c;
       mg \<leftarrow> m_generator c;
       ng \<leftarrow> n_generator c;
       bm \<leftarrow> add_affine c (generator_scalar c g sm) (generator_scalar c mg pw);
       bn \<leftarrow> add_affine c (generator_scalar c g sn) (generator_scalar c ng pw);
       Some \<lparr>pw_scalar = pw, scalar_m = sm, scalar_n = sn, blinded_m = bm, blinded_n = bn\<rparr>
     }"

definition new_state :: "'p crypto \<Rightarrow> u32 \<Rightarrow> byte list \<Rightarrow> byte list \<Rightarrow> string \<Rightarrow> spake_state option" where
  "new_state c iters priv_m priv_n password =
     do {
       sm \<leftarrow> reduce_mod_n priv_m;
       sn \<leftarrow> reduce_mod_n priv_n;
       state_from_scalars c iters password sm sn
     }"

definition blinded_bytes_m :: "spake_state \<Rightarrow> byte list" where
  "blinded_bytes_m st = marshal_point (blinded_m st)"

definition blinded_bytes_n :: "spake_state \<Rightarrow> byte list" where
  "blinded_bytes_n st = marshal_point (blinded_n st)"

definition destroy :: "spake_state \<Rightarrow> spake_state" where
  "destroy st = st\<lparr>pw_scalar := 0, scalar_m := 0, scalar_n := 0, blinded_m := (0, 0), blinded_n := (0, 0)\<rparr>"

definition parse_peer_point :: "'p crypto \<Rightarrow> byte list \<Rightarrow> spake_error + 'p" where
  "parse_peer_point c bytes =
     (if \<not> encoded_ok c bytes then Inl InvalidPeerPoint
      else case from_encoded c bytes of None \<Rightarrow> Inl PeerPointOffCurve | Some p \<Rightarrow> Inr p)"

definition compute_shared ::
    "'p crypto \<Rightarrow> spake_state \<Rightarrow> byte list \<Rightarrow> bool \<Rightarrow> (spake_error + byte list) option" where
  "compute_shared c st peer_blinded_bytes peer_used_m =
     (case parse_peer_point c peer_blinded_bytes of
        Inl e \<Rightarrow> Some (Inl e)
      | Inr peer \<Rightarrow> do {
          generator \<leftarrow> (if peer_used_m then m_generator c else n_generator c);
          (pwx, pwy) \<leftarrow> affine_xy c (generator_scalar c generator (pw_scalar st));
          neg \<leftarrow> point_from_xy c pwx ((MOD_P - pwy) mod MOD_P);
          let unblinded = pt_add c peer neg;
          if unblinded = pt_zero c then Some (Inl UnblindedIdentity)
          else do {
            let my_scalar = (if \<not> peer_used_m then scalar_m st else scalar_n st);
            let bytes = to_encoded c (pt_mul c my_scalar unblinded);
            if length bytes < 33 then None
            else do {
              shared_x \<leftarrow> to_fe (take 32 (drop 1 bytes));
              if shared_x = 0 then Some (Inl SharedXZero) else Some (Inr (fe_to_bytes shared_x))
            }
          }
        })"

section \<open>Session keys, confirmation and metadata\<close>

definition constant_time_eq :: "byte list \<Rightarrow> byte list \<Rightarrow> bool" where
  "constant_time_eq a b =
     (if length a \<noteq> length b then False
      else foldl (\<lambda>diff (x, y). diff OR (x XOR y)) 0 (zip a b) = 0)"

definition session_aad :: "byte list \<Rightarrow> byte list \<Rightarrow> byte list" where
  "session_aad my_point peer_point =
     (let (a, b) = (if my_point > peer_point then (peer_point, my_point) else (my_point, peer_point))
      in a @ b)"

definition aad_with_generators :: "'p crypto \<Rightarrow> byte list \<Rightarrow> byte list \<Rightarrow> byte list option" where
  "aad_with_generators c my_point peer_point =
     do {
       g \<leftarrow> n_generator c;
       xy \<leftarrow> affine_xy c g;
       Some (session_aad my_point peer_point @ marshal_point xy)
     }"

definition derive_session_key ::
    "'p crypto \<Rightarrow> byte list \<Rightarrow> byte list \<Rightarrow> byte list \<Rightarrow> byte list \<Rightarrow> byte list
     \<Rightarrow> (spake_error + byte list \<times> byte list) option" where
  "derive_session_key c shared_secret my_point peer_point my_fp peer_fp =
     (if length my_fp \<noteq> 32 \<or> length peer_fp \<noteq> 32 then Some (Inl BadFingerprint)
      else if constant_time_eq my_fp peer_fp then Some (Inl ReflectedFingerprint)
      else do {
        aad \<leftarrow> aad_with_generators c my_point peer_point;
        let (fp_a, fp_b) = (if my_fp > peer_fp then (peer_fp, my_fp) else (my_fp, peer_fp));
        let salt = sha256 c (aad @ FINGERPRINT_INFO @ fp_a @ fp_b);
        (case hkdf_expand c salt shared_secret SESSION_INFO of
           None \<Rightarrow> Some (Inl Hkdf)
         | Some key \<Rightarrow> Some (Inr (take 32 key, drop 32 key)))
      })"

definition encrypt_metadata ::
    "'p crypto \<Rightarrow> byte list \<Rightarrow> byte list \<Rightarrow> byte list \<Rightarrow> byte list \<Rightarrow> spake_error + byte list" where
  "encrypt_metadata c nonce_bytes key aad data =
     (if \<not> gcm_key_ok c key then Inl Gcm
      else case gcm_encrypt c key nonce_bytes aad data of
             None \<Rightarrow> Inl Gcm
           | Some ct \<Rightarrow> Inr (nonce_bytes @ ct))"

definition decrypt_metadata ::
    "'p crypto \<Rightarrow> byte list \<Rightarrow> byte list \<Rightarrow> byte list \<Rightarrow> spake_error + byte list" where
  "decrypt_metadata c key aad ciphertext =
     (if \<not> gcm_key_ok c key then Inl Gcm
      else if length ciphertext < 12 then Inl CiphertextTooShort
      else case gcm_decrypt c key (take 12 ciphertext) aad (drop 12 ciphertext) of
             None \<Rightarrow> Inl GcmAuth
           | Some m \<Rightarrow> Inr m)"

definition compute_confirm ::
    "'p crypto \<Rightarrow> byte list \<Rightarrow> byte list \<Rightarrow> byte list \<Rightarrow> byte list \<Rightarrow> byte list \<Rightarrow> byte list
     \<Rightarrow> (spake_error + byte list) option" where
  "compute_confirm c session_key my_point peer_point nonce sender_fp receiver_fp =
     (if nonce = [] then Some (Inl EmptyNonce)
      else if length sender_fp \<noteq> 32 \<or> length receiver_fp \<noteq> 32 then Some (Inl BadFingerprint)
      else if constant_time_eq sender_fp receiver_fp then Some (Inl ReflectedFingerprint)
      else do {
        let (a, b) = (if my_point > peer_point then (peer_point, my_point) else (my_point, peer_point));
        g \<leftarrow> n_generator c;
        xy \<leftarrow> affine_xy c g;
        (case hmac256 c session_key
                (a @ b @ marshal_point xy @ CONFIRM_SENDER_INFO @ sender_fp
                 @ CONFIRM_RECEIVER_INFO @ receiver_fp @ nonce @ CONFIRM_INFO) of
           None \<Rightarrow> Some (Inl Hmac)
         | Some mac \<Rightarrow> Some (Inr mac))
      })"

definition verify_confirm ::
    "'p crypto \<Rightarrow> byte list \<Rightarrow> byte list \<Rightarrow> byte list \<Rightarrow> byte list \<Rightarrow> byte list \<Rightarrow> byte list
     \<Rightarrow> byte list \<Rightarrow> bool option" where
  "verify_confirm c session_key my_point peer_point nonce my_fp peer_fp peer_confirm =
     (case compute_confirm c session_key my_point peer_point nonce peer_fp my_fp of
        None \<Rightarrow> None
      | Some (Inl _) \<Rightarrow> Some False
      | Some (Inr expected) \<Rightarrow> Some (constant_time_eq expected peer_confirm))"

end
