(* ===== verification/Exchange.thy ===== *)
theory Exchange
  imports Room Hex Net_Parse Spake2
begin

text \<open>
  \<^verbatim>\<open>crates/qvole-protocol/src/exchange.rs\<close>: the connection parameters, the SPAKE2 payload and the
  confirmation of one peer, and the loop that registers with the relay and exchanges them.

  One turn of the loop is \<open>exchange_turn\<close>: the sends that are due (\<open>exchange_send\<close>), then what the
  read of that turn brings (\<open>exchange_recv\<close>). The clock, the received datagram and the random bytes
  are arguments of a turn, and \<open>exchange_run\<close> folds the turns of a run. Messages sent are the
  second part of a result; the source ignores the errors of these sends. \<open>None\<close> is a panic. The
  time of the last log line about the external address is left out, as is the log.
\<close>

section \<open>Constants and parameters\<close>

definition POINT_LEN :: nat where "POINT_LEN = 65"
definition FINGERPRINT_SIZE :: nat where "FINGERPRINT_SIZE = 32"
definition SPAKE2_PAYLOAD_LEN :: nat where "SPAKE2_PAYLOAD_LEN = POINT_LEN * 2 + FINGERPRINT_SIZE"
definition MAX_CANDIDATES :: nat where "MAX_CANDIDATES = 50"
definition MAX_BUFFERED_CONFIRMS :: nat where "MAX_BUFFERED_CONFIRMS = 200"
definition MAX_INBOUND_MSGD_PER_SECOND :: nat where "MAX_INBOUND_MSGD_PER_SECOND = 500"
definition READ_BUFFER_SIZE :: nat where "READ_BUFFER_SIZE = 1500"
definition SPAKE2_RESEND_INTERVAL :: duration where "SPAKE2_RESEND_INTERVAL = from_secs 2"
definition CONFIRM_RESEND_INTERVAL :: duration where "CONFIRM_RESEND_INTERVAL = from_secs 2"
definition EXCHANGE_READ_DEADLINE :: duration where "EXCHANGE_READ_DEADLINE = from_secs 1"
definition EXCHANGE_DEADLINE :: duration where "EXCHANGE_DEADLINE = from_secs 90"
definition REG_INTERVAL :: duration where "REG_INTERVAL = from_secs 30"
definition MAX_METADATA_SIZE :: nat where "MAX_METADATA_SIZE = 52"
definition CONFIRM_NONCE_SIZE :: nat where "CONFIRM_NONCE_SIZE = 16"
definition CONFIRM_HMAC_SIZE :: nat where "CONFIRM_HMAC_SIZE = 32"
definition ENCRYPTED_ADDR_SIZE :: nat where "ENCRYPTED_ADDR_SIZE = 12 + MAX_METADATA_SIZE + 16"
definition CONFIRM_MIN_SIZE :: nat where
  "CONFIRM_MIN_SIZE = CONFIRM_NONCE_SIZE + CONFIRM_HMAC_SIZE + ENCRYPTED_ADDR_SIZE"
definition CONFIRM_RAND_PAD :: nat where "CONFIRM_RAND_PAD = 32"
definition CONFIRM_PAYLOAD_SIZE :: nat where "CONFIRM_PAYLOAD_SIZE = CONFIRM_MIN_SIZE + CONFIRM_RAND_PAD"
definition DEFAULT_PUNCH_TIMEOUT :: duration where "DEFAULT_PUNCH_TIMEOUT = from_secs 10"

definition DEFAULT_KEEP_ALIVE_PERIOD :: duration where "DEFAULT_KEEP_ALIVE_PERIOD = from_secs 5"
definition DEFAULT_MAX_IDLE_TIMEOUT :: duration where "DEFAULT_MAX_IDLE_TIMEOUT = from_secs 120"
definition DEFAULT_HANDSHAKE_TIMEOUT :: duration where "DEFAULT_HANDSHAKE_TIMEOUT = from_secs 30"
definition DEFAULT_MAX_INCOMING_STREAMS :: nat where "DEFAULT_MAX_INCOMING_STREAMS = 100"

lemmas exchange_sizes =
  POINT_LEN_def FINGERPRINT_SIZE_def SPAKE2_PAYLOAD_LEN_def MAX_METADATA_SIZE_def CONFIRM_NONCE_SIZE_def
  CONFIRM_HMAC_SIZE_def ENCRYPTED_ADDR_SIZE_def CONFIRM_MIN_SIZE_def CONFIRM_RAND_PAD_def CONFIRM_PAYLOAD_SIZE_def

record peer_config =
  pc_punch_timeout :: "duration option"
  pc_exchange_deadline :: "duration option"
  pc_spake2_resend :: "duration option"
  pc_confirm_resend :: "duration option"
  pc_read_deadline :: "duration option"
  pc_reg_interval :: "duration option"
  pc_max_streams :: "u32 option"
  pc_forward_max_streams :: "u32 option"
  pc_keep_alive_period :: "duration option"
  pc_idle_timeout :: "duration option"
  pc_handshake_timeout :: "duration option"

definition as_millis :: "duration \<Rightarrow> nat" where
  "as_millis d = d div 1000000"

definition resolve_dur :: "(string \<Rightarrow> string option) \<Rightarrow> duration option \<Rightarrow> string \<Rightarrow> duration \<Rightarrow> duration" where
  "resolve_dur getenv val env_name d =
     (case val of
        Some x \<Rightarrow> if x > 0 then x else from_millis (env_duration_ms getenv env_name (as_millis d))
      | None \<Rightarrow> from_millis (env_duration_ms getenv env_name (as_millis d)))"

definition punch_timeout :: "(string \<Rightarrow> string option) \<Rightarrow> peer_config \<Rightarrow> duration" where
  "punch_timeout getenv cfg = resolve_dur getenv (pc_punch_timeout cfg) ''QVOLE_PUNCH_TIMEOUT_MS'' DEFAULT_PUNCH_TIMEOUT"

definition exchange_deadline :: "(string \<Rightarrow> string option) \<Rightarrow> peer_config \<Rightarrow> duration" where
  "exchange_deadline getenv cfg = resolve_dur getenv (pc_exchange_deadline cfg) ''QVOLE_EXCHANGE_DEADLINE_MS'' EXCHANGE_DEADLINE"

definition spake2_resend :: "(string \<Rightarrow> string option) \<Rightarrow> peer_config \<Rightarrow> duration" where
  "spake2_resend getenv cfg = resolve_dur getenv (pc_spake2_resend cfg) ''QVOLE_SPAKE2_RESEND_MS'' SPAKE2_RESEND_INTERVAL"

definition confirm_resend :: "(string \<Rightarrow> string option) \<Rightarrow> peer_config \<Rightarrow> duration" where
  "confirm_resend getenv cfg = resolve_dur getenv (pc_confirm_resend cfg) ''QVOLE_CONFIRM_RESEND_MS'' CONFIRM_RESEND_INTERVAL"

definition read_deadline :: "(string \<Rightarrow> string option) \<Rightarrow> peer_config \<Rightarrow> duration" where
  "read_deadline getenv cfg = resolve_dur getenv (pc_read_deadline cfg) ''QVOLE_EXCHANGE_READ_DEADLINE_MS'' EXCHANGE_READ_DEADLINE"

definition reg_interval :: "(string \<Rightarrow> string option) \<Rightarrow> peer_config \<Rightarrow> duration" where
  "reg_interval getenv cfg = resolve_dur getenv (pc_reg_interval cfg) ''QVOLE_REG_INTERVAL_MS'' REG_INTERVAL"

definition max_streams :: "(string \<Rightarrow> string option) \<Rightarrow> peer_config \<Rightarrow> u32" where
  "max_streams getenv cfg =
     (case pc_max_streams cfg of
        Some v \<Rightarrow> if v > 0 then v else word_of_int (env_int getenv ''QVOLE_MAX_STREAMS'' (int DEFAULT_MAX_INCOMING_STREAMS))
      | None \<Rightarrow> word_of_int (env_int getenv ''QVOLE_MAX_STREAMS'' (int DEFAULT_MAX_INCOMING_STREAMS)))"

definition keep_alive_period :: "(string \<Rightarrow> string option) \<Rightarrow> peer_config \<Rightarrow> duration" where
  "keep_alive_period getenv cfg = resolve_dur getenv (pc_keep_alive_period cfg) ''QVOLE_KEEPALIVE_MS'' DEFAULT_KEEP_ALIVE_PERIOD"

definition idle_timeout :: "(string \<Rightarrow> string option) \<Rightarrow> peer_config \<Rightarrow> duration" where
  "idle_timeout getenv cfg = resolve_dur getenv (pc_idle_timeout cfg) ''QVOLE_IDLE_TIMEOUT_MS'' DEFAULT_MAX_IDLE_TIMEOUT"

definition handshake_timeout :: "(string \<Rightarrow> string option) \<Rightarrow> peer_config \<Rightarrow> duration" where
  "handshake_timeout getenv cfg = resolve_dur getenv (pc_handshake_timeout cfg) ''QVOLE_HANDSHAKE_TIMEOUT_MS'' DEFAULT_HANDSHAKE_TIMEOUT"

datatype exchange_error =
    Spake2State spake_error | HexError | Wire string | DeriveKey spake_error | ComputeConfirm spake_error
  | EncryptAddr spake_error | AddressTooLong nat nat | ConfirmPayloadTooShort | ConfirmMismatch
  | DecryptAddr spake_error | Timeout | RelayRead | Cancelled

text \<open>
  The slice from \<open>start\<close> to \<open>length b - end\<close>: indexing panics when the first bound is above the
  second.
\<close>

definition trim_ascii :: "string \<Rightarrow> string option" where
  "trim_ascii b =
     (let start = length (takeWhile (\<lambda>c. c \<in> set ws_bytes) b);
          stop = length b - length (takeWhile (\<lambda>c. c \<in> set ws_bytes) (rev b))
      in if start > stop then None else Some (take (stop - start) (drop start b)))"

section \<open>Payloads\<close>

record processed_spake =
  effective_my_point :: "byte list"
  effective_peer_point :: "byte list"
  peer_fingerprint :: "byte list"
  is_server :: bool
  confirm_key :: "byte list"
  enc_key :: "byte list"

definition process_spake_msg ::
    "'p crypto \<Rightarrow> string \<Rightarrow> spake_state \<Rightarrow> byte list \<Rightarrow> byte list \<Rightarrow> byte list
     \<Rightarrow> (exchange_error + processed_spake) option" where
  "process_spake_msg c body st my_point_m my_point_n my_fp =
     (case hex_decode body of
        None \<Rightarrow> Some (Inl HexError)
      | Some peer_payload \<Rightarrow>
          if length peer_payload < SPAKE2_PAYLOAD_LEN then Some (Inl (Wire ''spake2 payload too short''))
          else
            let peer_point_m = take POINT_LEN peer_payload;
                peer_point_n = take POINT_LEN (drop POINT_LEN peer_payload);
                peer_fp = take FINGERPRINT_SIZE (drop (POINT_LEN * 2) peer_payload)
            in if length my_fp \<noteq> FINGERPRINT_SIZE \<or> length peer_fp \<noteq> FINGERPRINT_SIZE
               then Some (Inl (Wire ''spake2: certificate fingerprints must be 32 bytes''))
               else if my_fp = peer_fp
               then Some (Inl (Wire ''spake2: peer sent reflected certificate fingerprint''))
               else if my_point_m = peer_point_m
               then Some (Inl (Wire ''spake2: peer sent reflected point''))
               else
                 let server = my_point_m > peer_point_m;
                     (my, peer) = (if server then (my_point_n, peer_point_m) else (my_point_m, peer_point_n))
                 in case compute_shared c st peer server of
                      None \<Rightarrow> None
                    | Some (Inl e) \<Rightarrow> Some (Inl (Spake2State e))
                    | Some (Inr shared) \<Rightarrow>
                        (case derive_session_key c shared my peer my_fp peer_fp of
                           None \<Rightarrow> None
                         | Some (Inl e) \<Rightarrow> Some (Inl (DeriveKey e))
                         | Some (Inr (ck, ek)) \<Rightarrow>
                             Some (Inr \<lparr>effective_my_point = my, effective_peer_point = peer,
                                        peer_fingerprint = peer_fp, is_server = server,
                                        confirm_key = ck, enc_key = ek\<rparr>)))"

text \<open>The random bytes of one confirmation: nonce, cipher nonce, and the padding of a given length.\<close>

record confirm_rand =
  r_nonce :: "byte list"
  r_gcm_nonce :: "byte list"
  r_pad :: "nat \<Rightarrow> byte list"

definition build_confirm_payload ::
    "'p crypto \<Rightarrow> confirm_rand \<Rightarrow> byte list \<Rightarrow> byte list \<Rightarrow> byte list \<Rightarrow> byte list \<Rightarrow> byte list \<Rightarrow> byte list
     \<Rightarrow> string \<Rightarrow> (exchange_error + byte list) option" where
  "build_confirm_payload c rnd ck ek my_point peer_point my_fp peer_fp my_addr =
     (let aad = session_aad my_point peer_point
      in case compute_confirm c ck my_point peer_point (r_nonce rnd) my_fp peer_fp of
           None \<Rightarrow> None
         | Some (Inl e) \<Rightarrow> Some (Inl (ComputeConfirm e))
         | Some (Inr confirm) \<Rightarrow>
             let addr_bytes = bytes_of my_addr
             in if length addr_bytes > MAX_METADATA_SIZE
                then Some (Inl (AddressTooLong (length addr_bytes) MAX_METADATA_SIZE))
                else
                  let addr_bytes = addr_bytes @ replicate (MAX_METADATA_SIZE - length addr_bytes) 0
                  in case encrypt_metadata c (r_gcm_nonce rnd) ek aad addr_bytes of
                       Inl e \<Rightarrow> Some (Inl (EncryptAddr e))
                     | Inr enc_addr \<Rightarrow>
                         let cp = r_nonce rnd @ confirm @ enc_addr
                         in Some (Inr (if length cp < CONFIRM_PAYLOAD_SIZE
                                       then cp @ r_pad rnd (CONFIRM_PAYLOAD_SIZE - length cp) else cp)))"

definition process_confirm_msg ::
    "'p crypto \<Rightarrow> string \<Rightarrow> byte list \<Rightarrow> byte list \<Rightarrow> byte list \<Rightarrow> byte list \<Rightarrow> byte list \<Rightarrow> byte list
     \<Rightarrow> (exchange_error + string) option" where
  "process_confirm_msg c hex_body ck ek my_point peer_point my_fp peer_fp =
     (case hex_decode hex_body of
        None \<Rightarrow> Some (Inl HexError)
      | Some payload \<Rightarrow>
          if length payload < CONFIRM_PAYLOAD_SIZE then Some (Inl ConfirmPayloadTooShort)
          else
            let peer_nonce = take CONFIRM_NONCE_SIZE payload;
                peer_confirm = take CONFIRM_HMAC_SIZE (drop CONFIRM_NONCE_SIZE payload);
                peer_enc_addr = take (CONFIRM_PAYLOAD_SIZE - CONFIRM_RAND_PAD - (CONFIRM_NONCE_SIZE + CONFIRM_HMAC_SIZE))
                                  (drop (CONFIRM_NONCE_SIZE + CONFIRM_HMAC_SIZE) payload)
            in case verify_confirm c ck my_point peer_point peer_nonce my_fp peer_fp peer_confirm of
                 None \<Rightarrow> None
               | Some False \<Rightarrow> Some (Inl ConfirmMismatch)
               | Some True \<Rightarrow>
                   (case decrypt_metadata c ek (session_aad my_point peer_point) peer_enc_addr of
                      Inl e \<Rightarrow> Some (Inl (DecryptAddr e))
                    | Inr bytes \<Rightarrow> Some (Inr (concat (map char_from_byte (takeWhile (\<lambda>b. b \<noteq> 0) bytes))))))"

fun detect_outbound_addr :: "socket_addr \<Rightarrow> string" where
  "detect_outbound_addr (SockV4 ip p) =
     (if ip = 0 then ''localhost:'' @ dec_str (unat p) else sock_str (SockV4 ip p))"
| "detect_outbound_addr (SockV6 ip p sc) =
     (if ip = 0 then ''localhost:'' @ dec_str (unat p) else sock_str (SockV6 ip p sc))"

section \<open>The loop\<close>

record peer_candidate =
  cand_point :: "byte list"
  cand_fingerprint :: "byte list"
  cand_confirm_key :: "byte list"
  cand_enc_key :: "byte list"
  cand_confirm_payload :: "byte list"
  cand_is_server :: bool
  cand_my_point :: "byte list"

text \<open>The guard around the candidates: when it goes out of scope every session key is zeroed.\<close>

definition zero_bytes :: "byte list \<Rightarrow> byte list" where
  "zero_bytes b = map (\<lambda>_. 0) b"

definition candidates_drop :: "(string, peer_candidate) hashmap \<Rightarrow> (string, peer_candidate) hashmap" where
  "candidates_drop m =
     map (\<lambda>(k, cand). (k, cand\<lparr>cand_confirm_key := zero_bytes (cand_confirm_key cand),
                              cand_enc_key := zero_bytes (cand_enc_key cand)\<rparr>)) m"

text \<open>What stays fixed during a run, and what the loop changes.\<close>

record exchange_params =
  ep_room :: string
  ep_fingerprint :: "byte list"
  ep_state :: spake_state
  ep_point_m :: "byte list"
  ep_point_n :: "byte list"
  ep_spake2_resend :: duration
  ep_confirm_resend :: duration
  ep_reg_interval :: duration
  ep_deadline :: instant

record exchange_state =
  my_addr :: string
  candidates :: "(string, peer_candidate) hashmap"
  confirm_last_sent :: "(string, instant) hashmap"
  buffered_confirms :: "string list"
  last_spake2_sent :: "instant option"
  last_reg_sent :: "instant option"
  received_regd :: bool
  pending_cookie :: string
  inbound_window :: "instant option"
  inbound_count :: nat

type_synonym exchange_ok = "string \<times> byte list \<times> bool"

text \<open>Set-up before the loop: \<open>None\<close> where \<^verbatim>\<open>new_state\<close> does not return.\<close>

definition exchange_start ::
    "'p crypto \<Rightarrow> (string \<Rightarrow> string option) \<Rightarrow> byte list \<Rightarrow> byte list \<Rightarrow> socket_addr \<Rightarrow> instant
     \<Rightarrow> string \<Rightarrow> string \<Rightarrow> byte list \<Rightarrow> peer_config \<Rightarrow> (exchange_params \<times> exchange_state) option" where
  "exchange_start c getenv priv_m priv_n local now room code my_fp cfg =
     do {
       st \<leftarrow> new_state c (kdf_iterations getenv) priv_m priv_n code;
       Some (\<lparr>ep_room = room, ep_fingerprint = my_fp, ep_state = st,
              ep_point_m = blinded_bytes_m st, ep_point_n = blinded_bytes_n st,
              ep_spake2_resend = spake2_resend getenv cfg, ep_confirm_resend = confirm_resend getenv cfg,
              ep_reg_interval = reg_interval getenv cfg, ep_deadline = now + exchange_deadline getenv cfg\<rparr>,
             \<lparr>my_addr = detect_outbound_addr local, candidates = [], confirm_last_sent = [],
              buffered_confirms = [], last_spake2_sent = None, last_reg_sent = None, received_regd = False,
              pending_cookie = [], inbound_window = None, inbound_count = 0\<rparr>)
     }"

definition spake2_payload :: "exchange_params \<Rightarrow> byte list" where
  "spake2_payload p = ep_point_m p @ ep_point_n p @ ep_fingerprint p"

definition is_due :: "instant \<Rightarrow> duration \<Rightarrow> instant option \<Rightarrow> bool" where
  "is_due now interval sent_at = (case sent_at of None \<Rightarrow> True | Some t \<Rightarrow> duration_since now t > interval)"

definition send_reg :: "exchange_params \<Rightarrow> instant \<Rightarrow> exchange_state \<Rightarrow> exchange_state \<times> string list" where
  "send_reg p now st =
     (if is_due now (ep_reg_interval p) (last_reg_sent st)
      then (st\<lparr>last_reg_sent := Some now\<rparr>,
            [if pending_cookie st = [] then ''REG '' @ ep_room p @ NL
             else ''REG '' @ ep_room p @ '' '' @ pending_cookie st @ NL])
      else (st, []))"

definition send_spake2 :: "exchange_params \<Rightarrow> instant \<Rightarrow> exchange_state \<Rightarrow> exchange_state \<times> string list" where
  "send_spake2 p now st =
     (if received_regd st \<and> is_due now (ep_spake2_resend p) (last_spake2_sent st)
      then (st\<lparr>last_spake2_sent := Some now\<rparr>,
            [''MSG '' @ ep_room p @ '' spake2 '' @ to_hex_lower (spake2_payload p) @ NL])
      else (st, []))"

definition confirm_msg :: "string \<Rightarrow> byte list \<Rightarrow> string" where
  "confirm_msg room cp = ''MSG '' @ room @ '' confirm '' @ to_hex_lower cp @ NL"

definition send_confirms :: "exchange_params \<Rightarrow> instant \<Rightarrow> exchange_state \<Rightarrow> exchange_state \<times> string list" where
  "send_confirms p now st =
     (let resends = filter (\<lambda>(k, _). is_due now (ep_confirm_resend p) (hm_get (confirm_last_sent st) k)) (candidates st)
      in (st\<lparr>confirm_last_sent := foldl (\<lambda>m (k, _). hm_insert k now m) (confirm_last_sent st) resends\<rparr>,
          map (\<lambda>(_, cand). confirm_msg (ep_room p) (cand_confirm_payload cand)) resends))"

definition exchange_send :: "exchange_params \<Rightarrow> instant \<Rightarrow> exchange_state \<Rightarrow> exchange_state \<times> string list" where
  "exchange_send p now st =
     (let (st, m1) = send_reg p now st;
          (st, m2) = send_spake2 p now st;
          (st, m3) = send_confirms p now st
      in (st, m1 @ m2 @ m3))"

text \<open>The first of the keys with the least value, where a missing value is below every other.\<close>

definition key_less :: "instant option \<Rightarrow> instant option \<Rightarrow> bool" where
  "key_less a b = (case b of None \<Rightarrow> False | Some y \<Rightarrow> (case a of None \<Rightarrow> True | Some x \<Rightarrow> x < y))"

fun min_by_key :: "('k \<Rightarrow> instant option) \<Rightarrow> 'k list \<Rightarrow> 'k option" where
  "min_by_key f [] = None"
| "min_by_key f (k # ks) =
     (case min_by_key f ks of None \<Rightarrow> Some k | Some j \<Rightarrow> if key_less (f j) (f k) then Some j else Some k)"

definition evict_candidate :: "exchange_state \<Rightarrow> exchange_state" where
  "evict_candidate st =
     (if length (candidates st) \<ge> MAX_CANDIDATES
      then (case min_by_key (hm_get (confirm_last_sent st)) (hm_keys (candidates st)) of
              None \<Rightarrow> st
            | Some k \<Rightarrow> st\<lparr>candidates := hm_remove k (candidates st),
                          confirm_last_sent := hm_remove k (confirm_last_sent st)\<rparr>)
      else st)"

text \<open>The first confirmation or candidate that checks; a panic inside a check is a panic of the loop.\<close>

fun first_ok :: "('a \<Rightarrow> (exchange_error + 'b) option) \<Rightarrow> 'a list \<Rightarrow> ('a \<times> 'b) option option" where
  "first_ok f [] = Some None"
| "first_ok f (x # xs) =
     (case f x of None \<Rightarrow> None | Some (Inr y) \<Rightarrow> Some (Some (x, y)) | Some (Inl _) \<Rightarrow> first_ok f xs)"

datatype exchange_step =
    Continue exchange_state "string list"
  | Finished exchange_ok "string list"
  | Failed exchange_error

definition candidate_of :: "processed_spake \<Rightarrow> byte list \<Rightarrow> peer_candidate" where
  "candidate_of pr cp =
     \<lparr>cand_point = effective_peer_point pr, cand_fingerprint = peer_fingerprint pr,
      cand_confirm_key = confirm_key pr, cand_enc_key = enc_key pr, cand_confirm_payload = cp,
      cand_is_server = is_server pr, cand_my_point = effective_my_point pr\<rparr>"

definition check_confirm ::
    "'p crypto \<Rightarrow> byte list \<Rightarrow> peer_candidate \<Rightarrow> string \<Rightarrow> (exchange_error + string) option" where
  "check_confirm c my_fp cand body =
     process_confirm_msg c body (cand_confirm_key cand) (cand_enc_key cand) (cand_my_point cand)
       (cand_point cand) my_fp (cand_fingerprint cand)"

definition recv_spake2 ::
    "'p crypto \<Rightarrow> exchange_params \<Rightarrow> confirm_rand \<Rightarrow> instant \<Rightarrow> string \<Rightarrow> exchange_state \<Rightarrow> exchange_step option" where
  "recv_spake2 c p rnd now hex_body st =
     (case hex_decode hex_body of
        None \<Rightarrow> Some (Continue st [])
      | Some payload \<Rightarrow>
          if length payload < SPAKE2_PAYLOAD_LEN then Some (Continue st [])
          else
            let payload_key = to_hex_lower (take SPAKE2_PAYLOAD_LEN payload)
            in if hm_contains (candidates st) payload_key then Some (Continue st [])
               else
                 (case process_spake_msg c hex_body (ep_state p) (ep_point_m p) (ep_point_n p) (ep_fingerprint p) of
                    None \<Rightarrow> None
                  | Some (Inl _) \<Rightarrow> Some (Continue st [])
                  | Some (Inr pr) \<Rightarrow>
                      (case build_confirm_payload c rnd (confirm_key pr) (enc_key pr) (effective_my_point pr)
                              (effective_peer_point pr) (ep_fingerprint p) (peer_fingerprint pr) (my_addr st) of
                         None \<Rightarrow> None
                       | Some (Inl _) \<Rightarrow> Some (Continue st [])
                       | Some (Inr cp) \<Rightarrow>
                           let st = evict_candidate st;
                               cand = candidate_of pr cp;
                               st = st\<lparr>candidates := hm_insert payload_key cand (candidates st),
                                       confirm_last_sent := hm_insert payload_key now (confirm_last_sent st)\<rparr>;
                               out = [confirm_msg (ep_room p) cp]
                           in (case first_ok (check_confirm c (ep_fingerprint p) cand) (buffered_confirms st) of
                                 None \<Rightarrow> None
                               | Some None \<Rightarrow> Some (Continue st out)
                               | Some (Some (_, pa)) \<Rightarrow>
                                   Some (Finished (pa, peer_fingerprint pr, is_server pr) out)))))"

definition recv_confirm ::
    "'p crypto \<Rightarrow> exchange_params \<Rightarrow> string \<Rightarrow> exchange_state \<Rightarrow> exchange_step option" where
  "recv_confirm c p hex_body st =
     (case first_ok (\<lambda>(_, cand). check_confirm c (ep_fingerprint p) cand hex_body) (candidates st) of
        None \<Rightarrow> None
      | Some (Some ((_, cand), pa)) \<Rightarrow> Some (Finished (pa, cand_fingerprint cand, cand_is_server cand) [])
      | Some None \<Rightarrow>
          Some (Continue
            (if length (buffered_confirms st) < MAX_BUFFERED_CONFIRMS
             then st\<lparr>buffered_confirms := buffered_confirms st @ [hex_body]\<rparr> else st) []))"

definition accepted_addr :: "string \<Rightarrow> bool" where
  "accepted_addr ext \<longleftrightarrow>
     utf8_valid ext
     \<and> (case parse_socket_addr ext of None \<Rightarrow> False | Some a \<Rightarrow> sock_port a \<noteq> 0)
     \<and> list_all (\<lambda>c. (of_char c :: nat) < 128) ext
     \<and> list_all (\<lambda>c. 33 \<le> (of_char c :: nat) \<and> (of_char c :: nat) \<le> 126) ext"

definition recv_regd :: "exchange_params \<Rightarrow> string \<Rightarrow> exchange_state \<Rightarrow> exchange_state option" where
  "recv_regd p rest st =
     (case split_first (CHR '' '') rest of
        None \<Rightarrow> Some st
      | Some (relay_room, relay_payload) \<Rightarrow>
          if relay_room \<noteq> ep_room p then Some st
          else do {
            payload \<leftarrow> trim_ascii relay_payload;
            (case strip_prefix ''OK '' payload of
               Some ok_rest \<Rightarrow> do {
                 ext_addr \<leftarrow> trim_ascii ok_rest;
                 let st = st\<lparr>received_regd := True\<rparr>;
                 Some (if accepted_addr ext_addr then st\<lparr>my_addr := ext_addr\<rparr> else st)
               }
             | None \<Rightarrow>
                 Some (if length payload = 32 \<and> utf8_valid payload \<and> hex_decode payload \<noteq> None
                       then st\<lparr>pending_cookie := payload, last_reg_sent := None\<rparr> else st))
          })"

definition count_inbound :: "instant \<Rightarrow> exchange_state \<Rightarrow> exchange_state" where
  "count_inbound now st =
     (let st = (if (case inbound_window st of None \<Rightarrow> True | Some t \<Rightarrow> duration_since now t \<ge> from_secs 1)
                then st\<lparr>inbound_window := Some now, inbound_count := 0\<rparr> else st)
      in st\<lparr>inbound_count := inbound_count st + 1\<rparr>)"

definition exchange_recv ::
    "'p crypto \<Rightarrow> exchange_params \<Rightarrow> confirm_rand \<Rightarrow> instant \<Rightarrow> string \<Rightarrow> exchange_state \<Rightarrow> exchange_step option" where
  "exchange_recv c p rnd now data st =
     do {
       line \<leftarrow> trim_ascii (take READ_BUFFER_SIZE data);
       let msgd = starts_with line ''MSGD '';
       let st = (if msgd then count_inbound now st else st);
       if msgd \<and> inbound_count st > MAX_INBOUND_MSGD_PER_SECOND then Some (Continue st [])
       else (case strip_prefix ''REGD '' line of
               Some rest \<Rightarrow> map_option (\<lambda>st. Continue st []) (recv_regd p rest st)
             | None \<Rightarrow>
                 (case strip_prefix ''MSGD spake2 '' line of
                    Some body \<Rightarrow> if utf8_valid body then recv_spake2 c p rnd now body st else Some (Continue st [])
                  | None \<Rightarrow>
                      (case strip_prefix ''MSGD confirm '' line of
                         Some body \<Rightarrow> if utf8_valid body then recv_confirm c p body st else Some (Continue st [])
                       | None \<Rightarrow> Some (Continue st []))))
     }"

text \<open>One turn: what the clock, the cancellation token and the read bring.\<close>

datatype read_result = Datagram string | ReadTimeout | ReadFailed

record turn_input =
  ti_cancelled :: bool
  ti_now :: instant
  ti_read :: read_result
  ti_read_at :: instant
  ti_rand :: confirm_rand

definition exchange_turn ::
    "'p crypto \<Rightarrow> exchange_params \<Rightarrow> turn_input \<Rightarrow> exchange_state \<Rightarrow> (exchange_step \<times> string list) option" where
  "exchange_turn c p i st =
     (if ti_cancelled i then Some (Failed Cancelled, [])
      else if ti_now i > ep_deadline p then Some (Failed Timeout, [])
      else
        let (st, out) = exchange_send p (ti_now i) st
        in case ti_read i of
             ReadTimeout \<Rightarrow> Some (Continue st [], out)
           | ReadFailed \<Rightarrow> Some (Failed RelayRead, out)
           | Datagram d \<Rightarrow> map_option (\<lambda>s. (s, out)) (exchange_recv c p (ti_rand i) (ti_read_at i) d st))"

fun exchange_run ::
    "'p crypto \<Rightarrow> exchange_params \<Rightarrow> turn_input list \<Rightarrow> exchange_state
     \<Rightarrow> ((exchange_error + exchange_ok) option \<times> exchange_state \<times> string list) option" where
  "exchange_run c p [] st = Some (None, st, [])"
| "exchange_run c p (i # is) st =
     (case exchange_turn c p i st of
        None \<Rightarrow> None
      | Some (Failed e, out) \<Rightarrow> Some (Some (Inl e), st, out)
      | Some (Finished r out', out) \<Rightarrow> Some (Some (Inr r), st, out @ out')
      | Some (Continue st' out', out) \<Rightarrow>
          map_option (\<lambda>(r, st'', out''). (r, st'', out @ out' @ out'')) (exchange_run c p is st'))"

end
