(* ===== verification/Spake2_Agree.thy ===== *)
theory Spake2_Agree
  imports Spake2
begin

text \<open>
  Correctness of the SPAKE2 module: the conversions and reductions compute what their names say,
  the byte comparison is equality, both peers derive the same secret and the same keys, and key
  confirmation and metadata encryption are inverse on the two sides.

  \<open>group_ok\<close> and \<open>gcm_ok\<close> state what the \<^verbatim>\<open>p256\<close> and \<^verbatim>\<open>aes-gcm\<close> crates document: points form a
  commutative group, scalar multiplication is repeated addition, the uncompressed SEC1 form of a
  point other than the identity is 65 bytes and decodes to the point, negating the second
  coordinate negates the point, the generators have order \<open>ORDER_N\<close>, and decryption inverts
  encryption.
\<close>

section \<open>Bytes and numbers\<close>

lemma length_nat_be [simp]: "length (nat_be k n) = k"
  by (induction k arbitrary: n) auto

lemma be_nat_Nil [simp]: "be_nat [] = 0"
  by (simp add: be_nat_def)

lemma be_nat_snoc [simp]: "be_nat (bs @ [b]) = be_nat bs * 256 + unat b"
  by (simp add: be_nat_def)

lemma be_nat_nat_be: "be_nat (nat_be k n) = n mod 256 ^ k"
proof (induction k arbitrary: n)
  case 0
  then show ?case by simp
next
  case (Suc k)
  have "unat (word_of_nat (n mod 256) :: byte) = n mod 256"
    by (simp add: unsigned_of_nat take_bit_eq_mod)
  with Suc show ?case
    using mod_mult2_eq [of n 256 "256 ^ k"] by (simp add: mult.commute add.commute)
qed

lemma be_nat_less: "be_nat bs < 256 ^ length bs"
proof (induction bs rule: rev_induct)
  case Nil
  then show ?case by simp
next
  case (snoc b bs)
  have "unat b < 256" using unsigned_less [of b, where 'a = nat] by simp
  moreover from snoc have "be_nat bs * 256 + 256 \<le> 256 ^ length bs * 256"
    by (metis Suc_leI add.commute mult_Suc mult_le_mono1)
  ultimately show ?case by simp
qed

lemma nat_be_be_nat: "length bs = k \<Longrightarrow> nat_be k (be_nat bs) = bs"
proof (induction bs arbitrary: k rule: rev_induct)
  case Nil
  then show ?case by simp
next
  case (snoc b bs)
  have b: "unat b < 256" using unsigned_less [of b, where 'a = nat] by simp
  from snoc.prems obtain k' where k: "k = Suc k'" "length bs = k'" by (cases k) auto
  have "(be_nat bs * 256 + unat b) div 256 = be_nat bs" "(be_nat bs * 256 + unat b) mod 256 = unat b"
    using b by simp_all
  with snoc.IH [OF k(2)] show ?case by (simp add: k(1))
qed

lemma to_fe_fe_to_bytes [simp]: "x < MOD_P \<Longrightarrow> to_fe (fe_to_bytes x) = Some x"
  by (simp add: to_fe_def fe_to_bytes_def be_nat_nat_be MOD_P_def)

lemma length_fe_to_bytes [simp]: "length (fe_to_bytes x) = 32"
  by (simp add: fe_to_bytes_def)

text \<open>The reduction by one conditional subtraction, for any modulus of 256 bits.\<close>

lemma wrapping_sub_mod:
  fixes m n :: nat
  assumes n: "n < 2 ^ 256" and m: "m < 2 ^ 256" "2 ^ 256 < 2 * m"
  shows "unat (if (word_of_nat n :: 256 word) \<ge> word_of_nat m then word_of_nat n - word_of_nat m
               else (word_of_nat n :: 256 word)) = n mod m"
proof -
  have u: "unat (word_of_nat n :: 256 word) = n" "unat (word_of_nat m :: 256 word) = m"
    using n m by (simp_all add: unsigned_of_nat take_bit_nat_eq_self)
  show ?thesis
  proof (cases "m \<le> n")
    case True
    have "n - m < m" using n m by linarith
    moreover have "unat (word_of_nat n - word_of_nat m :: 256 word) = n - m"
      using unat_diff_of_nat [of m "word_of_nat n :: 256 word"] True u by simp
    ultimately show ?thesis using True u by (simp add: word_le_nat_alt le_mod_geq)
  next
    case False
    then show ?thesis using u by (simp add: word_le_nat_alt)
  qed
qed

lemma reduce_mod_p_eq: "length b = 32 \<Longrightarrow> reduce_mod_p b = Some (be_nat b mod MOD_P)"
proof -
  assume b: "length b = 32"
  have n: "be_nat b < 2 ^ 256" using be_nat_less [of b] b by simp
  have m: "MOD_P < 2 ^ 256" "2 ^ 256 < 2 * MOD_P" "0 < MOD_P" by (simp_all add: MOD_P_def)
  have "be_nat b mod MOD_P < MOD_P" using m(3) by simp
  then have "be_nat b mod MOD_P < 256 ^ 32" using m(1) by simp
  with m(3) show ?thesis
    by (simp add: reduce_mod_p_def b Let_def wrapping_sub_mod [OF n m(1,2)] to_fe_def be_nat_nat_be)
qed

lemma reduce_mod_n_eq: "length b = 32 \<Longrightarrow> reduce_mod_n b = Some (be_nat b mod ORDER_N)"
proof -
  assume b: "length b = 32"
  have n: "be_nat b < 2 ^ 256" using be_nat_less [of b] b by simp
  have m: "ORDER_N < 2 ^ 256" "2 ^ 256 < 2 * ORDER_N" "0 < ORDER_N" by (simp_all add: ORDER_N_def)
  have "be_nat b mod ORDER_N < ORDER_N" using m(3) by simp
  then have "be_nat b mod ORDER_N < 256 ^ 32" using m(1) by simp
  with m(3) show ?thesis
    by (simp add: reduce_mod_n_def b Let_def wrapping_sub_mod [OF n m(1,2)] to_scalar_def be_nat_nat_be)
qed

section \<open>Comparison and ordered concatenation\<close>

lemma diff_mask_zero:
  "foldl (\<lambda>diff (x, y). diff OR (x XOR y)) d ps = (0 :: byte) \<longleftrightarrow> d = 0 \<and> (\<forall>(x, y) \<in> set ps. x = y)"
proof (induction ps arbitrary: d)
  case Nil
  then show ?case by simp
next
  case (Cons p ps)
  obtain x y where p: "p = (x, y)" by (cases p)
  have "d OR (x XOR y) = 0 \<longleftrightarrow> d = 0 \<and> x = y"
    by (auto simp: bit_eq_iff bit_simps)
  then show ?case by (auto simp: Cons.IH p)
qed

lemma constant_time_eq_iff [simp]: "constant_time_eq a b \<longleftrightarrow> a = b"
proof (cases "length a = length b")
  case True
  have "(\<forall>(x, y) \<in> set (zip a b). x = y) \<longleftrightarrow> a = b"
    using True by (induction a b rule: list_induct2) auto
  then show ?thesis by (simp add: constant_time_eq_def diff_mask_zero True)
qed (auto simp: constant_time_eq_def)

lemma session_aad_sym: "session_aad a b = session_aad b a"
  by (cases a b rule: linorder_cases) (auto simp: session_aad_def)

lemma ordered_pair_sym:
  "(if a > b then (b, a) else (a, b)) = (if b > a then (a, b) else (b, a))" for a b :: "byte list"
  by (cases a b rule: linorder_cases) auto

section \<open>What the crates promise\<close>

definition group_ok :: "'p crypto \<Rightarrow> bool" where
  "group_ok c \<longleftrightarrow>
     (\<forall>p q r. pt_add c (pt_add c p q) r = pt_add c p (pt_add c q r))
   \<and> (\<forall>p q. pt_add c p q = pt_add c q p)
   \<and> (\<forall>p. pt_add c p (pt_zero c) = p)
   \<and> (\<forall>p. pt_mul c 0 p = pt_zero c)
   \<and> (\<forall>k p. pt_mul c (Suc k) p = pt_add c p (pt_mul c k p))
   \<and> (\<forall>p. p \<noteq> pt_zero c \<longrightarrow>
        (\<exists>x y. x < MOD_P \<and> y < MOD_P \<and> to_encoded c p = 0x04 # fe_to_bytes x @ fe_to_bytes y
           \<and> encoded_ok c (0x04 # fe_to_bytes x @ fe_to_bytes y)
           \<and> from_encoded c (0x04 # fe_to_bytes x @ fe_to_bytes y) = Some p
           \<and> encoded_ok c (0x04 # fe_to_bytes x @ fe_to_bytes ((MOD_P - y) mod MOD_P))
           \<and> (\<exists>q. from_encoded c (0x04 # fe_to_bytes x @ fe_to_bytes ((MOD_P - y) mod MOD_P)) = Some q
                \<and> pt_add c p q = pt_zero c)))
   \<and> to_encoded c (pt_zero c) = [0]
   \<and> (\<forall>g k. base_generator c = Some g \<or> m_generator c = Some g \<or> n_generator c = Some g
        \<longrightarrow> pt_mul c k g = pt_zero c \<longrightarrow> ORDER_N dvd k)"

definition gcm_ok :: "'p crypto \<Rightarrow> bool" where
  "gcm_ok c \<longleftrightarrow>
     (\<forall>key nonce aad msg ct. gcm_encrypt c key nonce aad msg = Some ct
        \<longrightarrow> gcm_decrypt c key nonce aad ct = Some msg)"

section \<open>Points\<close>

lemma group_laws:
  assumes "group_ok c"
  shows "pt_add c (pt_add c p q) r = pt_add c p (pt_add c q r)"
    and "pt_add c p q = pt_add c q p"
    and "pt_add c p (pt_zero c) = p"
    and "pt_mul c 0 p = pt_zero c"
    and "pt_mul c (Suc k) p = pt_add c p (pt_mul c k p)"
    and "to_encoded c (pt_zero c) = [0]"
  using assms unfolding group_ok_def by (simp_all, metis)

lemma group_order:
  assumes "group_ok c" and "base_generator c = Some g \<or> m_generator c = Some g \<or> n_generator c = Some g"
    and "pt_mul c k g = pt_zero c"
  shows "ORDER_N dvd k"
  using assms unfolding group_ok_def by blast

lemma pt_mul_add:
  assumes c: "group_ok c"
  shows "pt_mul c (j + k) p = pt_add c (pt_mul c j p) (pt_mul c k p)"
proof (induction j)
  case 0
  then show ?case by (simp add: group_laws(4) [OF c] group_laws(2) [OF c, of "pt_zero c"] group_laws(3) [OF c])
next
  case (Suc j)
  then show ?case by (simp add: group_laws(5) [OF c] group_laws(1) [OF c])
qed

lemma pt_mul_mult:
  assumes c: "group_ok c"
  shows "pt_mul c j (pt_mul c k p) = pt_mul c (j * k) p"
  by (induction j) (simp_all add: group_laws(4,5) [OF c] pt_mul_add [OF c])

lemma encoded_point:
  assumes "group_ok c" and "p \<noteq> pt_zero c"
  obtains x y q where "x < MOD_P" "y < MOD_P"
    "to_encoded c p = 0x04 # fe_to_bytes x @ fe_to_bytes y"
    "affine_xy c p = Some (x, y)"
    "parse_peer_point c (marshal_point (x, y)) = Inr p"
    "point_from_xy c x ((MOD_P - y) mod MOD_P) = Some q" "pt_add c p q = pt_zero c"
proof -
  from assms obtain x y q where xy: "x < MOD_P" "y < MOD_P"
    "to_encoded c p = 0x04 # fe_to_bytes x @ fe_to_bytes y"
    "encoded_ok c (0x04 # fe_to_bytes x @ fe_to_bytes y)"
    "from_encoded c (0x04 # fe_to_bytes x @ fe_to_bytes y) = Some p"
    "encoded_ok c (0x04 # fe_to_bytes x @ fe_to_bytes ((MOD_P - y) mod MOD_P))"
    "from_encoded c (0x04 # fe_to_bytes x @ fe_to_bytes ((MOD_P - y) mod MOD_P)) = Some q"
    "pt_add c p q = pt_zero c"
    unfolding group_ok_def by blast
  then have "affine_xy c p = Some (x, y)" by (simp add: affine_xy_def Let_def)
  moreover from xy have "parse_peer_point c (marshal_point (x, y)) = Inr p"
    by (simp add: parse_peer_point_def marshal_point_def)
  moreover from xy have "point_from_xy c x ((MOD_P - y) mod MOD_P) = Some q"
    by (simp add: point_from_xy_def)
  ultimately show thesis using xy that by blast
qed

lemma affine_xy_zero: "group_ok c \<Longrightarrow> affine_xy c (pt_zero c) = None"
  by (simp add: affine_xy_def group_laws(6))

text \<open>Removing the mask from a blinded point leaves the ephemeral public point.\<close>

lemma unblind:
  assumes c: "group_ok c" and a: "add_affine c u w = Some xy" and w: "affine_xy c w \<noteq> None"
  obtains pwx pwy q where "parse_peer_point c (marshal_point xy) = Inr (pt_add c u w)"
    "affine_xy c w = Some (pwx, pwy)" "point_from_xy c pwx ((MOD_P - pwy) mod MOD_P) = Some q"
    "pt_add c (pt_add c u w) q = u"
proof -
  have nz: "pt_add c u w \<noteq> pt_zero c" "w \<noteq> pt_zero c"
    using a w affine_xy_zero [OF c] by (auto simp: add_affine_def)
  obtain x y where xy: "affine_xy c (pt_add c u w) = Some (x, y)"
    "parse_peer_point c (marshal_point (x, y)) = Inr (pt_add c u w)"
    using encoded_point [OF c nz(1)] by metis
  obtain pwx pwy q where q: "affine_xy c w = Some (pwx, pwy)"
    "point_from_xy c pwx ((MOD_P - pwy) mod MOD_P) = Some q" "pt_add c w q = pt_zero c"
    using encoded_point [OF c nz(2)] by metis
  have "pt_add c (pt_add c u w) q = u" using q(3) by (simp add: group_laws(1,3) [OF c])
  with that xy q a show thesis by (auto simp: add_affine_def)
qed

text \<open>
  The secret of a non-zero ephemeral point and a scalar, as the tail of \<^verbatim>\<open>compute_shared\<close>
  computes it: the first coordinate of the product.
\<close>

definition secret_of :: "'p crypto \<Rightarrow> 'p \<Rightarrow> (spake_error + byte list) option" where
  "secret_of c p =
     (case affine_xy c p of
        None \<Rightarrow> None
      | Some (x, _) \<Rightarrow> if x = 0 then Some (Inl SharedXZero) else Some (Inr (fe_to_bytes x)))"

lemma compute_shared_eq:
  assumes c: "group_ok c"
    and g: "(if used_m then m_generator c else n_generator c) = Some g"
    and a: "add_affine c u (generator_scalar c g (pw_scalar st)) = Some xy"
    and w: "affine_xy c (generator_scalar c g (pw_scalar st)) \<noteq> None"
    and u: "u \<noteq> pt_zero c"
  shows "compute_shared c st (marshal_point xy) used_m
    = secret_of c (pt_mul c (if \<not> used_m then scalar_m st else scalar_n st) u)"
proof -
  obtain pwx pwy q where q: "parse_peer_point c (marshal_point xy) = Inr (pt_add c u (generator_scalar c g (pw_scalar st)))"
    "affine_xy c (generator_scalar c g (pw_scalar st)) = Some (pwx, pwy)"
    "point_from_xy c pwx ((MOD_P - pwy) mod MOD_P) = Some q"
    "pt_add c (pt_add c u (generator_scalar c g (pw_scalar st))) q = u"
    using unblind [OF c a w] by metis
  define s where "s = pt_mul c (if \<not> used_m then scalar_m st else scalar_n st) u"
  have "(let bytes = to_encoded c s in
          if length bytes < 33 then None
          else Option.bind (to_fe (take 32 (drop 1 bytes)))
                 (\<lambda>x. if x = 0 then Some (Inl SharedXZero) else Some (Inr (fe_to_bytes x)))) = secret_of c s"
  proof (cases "s = pt_zero c")
    case True
    then show ?thesis by (simp add: secret_of_def affine_xy_zero [OF c] group_laws(6) [OF c])
  next
    case False
    obtain x y where "x < MOD_P" "to_encoded c s = 0x04 # fe_to_bytes x @ fe_to_bytes y"
      "affine_xy c s = Some (x, y)"
      using encoded_point [OF c False] by metis
    then show ?thesis by (simp add: secret_of_def Let_def)
  qed
  with u q g show ?thesis by (auto simp: compute_shared_def s_def [symmetric] Let_def split: if_splits)
qed

lemma state_from_scalarsD:
  assumes "state_from_scalars c iters password sm sn = Some st"
  obtains pw g mg ng where "password_to_scalar c iters password = Some pw"
    "base_generator c = Some g" "m_generator c = Some mg" "n_generator c = Some ng"
    "add_affine c (generator_scalar c g sm) (generator_scalar c mg pw) = Some (blinded_m st)"
    "add_affine c (generator_scalar c g sn) (generator_scalar c ng pw) = Some (blinded_n st)"
    "pw_scalar st = pw" "scalar_m st = sm" "scalar_n st = sn"
  using assms unfolding state_from_scalars_def by (auto simp: Option.bind_eq_Some_conv)

lemma password_loop_range: "password_loop c iters pw counter = Some s \<Longrightarrow> 0 < s \<and> s < ORDER_N"
  by (induction rule: password_loop.raw_induct [rotated 1, consumes 1])
    (auto simp: Let_def reduce_mod_n_def to_scalar_def split: option.splits if_splits)

lemma password_to_scalar_range: "password_to_scalar c iters password = Some s \<Longrightarrow> 0 < s \<and> s < ORDER_N"
  by (auto simp: password_to_scalar_def dest: password_loop_range)

lemma generator_mask:
  assumes c: "group_ok c" and pw: "password_to_scalar c iters password = Some pw"
    and g: "m_generator c = Some g \<or> n_generator c = Some g"
  shows "affine_xy c (generator_scalar c g pw) \<noteq> None"
proof -
  have "\<not> ORDER_N dvd pw" using password_to_scalar_range [OF pw] by (auto dest: dvd_imp_le)
  then have "pt_mul c pw g \<noteq> pt_zero c" using group_order [OF c, of g pw] g by blast
  then show ?thesis using encoded_point [OF c] by (metis generator_scalar_def option.distinct(1))
qed

lemma shared_agreement:
  assumes c: "group_ok c"
    and sa: "state_from_scalars c iters password sm sn = Some sa"
    and sb: "state_from_scalars c iters password sm' sn' = Some sb"
    and nz: "\<not> ORDER_N dvd sm * sn'"
  shows "\<exists>g. base_generator c = Some g \<and> pt_mul c (sm * sn') g \<noteq> pt_zero c
    \<and> compute_shared c sa (blinded_bytes_n sb) False = secret_of c (pt_mul c (sm * sn') g)
    \<and> compute_shared c sb (blinded_bytes_m sa) True = secret_of c (pt_mul c (sm * sn') g)"
proof -
  obtain pw g mg ng where a: "password_to_scalar c iters password = Some pw"
    "base_generator c = Some g" "m_generator c = Some mg" "n_generator c = Some ng"
    "add_affine c (generator_scalar c g sm) (generator_scalar c mg pw) = Some (blinded_m sa)"
    "pw_scalar sa = pw" "scalar_m sa = sm" "scalar_n sa = sn"
    using state_from_scalarsD [OF sa] by metis
  then have b: "add_affine c (generator_scalar c g sn') (generator_scalar c ng pw) = Some (blinded_n sb)"
    "pw_scalar sb = pw" "scalar_m sb = sm'" "scalar_n sb = sn'"
    using state_from_scalarsD [OF sb] by (metis option.inject)+
  have "pt_mul c sm g \<noteq> pt_zero c" "pt_mul c sn' g \<noteq> pt_zero c" "pt_mul c (sm * sn') g \<noteq> pt_zero c"
    using group_order [OF c disjI1 [OF a(2)]] nz dvd_mult dvd_mult2 by blast+
  then have u: "generator_scalar c g sm \<noteq> pt_zero c" "generator_scalar c g sn' \<noteq> pt_zero c"
    "pt_mul c (sm * sn') g \<noteq> pt_zero c"
    by (simp_all add: generator_scalar_def)
  have "compute_shared c sa (blinded_bytes_n sb) False = secret_of c (pt_mul c sm (generator_scalar c g sn'))"
    using compute_shared_eq [OF c, of False ng "generator_scalar c g sn'" sa "blinded_n sb"] a b u
      generator_mask [OF c a(1), of ng] by (simp add: blinded_bytes_n_def)
  moreover have "compute_shared c sb (blinded_bytes_m sa) True = secret_of c (pt_mul c sn' (generator_scalar c g sm))"
    using compute_shared_eq [OF c, of True mg "generator_scalar c g sm" sb "blinded_m sa"] a b u
      generator_mask [OF c a(1), of mg] by (simp add: blinded_bytes_m_def)
  ultimately show ?thesis
    using a(2) u(3) by (auto simp: generator_scalar_def pt_mul_mult [OF c] mult.commute)
qed

lemma secret_of_cases:
  assumes c: "group_ok c" and p: "p \<noteq> pt_zero c"
  shows "secret_of c p = Some (Inl SharedXZero) \<or> (\<exists>s. secret_of c p = Some (Inr s) \<and> length s = 32)"
proof -
  obtain x y where "affine_xy c p = Some (x, y)" using encoded_point [OF c p] by metis
  then show ?thesis by (simp add: secret_of_def)
qed

section \<open>Keys and confirmation\<close>

lemma aad_with_generators_sym: "aad_with_generators c a b = aad_with_generators c b a"
  by (simp add: aad_with_generators_def session_aad_sym)

lemma derive_session_key_sym:
  "derive_session_key c s a b fa fb = derive_session_key c s b a fb fa"
  by (auto simp: derive_session_key_def aad_with_generators_sym [of c a b] ordered_pair_sym [of fa fb])

lemma compute_confirm_sym:
  "compute_confirm c k a b nonce fs fr = compute_confirm c k b a nonce fs fr"
  by (simp add: compute_confirm_def ordered_pair_sym [of a b])

lemma verify_confirm_iff:
  "verify_confirm c k my peer nonce my_fp peer_fp m = Some True
   \<longleftrightarrow> compute_confirm c k peer my nonce peer_fp my_fp = Some (Inr m)"
  by (auto simp: verify_confirm_def compute_confirm_sym [of c k my] split: option.splits sum.splits)

lemma decrypt_encrypt:
  assumes "gcm_ok c" "length nonce = 12" "encrypt_metadata c nonce key aad data = Inr ct"
  shows "decrypt_metadata c key aad ct = Inr data"
  using assms by (auto simp: encrypt_metadata_def decrypt_metadata_def gcm_ok_def split: if_splits option.splits)

section \<open>The searches end\<close>

text \<open>The candidate of a counter value, when the search accepts it.\<close>

definition hash_candidate :: "'p crypto \<Rightarrow> byte list \<Rightarrow> u64 \<Rightarrow> (nat \<times> nat) option" where
  "hash_candidate c h counter =
     (let x = be_nat (sha256 c (h @ nat_be 8 (unat counter))) mod MOD_P
      in if x = 0 then None
         else case compute_weierstrass_y c x of None \<Rightarrow> None | Some y \<Rightarrow> Some (x, y))"

lemma hash_loop_candidate:
  assumes "\<And>m. length (sha256 c m) = 32"
  shows "hash_loop c h counter =
    (case hash_candidate c h counter of
       Some (x, y) \<Rightarrow> point_from_xy c x y | None \<Rightarrow> hash_loop c h (counter + 1))"
  by (subst hash_loop.simps)
    (simp add: reduce_mod_p_eq assms hash_candidate_def Let_def split: option.splits)

lemma hash_loop_first:
  assumes "\<And>m. length (sha256 c m) = 32"
    and "\<And>i. i < k \<Longrightarrow> hash_candidate c h (counter + word_of_nat i) = None"
    and "hash_candidate c h (counter + word_of_nat k) = Some (x, y)"
  shows "hash_loop c h counter = point_from_xy c x y"
  using assms(2,3)
proof (induction k arbitrary: counter)
  case 0
  then show ?case by (simp add: hash_loop_candidate [OF assms(1)])
next
  case (Suc k)
  have "hash_loop c h (counter + 1) = point_from_xy c x y"
  proof (rule Suc.IH)
    show "hash_candidate c h (counter + 1 + word_of_nat i) = None" if "i < k" for i
      using Suc.prems(1) [of "Suc i"] that by (simp add: add.assoc)
    show "hash_candidate c h (counter + 1 + word_of_nat k) = Some (x, y)"
      using Suc.prems(2) by (simp add: add.assoc)
  qed
  with Suc.prems(1) [of 0] show ?case by (simp add: hash_loop_candidate [OF assms(1), of h counter])
qed

end
