(* ===== verification/Spake2_Model.thy ===== *)
theory Spake2_Model
  imports Spake2_Agree
begin

text \<open>
  A concrete \<open>crypto\<close> for the witnesses: the integers modulo \<open>ORDER_N\<close> in place of the curve, with
  points encoded in the uncompressed form, and simple stand-ins for the hash, key-derivation,
  authentication and encryption routines. It satisfies \<open>group_ok\<close> and \<open>gcm_ok\<close>, so the theorems
  that assume them are about something.
\<close>

typedef zn = "{n :: nat. n < ORDER_N}"
  by (rule exI [of _ 0]) (simp add: ORDER_N_def)

setup_lifting type_definition_zn

lift_definition zn_val :: "zn \<Rightarrow> nat" is "\<lambda>n. n" .

lift_definition zn_of :: "nat \<Rightarrow> zn" is "\<lambda>n. n mod ORDER_N"
  by (simp add: ORDER_N_def)

lift_definition zn_add :: "zn \<Rightarrow> zn \<Rightarrow> zn" is "\<lambda>a b. (a + b) mod ORDER_N"
  by (simp add: ORDER_N_def)

lift_definition zn_mul :: "nat \<Rightarrow> zn \<Rightarrow> zn" is "\<lambda>k a. k * a mod ORDER_N"
  by (simp add: ORDER_N_def)

lift_definition zn_neg :: "zn \<Rightarrow> zn" is "\<lambda>a. (ORDER_N - a) mod ORDER_N"
  by (simp add: ORDER_N_def)

definition zn_from :: "byte list \<Rightarrow> zn option" where
  "zn_from b =
     (if b = BASE_BYTES then Some (zn_of 1)
      else if b = [0] then Some (zn_of 0)
      else if length b = 65
      then (let v = zn_of (be_nat (take 32 (drop 1 b)))
            in if drop 33 b = fe_to_bytes 1 then Some v else Some (zn_neg v))
      else None)"

definition toy_crypto :: "zn crypto" where
  "toy_crypto = \<lparr>pt_add = zn_add, pt_zero = zn_of 0, pt_mul = zn_mul,
     encoded_ok = (\<lambda>b. b = [0] \<or> length b = 65), from_encoded = zn_from,
     to_encoded = (\<lambda>p. if zn_val p = 0 then [0] else 0x04 # fe_to_bytes (zn_val p) @ fe_to_bytes 1),
     coeff_b = 0, fe_sqrt = (\<lambda>_. Some 1),
     sha256 = (\<lambda>m. if length m = 1 then nat_be 32 2 else nat_be 32 1), pbkdf2 = (\<lambda>p s i. nat_be 32 5),
     hkdf_expand = (\<lambda>salt ikm info. Some (take 64 (ikm @ nat_be 64 0))),
     hmac256 = (\<lambda>k m. Some (take 32 (k @ nat_be 32 0))),
     gcm_encrypt = (\<lambda>k n a m. Some (take 16 (k @ nat_be 16 0) @ m)),
     gcm_decrypt = (\<lambda>k n a ct. if take 16 ct = take 16 (k @ nat_be 16 0) then Some (drop 16 ct) else None),
     gcm_key_ok = (\<lambda>k. length k = 32)\<rparr>"

lemma zn_val_of [simp]: "zn_val (zn_of n) = n mod ORDER_N"
  by transfer simp

lemma zn_val_less: "zn_val p < ORDER_N"
  by transfer simp

lemma zn_val_eq_0: "zn_val p = 0 \<longleftrightarrow> p = zn_of 0"
  by transfer simp

lemma zn_of_val [simp]: "zn_of (zn_val p) = p"
  by transfer simp

lemma zn_add_of: "zn_add (zn_of a) (zn_of b) = zn_of (a + b)"
  by transfer (simp add: mod_simps)

lemma zn_mul_of: "zn_mul k (zn_of a) = zn_of (k * a)"
  by transfer (simp add: mod_simps)

lemma zn_laws:
  shows zn_add_assoc: "zn_add (zn_add a b) c = zn_add a (zn_add b c)"
    and zn_add_comm: "zn_add a b = zn_add b a"
    and zn_add_0: "zn_add a (zn_of 0) = a"
    and zn_mul_0: "zn_mul 0 a = zn_of 0"
    and zn_mul_Suc: "zn_mul (Suc k) a = zn_add a (zn_mul k a)"
    and zn_add_neg: "zn_add a (zn_neg a) = zn_of 0"
proof -
  show "zn_add (zn_add a b) c = zn_add a (zn_add b c)"
    by transfer (simp add: mod_simps add.assoc)
  show "zn_add a b = zn_add b a" by transfer (simp add: add.commute)
  show "zn_add a (zn_of 0) = a" by transfer simp
  show "zn_mul 0 a = zn_of 0" by transfer simp
  show "zn_mul (Suc k) a = zn_add a (zn_mul k a)" by transfer (simp add: mod_simps)
  show "zn_add a (zn_neg a) = zn_of 0"
  proof transfer
    fix a assume "a < ORDER_N"
    then have "a + (ORDER_N - a) = ORDER_N" by simp
    then show "(a + (ORDER_N - a) mod ORDER_N) mod ORDER_N = 0 mod ORDER_N" by (simp add: mod_simps)
  qed
qed

lemma fe_to_bytes_inject: "x < MOD_P \<Longrightarrow> y < MOD_P \<Longrightarrow> fe_to_bytes x = fe_to_bytes y \<longleftrightarrow> x = y"
  by (metis option.inject to_fe_fe_to_bytes)

lemma last_fe_to_bytes: "last (fe_to_bytes y) = word_of_nat (y mod 256)"
proof -
  have "fe_to_bytes y = nat_be 31 (y div 256) @ [word_of_nat (y mod 256)]"
    using nat_be.simps(2) [of 31 y] by (simp add: fe_to_bytes_def)
  then show ?thesis by simp
qed

lemma fe_to_bytes_nonempty [simp]: "fe_to_bytes y \<noteq> []"
  using length_fe_to_bytes [of y] by fastforce

lemma not_base: "y mod 256 \<noteq> 245 \<Longrightarrow> 0x04 # fe_to_bytes x @ fe_to_bytes y \<noteq> BASE_BYTES"
proof
  assume y: "y mod 256 \<noteq> 245" and "0x04 # fe_to_bytes x @ fe_to_bytes y = BASE_BYTES"
  then have "last (fe_to_bytes y) = last BASE_BYTES" by (metis fe_to_bytes_nonempty last_ConsR last_appendR append_is_Nil_conv)
  then have "word_of_nat (y mod 256) = (245 :: byte)" by (simp add: last_fe_to_bytes BASE_BYTES_def)
  then have "unat (word_of_nat (y mod 256) :: byte) = 245" by simp
  with y show False by (simp add: unsigned_of_nat take_bit_eq_mod)
qed

lemma zn_from_encoded:
  "zn_from (0x04 # fe_to_bytes x @ fe_to_bytes 1) = Some (zn_of (x mod 256 ^ 32))"
  "zn_from (0x04 # fe_to_bytes x @ fe_to_bytes (MOD_P - 1)) = Some (zn_neg (zn_of (x mod 256 ^ 32)))"
proof -
  have "fe_to_bytes (MOD_P - 1) \<noteq> fe_to_bytes 1"
    by (subst fe_to_bytes_inject) (simp_all add: MOD_P_def)
  moreover have "(MOD_P - 1) mod 256 \<noteq> 245" by (simp add: MOD_P_def)
  moreover have "be_nat (fe_to_bytes x) = x mod 256 ^ 32" by (simp add: fe_to_bytes_def be_nat_nat_be)
  ultimately show
    "zn_from (0x04 # fe_to_bytes x @ fe_to_bytes 1) = Some (zn_of (x mod 256 ^ 32))"
    "zn_from (0x04 # fe_to_bytes x @ fe_to_bytes (MOD_P - 1)) = Some (zn_neg (zn_of (x mod 256 ^ 32)))"
    using not_base [of 1 x] not_base [of "MOD_P - 1" x] by (simp_all add: zn_from_def Let_def)
qed

lemma toy_generators:
  "base_generator toy_crypto = Some (zn_of 1)"
  "m_generator toy_crypto = Some (zn_of 1)"
  "n_generator toy_crypto = Some (zn_of 1)"
proof -
  have "hash_loop toy_crypto h 0 = Some (zn_of 1)" for h
  proof (subst hash_loop_first [where k = 0 and x = 1 and y = 1])
    show "hash_candidate toy_crypto h (0 + word_of_nat 0) = Some (1, 1)"
      by (simp add: hash_candidate_def toy_crypto_def be_nat_nat_be MOD_P_def compute_weierstrass_y_def)
    show "point_from_xy toy_crypto 1 1 = Some (zn_of 1)"
      using zn_from_encoded(1) [of 1] by (simp add: point_from_xy_def toy_crypto_def Let_def)
  qed (simp_all add: toy_crypto_def)
  then show "m_generator toy_crypto = Some (zn_of 1)" "n_generator toy_crypto = Some (zn_of 1)"
    by (simp_all add: m_generator_def n_generator_def hash_to_curve_def)
  show "base_generator toy_crypto = Some (zn_of 1)"
    by (simp add: base_generator_def toy_crypto_def zn_from_def BASE_BYTES_def)
qed

lemma toy_group_ok: "group_ok toy_crypto"
proof -
  have "ORDER_N < MOD_P" "(1 :: nat) < MOD_P" "ORDER_N < 256 ^ 32" by (simp_all add: MOD_P_def ORDER_N_def)
  then have enc: "\<exists>x y. x < MOD_P \<and> y < MOD_P \<and> to_encoded toy_crypto p = 0x04 # fe_to_bytes x @ fe_to_bytes y
           \<and> encoded_ok toy_crypto (0x04 # fe_to_bytes x @ fe_to_bytes y)
           \<and> from_encoded toy_crypto (0x04 # fe_to_bytes x @ fe_to_bytes y) = Some p
           \<and> encoded_ok toy_crypto (0x04 # fe_to_bytes x @ fe_to_bytes ((MOD_P - y) mod MOD_P))
           \<and> (\<exists>q. from_encoded toy_crypto (0x04 # fe_to_bytes x @ fe_to_bytes ((MOD_P - y) mod MOD_P)) = Some q
                \<and> pt_add toy_crypto p q = pt_zero toy_crypto)"
    if "p \<noteq> zn_of 0" for p
    using zn_val_less [of p] that zn_from_encoded [of "zn_val p"]
    by (intro exI [of _ "zn_val p"] exI [of _ 1]) (simp add: toy_crypto_def zn_val_eq_0 zn_laws(6))
  moreover have "zn_mul k (zn_of 1) = zn_of 0 \<Longrightarrow> ORDER_N dvd k" for k
    by transfer (auto simp: mod_simps ORDER_N_def)
  ultimately show ?thesis
    unfolding group_ok_def toy_generators
    by (auto simp: toy_crypto_def zn_laws(1,3,4,5) intro: zn_laws(2))
qed

lemma toy_gcm_ok: "gcm_ok toy_crypto"
  by (auto simp: gcm_ok_def toy_crypto_def min_def)

section \<open>Properties\<close>

text \<open>
  Two peers with the same password and iteration count compute the same shared secret, each
  from the other's blinded point: the peer that treats its partner as having used \<open>N\<close> and the
  peer that treats its partner as having used \<open>M\<close> both return, with the same result, which is 32
  bytes or, for both, the error of a zero coordinate. The two ephemeral scalars in play must not
  multiply to a multiple of the group order.
\<close>

theorem spake_agreement:
  assumes "group_ok c"
    and "state_from_scalars c iters password sm sn = Some alice"
    and "state_from_scalars c iters password sm' sn' = Some bob"
    and "\<not> ORDER_N dvd sm * sn'"
  shows "\<exists>r. compute_shared c alice (blinded_bytes_n bob) False = Some r
    \<and> compute_shared c bob (blinded_bytes_m alice) True = Some r
    \<and> (r = Inl SharedXZero \<or> (\<exists>secret. r = Inr secret \<and> length secret = 32))"
  using shared_agreement [OF assms] secret_of_cases [OF assms(1)] by metis

definition toy_alice :: spake_state where
  "toy_alice = \<lparr>pw_scalar = 5, scalar_m = 2, scalar_n = 3, blinded_m = (7, 1), blinded_n = (8, 1)\<rparr>"

definition toy_bob :: spake_state where
  "toy_bob = \<lparr>pw_scalar = 5, scalar_m = 4, scalar_n = 6, blinded_m = (9, 1), blinded_n = (11, 1)\<rparr>"

lemma toy_password: "password_to_scalar toy_crypto iters pw = Some 5"
proof -
  have "reduce_mod_n (pbkdf2 toy_crypto p s i) = Some 5" for p s i
    by (simp add: reduce_mod_n_eq toy_crypto_def be_nat_nat_be ORDER_N_def)
  then show ?thesis
    by (simp add: password_to_scalar_def password_loop.simps [of _ _ _ 0] Let_def)
qed

lemma toy_affine: "affine_xy toy_crypto (zn_of n) = (if n mod ORDER_N = 0 then None else Some (n mod ORDER_N, 1))"
proof -
  have "n mod ORDER_N < MOD_P" "1 < MOD_P"
    using mod_less_divisor [of ORDER_N n] by (simp_all add: ORDER_N_def MOD_P_def)
  then show ?thesis by (simp add: affine_xy_def toy_crypto_def)
qed

lemma toy_state:
  "state_from_scalars toy_crypto iters pw sm sn =
     (if (sm + 5) mod ORDER_N = 0 \<or> (sn + 5) mod ORDER_N = 0 then None
      else Some \<lparr>pw_scalar = 5, scalar_m = sm, scalar_n = sn, blinded_m = ((sm + 5) mod ORDER_N, 1),
                 blinded_n = ((sn + 5) mod ORDER_N, 1)\<rparr>)"
proof -
  have "add_affine toy_crypto (generator_scalar toy_crypto (zn_of 1) k) (generator_scalar toy_crypto (zn_of 1) 5)
    = (if (k + 5) mod ORDER_N = 0 then None else Some ((k + 5) mod ORDER_N, 1))" for k
  proof -
    have "add_affine toy_crypto (generator_scalar toy_crypto (zn_of 1) k) (generator_scalar toy_crypto (zn_of 1) 5)
      = affine_xy toy_crypto (zn_of (k + 5))"
      unfolding add_affine_def generator_scalar_def
      by (simp add: toy_crypto_def zn_mul_of zn_add_of)
    then show ?thesis by (simp only: toy_affine)
  qed
  then show ?thesis
    by (simp add: state_from_scalars_def toy_password toy_generators)
qed

theorem spake_agreement_witness:
  "\<exists>r. compute_shared toy_crypto toy_alice (blinded_bytes_n toy_bob) False = Some r
    \<and> compute_shared toy_crypto toy_bob (blinded_bytes_m toy_alice) True = Some r"
proof -
  have "state_from_scalars toy_crypto 600000 ''1234-a-b-c'' 2 3 = Some toy_alice"
    "state_from_scalars toy_crypto 600000 ''1234-a-b-c'' 4 6 = Some toy_bob"
    by (simp_all add: toy_state toy_alice_def toy_bob_def ORDER_N_def)
  moreover have "\<not> ORDER_N dvd 2 * 6" by (simp add: ORDER_N_def)
  ultimately show ?thesis using spake_agreement [OF toy_group_ok] by blast
qed

text \<open>
  Whatever the primitives, both peers derive the same session key and associated data, the
  roles of the two points and of the two fingerprints being exchanged, and a confirmation is
  accepted exactly when it is the one the peer computes for that nonce and those fingerprints.
\<close>

theorem keys_and_confirmation_agree:
  "derive_session_key c s a b fa fb = derive_session_key c s b a fb fa
   \<and> session_aad a b = session_aad b a
   \<and> (verify_confirm c k a b nonce fa fb m = Some True
      \<longleftrightarrow> compute_confirm c k b a nonce fb fa = Some (Inr m))"
  using derive_session_key_sym [of c s a b fa fb] session_aad_sym [of a b] verify_confirm_iff [of c k a b nonce fa fb m]
  by blast

text \<open>
  Metadata encrypted under a key and associated data decrypts under the same to what was
  encrypted, whatever the random nonce.
\<close>

theorem metadata_roundtrip:
  assumes "gcm_ok c" "length nonce = 12" "encrypt_metadata c nonce key aad data = Inr ct"
  shows "decrypt_metadata c key aad ct = Inr data"
  using assms by (rule decrypt_encrypt)

theorem metadata_roundtrip_witness:
  "decrypt_metadata toy_crypto (nat_be 32 9) [1, 2] (nat_be 12 3 @ take 16 (nat_be 32 9) @ [65, 66]) = Inr [65, 66]"
  by (rule metadata_roundtrip [OF toy_gcm_ok, of "nat_be 12 3"])
    (simp_all add: encrypt_metadata_def toy_crypto_def)

text \<open>
  The two reductions compute the remainder of a 256-bit big-endian number, although they
  subtract at most once and the subtraction wraps: no 32-byte input makes them panic.
\<close>

theorem reductions_exact:
  assumes "length b = 32"
  shows "reduce_mod_p b = Some (be_nat b mod MOD_P) \<and> reduce_mod_n b = Some (be_nat b mod ORDER_N)"
  using assms by (simp add: reduce_mod_p_eq reduce_mod_n_eq)

theorem reductions_exact_witness:
  "reduce_mod_n (replicate 32 0xFF) = Some (be_nat (replicate 32 0xFF) mod ORDER_N)"
  using reductions_exact [of "replicate 32 0xFF"] by simp

text \<open>
  C32. Hashing to the curve ends at the first counter value whose candidate has a square root, and
  returns the point with that candidate's coordinates.
\<close>

theorem hash_to_curve_first:
  assumes "\<And>m. length (sha256 c m) = 32"
    and "\<And>i. i < k \<Longrightarrow> hash_candidate c (sha256 c seed) (word_of_nat i) = None"
    and "hash_candidate c (sha256 c seed) (word_of_nat k) = Some (x, y)"
  shows "hash_to_curve c seed = point_from_xy c x y"
  using hash_loop_first [of c k "sha256 c seed" 0 x y] assms by (simp add: hash_to_curve_def)

text \<open>In this instance the candidate zero is rejected and the next one accepted.\<close>

definition second_try :: "zn crypto" where
  "second_try = toy_crypto\<lparr>sha256 := (\<lambda>m. if drop 39 m = [0] then nat_be 32 0 else nat_be 32 1)\<rparr>"

lemma drop_counter: "drop 7 (nat_be 8 n) = [word_of_nat (n mod 256)]"
  using nat_be.simps(2) [of 7 n] by simp

lemma length_second_try: "length (sha256 second_try m) = 32"
  by (simp add: second_try_def)

theorem hash_to_curve_first_witness: "hash_to_curve second_try M_SEED = point_from_xy second_try 1 1"
proof (rule hash_to_curve_first [where k = 1])
  show "length (sha256 second_try m) = 32" for m by (rule length_second_try)
  have step: "be_nat (sha256 second_try (sha256 second_try M_SEED @ nat_be 8 n))
      = (if word_of_nat (n mod 256) = (0 :: byte) then 0 else 1)" for n
    by (subst second_try_def) (simp add: drop_counter length_second_try be_nat_nat_be)
  have "be_nat (sha256 second_try (sha256 second_try M_SEED @ nat_be 8 0)) = 0"
    by (simp add: step)
  then show "hash_candidate second_try (sha256 second_try M_SEED) (word_of_nat i) = None" if "i < 1" for i
    using that by (simp add: hash_candidate_def)
  have "be_nat (sha256 second_try (sha256 second_try M_SEED @ nat_be 8 1)) = 1"
    by (simp add: step)
  then show "hash_candidate second_try (sha256 second_try M_SEED) (word_of_nat 1) = Some (1, 1)"
    by (simp add: hash_candidate_def compute_weierstrass_y_def second_try_def toy_crypto_def MOD_P_def)
qed

text \<open>
  The iteration count is narrowed to 32 bits by \<^verbatim>\<open>as u32\<close>, which keeps the low bits and does not
  saturate: a request for 4294967297 iterations is accepted as being above the minimum and runs
  the derivation once.
\<close>

lemma kdf_iterations_truncates: "kdf_iterations (\<lambda>_. Some ''4294967297'') = 1"
  by (simp add: kdf_iterations_def parse_i64_def digit_val_def is_ascii_digit_def MIN_KDF_ITERATIONS_def)

end
