(* ===== verification/Exchange_Agree.thy ===== *)
theory Exchange_Agree
  imports Exchange Spake2_Model
begin

text \<open>
  Two peers that receive each other's SPAKE2 payload end with the same keys, opposite roles and
  exchanged points, and the confirmation either of them builds is accepted by the other, which
  reads the address in it.
\<close>

section \<open>White space\<close>

lemma trim_ascii_eq:
  "trim_ascii b = (if b \<noteq> [] \<and> (\<forall>c \<in> set b. c \<in> set ws_bytes) then None else Some (trim_spec b))"
proof (cases "\<forall>c \<in> set b. c \<in> set ws_bytes")
  case True
  then have tw: "takeWhile (\<lambda>c. c \<in> set ws_bytes) b = b" "takeWhile (\<lambda>c. c \<in> set ws_bytes) (rev b) = rev b"
    by (simp_all add: takeWhile_eq_all_conv)
  from True show ?thesis unfolding trim_ascii_def tw by (simp add: trim_spec_def)
next
  case False
  let ?ws = "\<lambda>c. c \<in> set ws_bytes"
  let ?y = "dropWhile ?ws b" and ?t = "takeWhile ?ws b"
  from False obtain c where c: "c \<in> set b" "\<not> ?ws c" by blast
  have b: "rev b = rev ?y @ rev ?t" by (metis rev_append takeWhile_dropWhile_id)
  have y: "c \<in> set ?y" using c by (metis UnE set_append set_takeWhileD takeWhile_dropWhile_id)
  then have tw: "takeWhile ?ws (rev b) = takeWhile ?ws (rev ?y)"
    unfolding b using c takeWhile_append1 [of c "rev ?y" ?ws] by simp
  have len: "length b = length ?t + length ?y" by (metis length_append takeWhile_dropWhile_id)
  define z where "z = length (takeWhile ?ws (rev ?y))"
  have z: "z \<le> length ?y" unfolding z_def using length_takeWhile_le [of ?ws "rev ?y"] by simp
  have spec: "trim_spec b = take (length ?y - z) ?y"
    unfolding trim_spec_def rev_dropWhile_rev z_def ..
  have "\<not> length b - z < length ?t" using z len by linarith
  then have "trim_ascii b = Some (take (length b - z - length ?t) (drop (length ?t) b))"
    unfolding trim_ascii_def tw z_def [symmetric] Let_def by (rule if_not_P)
  also have "drop (length ?t) b = ?y" by (rule dropWhile_eq_drop [symmetric])
  also have "length b - z - length ?t = length ?y - z" using len by linarith
  finally show ?thesis using False spec by auto
qed

section \<open>What the crates promise, continued\<close>

definition kdf_ok :: "'p crypto \<Rightarrow> bool" where
  "kdf_ok c \<longleftrightarrow>
     (\<forall>salt ikm info. \<exists>key. hkdf_expand c salt ikm info = Some key \<and> length key = 64)
   \<and> (\<forall>k m. \<exists>t. hmac256 c k m = Some t \<and> length t = 32)
   \<and> (\<forall>key nonce aad msg. length key = 32 \<longrightarrow>
        gcm_key_ok c key \<and> (\<exists>ct. gcm_encrypt c key nonce aad msg = Some ct \<and> length ct = length msg + 16))"

lemma length_take_pad: "length (take n (xs @ nat_be n m)) = n"
  by (simp del: take_append)

lemma toy_kdf_ok: "kdf_ok toy_crypto"
  by (simp add: kdf_ok_def toy_crypto_def length_take_pad del: take_append)

section \<open>Keys and roles\<close>

definition spake2_body :: "spake_state \<Rightarrow> byte list \<Rightarrow> string" where
  "spake2_body st fp = to_hex_lower (blinded_bytes_m st @ blinded_bytes_n st @ fp)"

lemma length_marshal_point [simp]: "length (marshal_point xy) = 65"
  by (cases xy) (simp add: marshal_point_def)

lemma length_blinded [simp]: "length (blinded_bytes_m st) = 65" "length (blinded_bytes_n st) = 65"
  by (simp_all add: blinded_bytes_m_def blinded_bytes_n_def)

text \<open>The session as the side that takes the client's role, or the server's, sees it.\<close>

definition session_of ::
    "'p crypto \<Rightarrow> byte list \<Rightarrow> spake_state \<Rightarrow> spake_state \<Rightarrow> byte list \<Rightarrow> byte list \<Rightarrow> bool
     \<Rightarrow> (exchange_error + processed_spake) option" where
  "session_of c shared me peer my_fp peer_fp server =
     (let my = (if server then blinded_bytes_n me else blinded_bytes_m me);
          other = (if server then blinded_bytes_m peer else blinded_bytes_n peer)
      in case derive_session_key c shared my other my_fp peer_fp of
           None \<Rightarrow> None
         | Some (Inl e) \<Rightarrow> Some (Inl (DeriveKey e))
         | Some (Inr (ck, ek)) \<Rightarrow>
             Some (Inr \<lparr>effective_my_point = my, effective_peer_point = other, peer_fingerprint = peer_fp,
                        is_server = server, confirm_key = ck, enc_key = ek\<rparr>))"

lemma process_spake_body:
  assumes "length my_fp = 32" "length peer_fp = 32" "my_fp \<noteq> peer_fp"
    and "blinded_bytes_m me \<noteq> blinded_bytes_m peer"
    and "server = (blinded_bytes_m me > blinded_bytes_m peer)"
  shows "process_spake_msg c (spake2_body peer peer_fp) me (blinded_bytes_m me) (blinded_bytes_n me) my_fp =
    (case compute_shared c me (if server then blinded_bytes_m peer else blinded_bytes_n peer) server of
       None \<Rightarrow> None
     | Some (Inl e) \<Rightarrow> Some (Inl (Spake2State e))
     | Some (Inr shared) \<Rightarrow> session_of c shared me peer my_fp peer_fp server)"
proof -
  have "hex_decode (spake2_body peer peer_fp) = Some (blinded_bytes_m peer @ blinded_bytes_n peer @ peer_fp)"
    by (simp add: spake2_body_def hex_decode_encode)
  with assms show ?thesis
    by (simp add: process_spake_msg_def exchange_sizes session_of_def Let_def split: option.splits sum.splits)
qed

lemma n_generator_affine:
  assumes c: "group_ok c" and n: "n_generator c = Some g"
  obtains x y where "affine_xy c g = Some (x, y)"
proof -
  have "pt_mul c 1 g \<noteq> pt_zero c"
    using group_order [OF c, of g 1] n by (auto simp: ORDER_N_def)
  then have "g \<noteq> pt_zero c" using group_laws(3-5) [OF c] by (metis One_nat_def)
  then show thesis using encoded_point [OF c] that by metis
qed

lemma derive_total:
  assumes c: "group_ok c" and k: "kdf_ok c" and n: "n_generator c = Some g"
    and f: "length fa = 32" "length fb = 32" "fa \<noteq> fb"
  shows "\<exists>ck ek. derive_session_key c s a b fa fb = Some (Inr (ck, ek)) \<and> length ck = 32 \<and> length ek = 32"
proof -
  obtain x y where xy: "affine_xy c g = Some (x, y)" by (rule n_generator_affine [OF c n])
  have "\<exists>salt. derive_session_key c s a b fa fb =
      (case hkdf_expand c salt s SESSION_INFO of
         None \<Rightarrow> Some (Inl Hkdf) | Some key \<Rightarrow> Some (Inr (take 32 key, drop 32 key)))"
    using f n xy by (auto simp: derive_session_key_def aad_with_generators_def)
  then obtain salt where salt: "derive_session_key c s a b fa fb =
      (case hkdf_expand c salt s SESSION_INFO of
         None \<Rightarrow> Some (Inl Hkdf) | Some key \<Rightarrow> Some (Inr (take 32 key, drop 32 key)))" ..
  obtain key where "hkdf_expand c salt s SESSION_INFO = Some key" "length key = 64"
    using k unfolding kdf_ok_def by blast
  with salt show ?thesis by simp
qed

definition agreed :: "processed_spake \<Rightarrow> processed_spake \<Rightarrow> byte list \<Rightarrow> byte list \<Rightarrow> bool" where
  "agreed pa pb fa fb \<longleftrightarrow>
     is_server pa \<noteq> is_server pb
   \<and> confirm_key pa = confirm_key pb \<and> enc_key pa = enc_key pb
   \<and> length (confirm_key pa) = 32 \<and> length (enc_key pa) = 32
   \<and> effective_my_point pa = effective_peer_point pb \<and> effective_peer_point pa = effective_my_point pb
   \<and> peer_fingerprint pa = fb \<and> peer_fingerprint pb = fa"

lemma agreed_sym: "agreed pa pb fa fb \<Longrightarrow> agreed pb pa fb fa"
  by (auto simp: agreed_def)

text \<open>The case in which the first peer is the client.\<close>

lemma agreement_oriented:
  assumes c: "group_ok c" and k: "kdf_ok c"
    and sa: "state_from_scalars c iters password sm sn = Some alice"
    and sb: "state_from_scalars c iters password sm' sn' = Some bob"
    and nz: "\<not> ORDER_N dvd sm * sn'"
    and f: "length fa = 32" "length fb = 32" "fa \<noteq> fb"
    and less: "blinded_bytes_m alice < blinded_bytes_m bob"
  shows "let ra = process_spake_msg c (spake2_body bob fb) alice (blinded_bytes_m alice) (blinded_bytes_n alice) fa;
             rb = process_spake_msg c (spake2_body alice fa) bob (blinded_bytes_m bob) (blinded_bytes_n bob) fb
         in ra = Some (Inl (Spake2State SharedXZero)) \<and> rb = Some (Inl (Spake2State SharedXZero))
          \<or> (\<exists>pa pb. ra = Some (Inr pa) \<and> rb = Some (Inr pb) \<and> agreed pa pb fa fb)"
proof -
  obtain g where g: "pt_mul c (sm * sn') g \<noteq> pt_zero c"
    "compute_shared c alice (blinded_bytes_n bob) False = secret_of c (pt_mul c (sm * sn') g)"
    "compute_shared c bob (blinded_bytes_m alice) True = secret_of c (pt_mul c (sm * sn') g)"
    using shared_agreement [OF c sa sb nz] by blast
  obtain ng where ng: "n_generator c = Some ng" using state_from_scalarsD [OF sa] by metis
  have ne: "blinded_bytes_m alice \<noteq> blinded_bytes_m bob" using less by (rule order.strict_implies_not_eq)
  have ra: "process_spake_msg c (spake2_body bob fb) alice (blinded_bytes_m alice) (blinded_bytes_n alice) fa =
      (case secret_of c (pt_mul c (sm * sn') g) of None \<Rightarrow> None
       | Some (Inl e) \<Rightarrow> Some (Inl (Spake2State e))
       | Some (Inr shared) \<Rightarrow> session_of c shared alice bob fa fb False)"
    using process_spake_body [OF f ne, where c = c and server = False] less_not_sym [OF less] g by simp
  have rb: "process_spake_msg c (spake2_body alice fa) bob (blinded_bytes_m bob) (blinded_bytes_n bob) fb =
      (case secret_of c (pt_mul c (sm * sn') g) of None \<Rightarrow> None
       | Some (Inl e) \<Rightarrow> Some (Inl (Spake2State e))
       | Some (Inr shared) \<Rightarrow> session_of c shared bob alice fb fa True)"
    using process_spake_body [OF f(2,1) f(3) [symmetric] ne [symmetric], where c = c and server = True] less g by simp
  show ?thesis
  proof (cases "secret_of c (pt_mul c (sm * sn') g) = Some (Inl SharedXZero)")
    case True
    with ra rb show ?thesis by simp
  next
    case False
    then obtain s where s: "secret_of c (pt_mul c (sm * sn') g) = Some (Inr s)"
      using secret_of_cases [OF c g(1)] by blast
    obtain ck ek where ke: "derive_session_key c s (blinded_bytes_m alice) (blinded_bytes_n bob) fa fb = Some (Inr (ck, ek))"
      "length ck = 32" "length ek = 32"
      using derive_total [OF c k ng f] by blast
    with derive_session_key_sym [of c s "blinded_bytes_m alice"] s ra rb show ?thesis
      by (simp add: session_of_def agreed_def)
  qed
qed

lemma agreement_either:
  assumes "group_ok c" "kdf_ok c"
    and "state_from_scalars c iters code sm sn = Some alice"
    and "state_from_scalars c iters code sm' sn' = Some bob"
    and "\<not> ORDER_N dvd sm * sn'" "\<not> ORDER_N dvd sm' * sn"
    and "length fa = 32" "length fb = 32" "fa \<noteq> fb"
    and "blinded_bytes_m alice \<noteq> blinded_bytes_m bob"
  shows "let ra = process_spake_msg c (spake2_body bob fb) alice (blinded_bytes_m alice) (blinded_bytes_n alice) fa;
             rb = process_spake_msg c (spake2_body alice fa) bob (blinded_bytes_m bob) (blinded_bytes_n bob) fb
         in ra = Some (Inl (Spake2State SharedXZero)) \<and> rb = Some (Inl (Spake2State SharedXZero))
          \<or> (\<exists>pa pb. ra = Some (Inr pa) \<and> rb = Some (Inr pb) \<and> agreed pa pb fa fb)"
proof (cases "blinded_bytes_m alice < blinded_bytes_m bob")
  case True
  then show ?thesis using agreement_oriented [OF assms(1-5,7-9)] by blast
next
  case False
  with assms(10) have "blinded_bytes_m bob < blinded_bytes_m alice" by (simp add: not_less order.strict_iff_order)
  from agreement_oriented [OF assms(1,2,4,3,6,8,7) assms(9) [symmetric] this] agreed_sym
  show ?thesis unfolding Let_def by blast
qed

section \<open>Confirmation\<close>

lemma confirm_total:
  assumes c: "group_ok c" and k: "kdf_ok c" and n: "n_generator c = Some g"
    and f: "length fa = 32" "length fb = 32" "fa \<noteq> fb" and ne: "nonce \<noteq> []"
  shows "\<exists>mac. compute_confirm c key a b nonce fa fb = Some (Inr mac) \<and> length mac = 32"
proof -
  obtain x y where xy: "affine_xy c g = Some (x, y)" by (rule n_generator_affine [OF c n])
  have "\<exists>m. compute_confirm c key a b nonce fa fb =
      (case hmac256 c key m of None \<Rightarrow> Some (Inl Hmac) | Some mac \<Rightarrow> Some (Inr mac))"
    using f n xy ne by (auto simp: compute_confirm_def)
  then obtain m where m: "compute_confirm c key a b nonce fa fb =
      (case hmac256 c key m of None \<Rightarrow> Some (Inl Hmac) | Some mac \<Rightarrow> Some (Inr mac))" ..
  obtain t where "hmac256 c key m = Some t" "length t = 32" using k unfolding kdf_ok_def by blast
  with m show ?thesis by simp
qed

definition rand_ok :: "confirm_rand \<Rightarrow> bool" where
  "rand_ok rnd \<longleftrightarrow> length (r_nonce rnd) = 16 \<and> length (r_gcm_nonce rnd) = 12 \<and> (\<forall>n. length (r_pad rnd n) = n)"

definition plain_addr :: "string \<Rightarrow> bool" where
  "plain_addr a \<longleftrightarrow> length a \<le> 52 \<and> (\<forall>c \<in> set a. 0 < (of_char c :: nat) \<and> (of_char c :: nat) < 128)"

lemma of_char_byte: "unat (of_char c :: byte) = of_char c"
  by (simp add: unat_of_char)

lemma read_plain_addr:
  assumes "plain_addr a"
  shows "concat (map char_from_byte (takeWhile (\<lambda>b. b \<noteq> 0) (bytes_of a @ replicate n 0))) = a"
proof -
  have nz: "(of_char c :: byte) \<noteq> 0 \<and> char_from_byte (of_char c) = [c]" if "c \<in> set a" for c
  proof -
    from assms that have c: "0 < (of_char c :: nat)" "(of_char c :: nat) < 128" by (auto simp: plain_addr_def)
    then have "unat (of_char c :: byte) \<noteq> 0" by (simp add: of_char_byte)
    then have "(of_char c :: byte) \<noteq> 0" by (metis unat_0)
    moreover have "(of_char c :: byte) < 128" using c by (simp add: word_less_nat_alt of_char_byte)
    ultimately show ?thesis by (simp add: char_from_byte_def of_char_byte)
  qed
  have "takeWhile (\<lambda>b. b \<noteq> 0) (bytes_of a @ replicate n 0) = bytes_of a"
    using nz by (subst takeWhile_append2) (auto simp: bytes_of_def)
  moreover have "concat (map char_from_byte (bytes_of a)) = a"
    using nz by (induction a) (auto simp: bytes_of_def)
  ultimately show ?thesis by simp
qed

lemma confirm_roundtrip:
  assumes c: "group_ok c" and k: "kdf_ok c" and gcm: "gcm_ok c" and n: "n_generator c = Some g"
    and f: "length fa = 32" "length fb = 32" "fa \<noteq> fb" and ek: "length ek = 32"
    and rnd: "rand_ok rnd" and addr: "plain_addr addr"
  shows "\<exists>cp. build_confirm_payload c rnd ck ek my peer fa fb addr = Some (Inr cp) \<and> length cp = 160
    \<and> process_confirm_msg c (to_hex_lower cp) ck ek peer my fb fa = Some (Inr addr)"
proof -
  from rnd have r: "length (r_nonce rnd) = 16" "length (r_gcm_nonce rnd) = 12" "length (r_pad rnd 32) = 32"
    by (simp_all add: rand_ok_def)
  then have "r_nonce rnd \<noteq> []" by auto
  then obtain mac where mac: "compute_confirm c ck my peer (r_nonce rnd) fa fb = Some (Inr mac)" "length mac = 32"
    using confirm_total [OF c k n f] by blast
  define plain where "plain = bytes_of addr @ replicate (52 - length addr) 0"
  have plain: "length (bytes_of addr) = length addr" "length addr \<le> 52" "length plain = 52"
    using addr by (simp_all add: plain_def bytes_of_def plain_addr_def)
  define aad where "aad = session_aad my peer"
  obtain ct where ct: "gcm_key_ok c ek" "gcm_encrypt c ek (r_gcm_nonce rnd) aad plain = Some ct" "length ct = 68"
    using k ek plain(3) unfolding kdf_ok_def by fastforce
  define enc where "enc = r_gcm_nonce rnd @ ct"
  have enc: "encrypt_metadata c (r_gcm_nonce rnd) ek aad plain = Inr enc" "length enc = 80"
    using ct r by (simp_all add: encrypt_metadata_def enc_def)
  define cp where "cp = r_nonce rnd @ mac @ enc @ r_pad rnd 32"
  have len: "length cp = 160" using r mac enc by (simp add: cp_def)
  have build: "build_confirm_payload c rnd ck ek my peer fa fb addr = Some (Inr cp)"
    using mac plain enc r
    by (simp add: build_confirm_payload_def exchange_sizes aad_def [symmetric] plain_def [symmetric] cp_def)
  have dec: "decrypt_metadata c ek aad enc = Inr plain" by (rule decrypt_encrypt [OF gcm r(2) enc(1)])
  have ver: "verify_confirm c ck peer my (r_nonce rnd) fb fa mac = Some True"
    using mac by (simp add: verify_confirm_iff)
  have parts: "take 16 cp = r_nonce rnd" "take 32 (drop 16 cp) = mac" "take 80 (drop 48 cp) = enc"
    using r mac enc by (simp_all add: cp_def)
  have "process_confirm_msg c (to_hex_lower cp) ck ek peer my fb fa = Some (Inr addr)"
    using len parts ver dec read_plain_addr [OF addr, of "52 - length addr"]
    by (simp add: process_confirm_msg_def hex_decode_encode exchange_sizes session_aad_sym [of peer my]
        aad_def [symmetric] plain_def [symmetric])
  with build len show ?thesis by blast
qed

section \<open>Properties\<close>


lemma toy_states:
  "state_from_scalars toy_crypto 600000 ''1234-a-b-c'' 2 3 = Some toy_alice"
  "state_from_scalars toy_crypto 600000 ''1234-a-b-c'' 4 6 = Some toy_bob"
  by (simp_all add: toy_state toy_alice_def toy_bob_def ORDER_N_def)

lemma fe_to_bytes_neq: "x < MOD_P \<Longrightarrow> y < MOD_P \<Longrightarrow> x \<noteq> y \<Longrightarrow> marshal_point (x, a) \<noteq> marshal_point (y, b)"
  by (simp add: marshal_point_def fe_to_bytes_inject)

lemma nat_be_neq: "a mod 256 ^ k \<noteq> b mod 256 ^ k \<Longrightarrow> nat_be k a \<noteq> nat_be k b"
  by (metis be_nat_nat_be)


text \<open>
  C24. The confirmation one peer builds with the session's keys is 160 bytes and the other peer
  accepts it and reads the address in it, for every address of at most 52 ASCII characters and
  all random bytes.
\<close>

theorem confirmation_accepted:
  assumes "group_ok c" "kdf_ok c" "gcm_ok c" "n_generator c = Some g"
    and "length fa = 32" "length fb = 32" "fa \<noteq> fb" "length ek = 32" "rand_ok rnd" "plain_addr addr"
  shows "\<exists>cp. build_confirm_payload c rnd ck ek my peer fa fb addr = Some (Inr cp) \<and> length cp = 160
    \<and> process_confirm_msg c (to_hex_lower cp) ck ek peer my fb fa = Some (Inr addr)"
  using assms by (rule confirm_roundtrip)

definition toy_rand :: confirm_rand where
  "toy_rand = \<lparr>r_nonce = nat_be 16 77, r_gcm_nonce = nat_be 12 5, r_pad = (\<lambda>n. nat_be n 0)\<rparr>"

lemma toy_rand_ok: "rand_ok toy_rand"
  by (simp add: rand_ok_def toy_rand_def)

theorem confirmation_accepted_witness:
  "\<exists>cp. build_confirm_payload toy_crypto toy_rand (nat_be 32 1) (nat_be 32 2) [4, 1] [4, 2]
          (nat_be 32 1) (nat_be 32 2) ''10.0.0.1:4711'' = Some (Inr cp) \<and> length cp = 160
    \<and> process_confirm_msg toy_crypto (to_hex_lower cp) (nat_be 32 1) (nat_be 32 2) [4, 2] [4, 1]
          (nat_be 32 2) (nat_be 32 1) = Some (Inr ''10.0.0.1:4711'')"
  by (rule confirmation_accepted [OF toy_group_ok toy_kdf_ok toy_gcm_ok toy_generators(3)])
    (simp_all add: toy_rand_ok plain_addr_def nat_be_neq)

text \<open>
  Trimming removes white space at both ends, except that it panics on a datagram that is not
  empty and is white space only: the two counts then overlap and the slice bounds are reversed.
  Such a datagram from the relay's address ends the exchange with a panic.
\<close>

theorem trim_ascii_panics:
  "trim_ascii b = (if b \<noteq> [] \<and> (\<forall>c \<in> set b. c \<in> set ws_bytes) then None else Some (trim_spec b))
   \<and> exchange_recv c p rnd now '' '' st = None"
proof
  show "trim_ascii b = (if b \<noteq> [] \<and> (\<forall>c \<in> set b. c \<in> set ws_bytes) then None else Some (trim_spec b))"
    by (rule trim_ascii_eq)
  have "trim_ascii '' '' = None" by (simp add: trim_ascii_eq ws_bytes_of_char)
  then show "exchange_recv c p rnd now '' '' st = None"
    by (simp add: exchange_recv_def READ_BUFFER_SIZE_def)
qed

theorem trim_ascii_panics_witness: "trim_ascii [CHR 9, CHR 10] = None"
  using trim_ascii_panics [where b = "[CHR 9, CHR 10]" and c = toy_crypto] by (simp add: ws_bytes_of_char)

end
