(* ===== verification/Relay_State.thy ===== *)
theory Relay_State
  imports Room Hex Env
begin

text \<open>
  \<^verbatim>\<open>crates/qvole-relay/src/relay.rs\<close>, first half: constants, configuration, the state of the
  relay, the per-IP room links, the store of registrations that wait for a room to exist, the
  sweeps, the registration limiter and the paths that drop or send a datagram.

  The mutexes of the source guard single tables; each operation here is one critical section (or
  a sequence of them run without interruption). The atomic counters are 64-bit words, so that an
  underflow of \<^verbatim>\<open>fetch_sub\<close> would show. The configuration values that the relay holds
  atomically are fields of their own, as in the source. A \<^verbatim>\<open>HashSet\<close> is a map to \<^typ>\<open>unit\<close>, as
  in the standard library.
\<close>

section \<open>Constants and configuration\<close>

definition READ_BUF_SIZE :: nat where "READ_BUF_SIZE = 1500"
definition CMD_PREFIX_LEN :: nat where "CMD_PREFIX_LEN = 4"
definition MAX_MSG_BODY_LEN :: nat where "MAX_MSG_BODY_LEN = 1024"
definition DROP_LOG_INTERVAL :: duration where "DROP_LOG_INTERVAL = from_secs 1"
definition RATE_MAP_CLEANUP_INTERVAL :: duration where "RATE_MAP_CLEANUP_INTERVAL = from_secs 5"

record config =
  cfg_pkt_chan_buf :: usize
  cfg_write_pool_size :: usize
  cfg_relay_stats_interval :: duration
  cfg_write_deadline :: duration
  cfg_max_rooms :: int
  cfg_max_rooms_per_ip :: int
  cfg_max_msg_rate :: int
  cfg_max_reg_rate :: int
  cfg_rate_window :: duration
  cfg_reg_cleanup_interval :: duration
  cfg_reg_ttl :: duration
  cfg_relay_workers :: usize
  cfg_max_clients_hard :: int
  cfg_max_pending_per_ip :: int
  cfg_max_pending_global :: int
  cfg_max_pending_per_room :: int
  cfg_max_clients_per_prefix_per_room :: int

definition config_defaults :: config where
  "config_defaults = \<lparr>
     cfg_pkt_chan_buf = 256,
     cfg_write_pool_size = 256,
     cfg_relay_stats_interval = from_millis (5 * 60 * 1000),
     cfg_write_deadline = from_millis 500,
     cfg_max_rooms = 10000,
     cfg_max_rooms_per_ip = 10,
     cfg_max_msg_rate = 10,
     cfg_max_reg_rate = 10,
     cfg_rate_window = from_millis 1000,
     cfg_reg_cleanup_interval = from_millis 60000,
     cfg_reg_ttl = from_millis 60000,
     cfg_relay_workers = 4,
     cfg_max_clients_hard = 20,
     cfg_max_pending_per_ip = 50,
     cfg_max_pending_global = 65536,
     cfg_max_pending_per_room = 256,
     cfg_max_clients_per_prefix_per_room = 4\<rparr>"

text \<open>\<^verbatim>\<open>Duration::as_millis\<close>.\<close>

definition as_millis :: "duration \<Rightarrow> nat" where
  "as_millis d = d div 1000000"

definition config_from_env :: "(string \<Rightarrow> string option) \<Rightarrow> config" where
  "config_from_env getenv = (let d = config_defaults in \<lparr>
     cfg_pkt_chan_buf = word_of_int (env_int getenv ''QVOLE_RELAY_PKT_CHAN_BUF'' (uint (cfg_pkt_chan_buf d))),
     cfg_write_pool_size = word_of_int (env_int getenv ''QVOLE_RELAY_WRITE_POOL'' (uint (cfg_write_pool_size d))),
     cfg_relay_stats_interval = from_millis (env_duration_ms getenv ''QVOLE_RELAY_STATS_INTERVAL_MS''
       (as_millis (cfg_relay_stats_interval d))),
     cfg_write_deadline = from_millis (env_duration_ms getenv ''QVOLE_RELAY_WRITE_DEADLINE_MS''
       (as_millis (cfg_write_deadline d))),
     cfg_max_rooms = env_int getenv ''QVOLE_RELAY_MAX_ROOMS'' (cfg_max_rooms d),
     cfg_max_rooms_per_ip = env_int getenv ''QVOLE_RELAY_MAX_ROOMS_PER_IP'' (cfg_max_rooms_per_ip d),
     cfg_max_msg_rate = env_int getenv ''QVOLE_RELAY_MSG_RATE'' (cfg_max_msg_rate d),
     cfg_max_reg_rate = env_int getenv ''QVOLE_RELAY_REG_RATE'' (cfg_max_reg_rate d),
     cfg_rate_window = from_millis (env_duration_ms getenv ''QVOLE_RELAY_RATE_WINDOW_MS''
       (as_millis (cfg_rate_window d))),
     cfg_reg_cleanup_interval = from_millis (env_duration_ms getenv ''QVOLE_RELAY_CLEANUP_INTERVAL_MS''
       (as_millis (cfg_reg_cleanup_interval d))),
     cfg_reg_ttl = from_millis (env_duration_ms getenv ''QVOLE_RELAY_TTL_MS'' (as_millis (cfg_reg_ttl d))),
     cfg_relay_workers = word_of_int (env_int getenv ''QVOLE_RELAY_WORKERS'' (uint (cfg_relay_workers d))),
     cfg_max_clients_hard = env_int getenv ''QVOLE_RELAY_MAX_CLIENTS_HARD'' (cfg_max_clients_hard d),
     cfg_max_pending_per_ip = env_int getenv ''QVOLE_RELAY_MAX_PENDING_PER_IP'' (cfg_max_pending_per_ip d),
     cfg_max_pending_global = env_int getenv ''QVOLE_RELAY_MAX_PENDING'' (cfg_max_pending_global d),
     cfg_max_pending_per_room = env_int getenv ''QVOLE_RELAY_MAX_PENDING_PER_ROOM'' (cfg_max_pending_per_room d),
     cfg_max_clients_per_prefix_per_room =
       env_int getenv ''QVOLE_RELAY_MAX_CLIENTS_PER_PREFIX_PER_ROOM'' (cfg_max_clients_per_prefix_per_room d)\<rparr>)"

section \<open>State\<close>

record stats_snapshot =
  regs :: usize
  msgs :: usize
  drops :: usize

record relay =
  cfg :: config
  shards :: "(string, room_entry) shards"
  reg_shards :: "reg_shard list"
  ip_counts :: "(ip_addr, string, unit) nested"
  pending_shards :: "(string, socket_addr, pending_reg) nested"
  pending_ip_shards :: "(ip_addr, nat) shards"
  pending_total :: usize
  drop_log_limiter :: drop_log_limiter
  total_room_count :: usize
  stat_regs :: usize
  stat_msgs :: usize
  stat_drops :: usize
  r_max_rooms :: usize
  r_max_rooms_per_ip :: usize
  r_max_clients_hard :: usize
  r_max_msg_rate :: usize
  r_max_reg_rate :: usize
  rate_window_ms :: u64
  reg_ttl_ms :: u64
  r_max_pending_per_ip :: usize
  r_max_pending_global :: usize
  r_max_pending_per_room :: usize
  r_max_clients_per_prefix_per_room :: usize
  write_pool :: "usize option"

definition with_config :: "instant \<Rightarrow> config \<Rightarrow> relay" where
  "with_config now c = \<lparr>
     cfg = c,
     shards = replicate NUM_SHARDS [],
     reg_shards = replicate NUM_REG_SHARDS reg_shard_default,
     ip_counts = replicate NUM_SHARDS [],
     pending_shards = replicate NUM_SHARDS [],
     pending_ip_shards = replicate NUM_SHARDS [],
     pending_total = 0,
     drop_log_limiter = drop_log_limiter_new now,
     total_room_count = 0,
     stat_regs = 0,
     stat_msgs = 0,
     stat_drops = 0,
     r_max_rooms = word_of_int (cfg_max_rooms c),
     r_max_rooms_per_ip = word_of_int (cfg_max_rooms_per_ip c),
     r_max_clients_hard = word_of_int (cfg_max_clients_hard c),
     r_max_msg_rate = word_of_int (cfg_max_msg_rate c),
     r_max_reg_rate = word_of_int (cfg_max_reg_rate c),
     rate_window_ms = word_of_nat (as_millis (cfg_rate_window c)),
     reg_ttl_ms = word_of_nat (as_millis (cfg_reg_ttl c)),
     r_max_pending_per_ip = word_of_int (cfg_max_pending_per_ip c),
     r_max_pending_global = word_of_int (cfg_max_pending_global c),
     r_max_pending_per_room = word_of_int (cfg_max_pending_per_room c),
     r_max_clients_per_prefix_per_room = word_of_int (cfg_max_clients_per_prefix_per_room c),
     write_pool = None\<rparr>"

definition relay_new :: "(string \<Rightarrow> string option) \<Rightarrow> instant \<Rightarrow> relay" where
  "relay_new getenv now = with_config now (config_from_env getenv)"

text \<open>The accessors; two of them narrow to 32 bits.\<close>

definition max_rooms :: "relay \<Rightarrow> usize" where "max_rooms r = r_max_rooms r"
definition max_rooms_per_ip :: "relay \<Rightarrow> nat" where "max_rooms_per_ip r = unat (r_max_rooms_per_ip r)"
definition max_clients_hard :: "relay \<Rightarrow> nat" where "max_clients_hard r = unat (r_max_clients_hard r)"
definition max_msg_rate :: "relay \<Rightarrow> u32" where "max_msg_rate r = ucast (r_max_msg_rate r)"
definition max_reg_rate :: "relay \<Rightarrow> u32" where "max_reg_rate r = ucast (r_max_reg_rate r)"
definition rate_window :: "relay \<Rightarrow> duration" where "rate_window r = from_millis (unat (rate_window_ms r))"
definition reg_ttl :: "relay \<Rightarrow> duration" where "reg_ttl r = from_millis (unat (reg_ttl_ms r))"
definition max_pending_per_ip :: "relay \<Rightarrow> nat" where "max_pending_per_ip r = unat (r_max_pending_per_ip r)"
definition max_pending_global :: "relay \<Rightarrow> usize" where "max_pending_global r = r_max_pending_global r"
definition max_pending_per_room :: "relay \<Rightarrow> nat" where "max_pending_per_room r = unat (r_max_pending_per_room r)"
definition max_clients_per_prefix_per_room :: "relay \<Rightarrow> nat" where
  "max_clients_per_prefix_per_room r = unat (r_max_clients_per_prefix_per_room r)"

definition total_rooms :: "relay \<Rightarrow> usize" where
  "total_rooms r = total_room_count r"

definition total_clients :: "relay \<Rightarrow> nat" where
  "total_clients r =
     foldl (\<lambda>n g. foldl (\<lambda>n (_, e). n + length (udp_clients e)) n g) 0 (shards r)"

definition stats :: "relay \<Rightarrow> stats_snapshot" where
  "stats r = \<lparr>regs = stat_regs r, msgs = stat_msgs r, drops = stat_drops r\<rparr>"


section \<open>Per-IP room links\<close>

definition room_idx :: "string \<Rightarrow> nat" where
  "room_idx room = shard_idx room NUM_SHARDS"

definition ip_idx :: "ip_addr \<Rightarrow> nat" where
  "ip_idx ip = shard_idx (ip_str ip) NUM_SHARDS"

definition add_ip_room :: "ip_addr \<Rightarrow> string \<Rightarrow> relay \<Rightarrow> relay" where
  "add_ip_room ip room r = r\<lparr>ip_counts := ns_put ip_idx (ip, room) () (ip_counts r)\<rparr>"

definition remove_ip_room :: "ip_addr \<Rightarrow> string \<Rightarrow> relay \<Rightarrow> relay" where
  "remove_ip_room ip room r = r\<lparr>ip_counts := ns_del ip_idx (ip, room) (ip_counts r)\<rparr>"

definition count_ip_rooms :: "relay \<Rightarrow> ip_addr \<Rightarrow> nat" where
  "count_ip_rooms r ip = (case sh_get ip_idx (ip_counts r) ip of None \<Rightarrow> 0 | Some s \<Rightarrow> length s)"

text \<open>\<^verbatim>\<open>for (ip, r) in unlinked { self.remove_ip_room(ip, &r) }\<close>\<close>

definition unlink_all :: "(ip_addr \<times> string) list \<Rightarrow> relay \<Rightarrow> relay" where
  "unlink_all unlinked r = fold (\<lambda>(ip, room). remove_ip_room ip room) unlinked r"

section \<open>Registrations whose room does not exist yet\<close>

definition get_pending_reg :: "relay \<Rightarrow> string \<Rightarrow> socket_addr \<Rightarrow> pending_reg option" where
  "get_pending_reg r room src = ns_get room_idx (pending_shards r) (room, src)"

definition add_pending_ip :: "ip_addr \<Rightarrow> relay \<Rightarrow> relay" where
  "add_pending_ip ip r = r\<lparr>pending_ip_shards := sctr_incr ip_idx ip (pending_ip_shards r)\<rparr>"

definition remove_pending_ip :: "ip_addr \<Rightarrow> relay \<Rightarrow> relay" where
  "remove_pending_ip ip r = r\<lparr>pending_ip_shards := sctr_decr ip_idx ip (pending_ip_shards r)\<rparr>"

definition pending_count_for_ip :: "relay \<Rightarrow> ip_addr \<Rightarrow> nat" where
  "pending_count_for_ip r ip = sctr_get ip_idx (pending_ip_shards r) ip"

definition store_pending_reg :: "string \<Rightarrow> socket_addr \<Rightarrow> pending_reg \<Rightarrow> relay \<Rightarrow> relay \<times> bool" where
  "store_pending_reg room src p r =
     (let stored = r\<lparr>pending_shards := ns_put room_idx (room, src) p (pending_shards r)\<rparr>
      in if (case sh_get room_idx (pending_shards r) room of
               None \<Rightarrow> False | Some rm \<Rightarrow> hm_contains rm src) then (stored, True)
         else if pending_total r \<ge> max_pending_global r then (r, False)
         else (add_pending_ip (ip_key src) (stored\<lparr>pending_total := pending_total r + 1\<rparr>), True))"

definition delete_pending_reg :: "string \<Rightarrow> socket_addr \<Rightarrow> relay \<Rightarrow> relay" where
  "delete_pending_reg room src r =
     (case sh_get room_idx (pending_shards r) room of
        None \<Rightarrow> r
      | Some rm \<Rightarrow>
          let r' = r\<lparr>pending_shards := ns_del room_idx (room, src) (pending_shards r)\<rparr>
          in if hm_get rm src \<noteq> None
             then remove_pending_ip (ip_key src) (r'\<lparr>pending_total := pending_total r - 1\<rparr>)
             else r')"

definition pending_fresh :: "instant \<Rightarrow> pending_reg \<Rightarrow> bool" where
  "pending_fresh now p \<longleftrightarrow> duration_since now (created_at p) \<le> from_millis PENDING_REG_TTL_MS"

definition remove_stale_pending_regs :: "instant \<Rightarrow> relay \<Rightarrow> relay" where
  "remove_stale_pending_regs now r =
     (let evicted_ips = concat (map (\<lambda>g. concat (map (\<lambda>(_, rm).
            map ip_key (hm_keys (hm_retain (\<lambda>_ p. \<not> pending_fresh now p) rm))) g)) (pending_shards r));
          r = r\<lparr>pending_shards := map (\<lambda>g. hm_retain (\<lambda>_ rm. rm \<noteq> [])
                (map (\<lambda>(room, rm). (room, hm_retain (\<lambda>_ p. pending_fresh now p) rm)) g)) (pending_shards r)\<rparr>
      in if evicted_ips \<noteq> []
         then fold remove_pending_ip evicted_ips
                (r\<lparr>pending_total := pending_total r - word_of_nat (length evicted_ips)\<rparr>)
         else r)"

section \<open>Room sweeps\<close>

fun evict_shards :: "instant \<Rightarrow> duration \<Rightarrow> nat list \<Rightarrow> relay \<Rightarrow> relay \<times> nat" where
  "evict_shards now ttl [] r = (r, 0)"
| "evict_shards now ttl (i # is) r =
     (let (g, n, unlinked) = evict_stale_rooms (shards r ! i) now ttl;
          r = unlink_all unlinked (r\<lparr>shards := (shards r)[i := g]\<rparr>);
          (r, total) = evict_shards now ttl is r
      in (r, n + total))"

definition evict_stale_rooms_all :: "instant \<Rightarrow> relay \<Rightarrow> relay \<times> nat" where
  "evict_stale_rooms_all now r =
     (let (r, total) = evict_shards now (reg_ttl r) [0..<length (shards r)] r
      in (if total > 0 then r\<lparr>total_room_count := total_room_count r - word_of_nat total\<rparr> else r, total))"

section \<open>Limiting, dropping, sending\<close>

definition is_reg_rate_limited :: "string \<Rightarrow> instant \<Rightarrow> relay \<Rightarrow> relay \<times> bool" where
  "is_reg_rate_limited key now r =
     (let i = shard_idx key NUM_REG_SHARDS;
          (sh, limited) = reg_is_limited key now (rate_window r) (max_reg_rate r) (reg_shards r ! i)
      in (r\<lparr>reg_shards := (reg_shards r)[i := sh]\<rparr>, limited))"

definition log_write_error :: "instant \<Rightarrow> socket_addr \<Rightarrow> relay \<Rightarrow> relay" where
  "log_write_error now src r = r\<lparr>drop_log_limiter :=
     fst (allow_log (ip_str (ip_key src)) now DROP_LOG_INTERVAL (drop_log_limiter r))\<rparr>"

definition drop_packet :: "instant \<Rightarrow> socket_addr \<Rightarrow> relay \<Rightarrow> relay" where
  "drop_packet now src r =
     (let r = r\<lparr>stat_drops := stat_drops r + 1\<rparr>
      in r\<lparr>drop_log_limiter :=
           fst (allow_log (ip_str (ip_key src)) now DROP_LOG_INTERVAL (drop_log_limiter r))\<rparr>)"

text \<open>
  What the surroundings decide during one handler: the clock, the random cookie, and for the
  \<open>i\<close>-th write of the handler whether the pool has a permit left and what the socket answers.
\<close>

datatype send_result = SendOk | SendErr | SendTimeout

type_synonym write_env = "bool \<times> send_result"
type_synonym send = "string \<times> socket_addr"

record henv =
  now :: instant
  rnd_cookie :: "byte list"
  writes :: "nat \<Rightarrow> write_env"

definition write_relay :: "write_env \<Rightarrow> string \<Rightarrow> socket_addr \<Rightarrow> relay \<Rightarrow> relay \<times> send list \<times> bool" where
  "write_relay we msg addr r =
     (if write_pool r \<noteq> None \<and> \<not> fst we then (r\<lparr>stat_drops := stat_drops r + 1\<rparr>, [], True)
      else (r, [(msg, addr)], snd we = SendOk))"

definition regd_ok_msg :: "string \<Rightarrow> socket_addr \<Rightarrow> string" where
  "regd_ok_msg room src = ''REGD '' @ room @ '' OK '' @ sock_str src @ NL"

definition challenge_msg :: "string \<Rightarrow> byte list \<Rightarrow> string" where
  "challenge_msg room c = ''REGD '' @ room @ '' '' @ relay_to_hex_lower c @ NL"

definition send_regd :: "henv \<Rightarrow> string \<Rightarrow> socket_addr \<Rightarrow> relay \<Rightarrow> relay \<times> send list" where
  "send_regd h room src r =
     (let (r, out, ok) = write_relay (writes h 0) (regd_ok_msg room src) src r
      in (if ok then r else log_write_error (now h) src r, out))"

definition send_reg_challenge ::
    "henv \<Rightarrow> string \<Rightarrow> byte list \<Rightarrow> socket_addr \<Rightarrow> relay \<Rightarrow> relay \<times> send list" where
  "send_reg_challenge h room c src r =
     (let (r, out, ok) = write_relay (writes h 0) (challenge_msg room c) src r
      in (if ok then r else log_write_error (now h) src r, out))"

section \<open>The tables are stores\<close>

interpretation by_room: sharding room_idx NUM_SHARDS
  by unfold_locales (simp add: room_idx_def)

interpretation by_ip: sharding ip_idx NUM_SHARDS
  by unfold_locales (simp add: ip_idx_def)

interpretation waiting: tallied_store "ns_get room_idx" "ns_put room_idx" "ns_del room_idx" ns_sum
  "ns_ok room_idx NUM_SHARDS" "sctr_incr ip_idx" "sctr_decr ip_idx" "sctr_get ip_idx"
  "sctr_ok NUM_SHARDS" "\<lambda>(_ :: string, src). ip_key src"
  by unfold_locales

end
