(* ===== verification/Relay.thy ===== *)
theory Relay
  imports Relay_State
begin

text \<open>
  \<^verbatim>\<open>crates/qvole-relay/src/relay.rs\<close>, second half: the handlers of REG and MSG datagrams, the
  dispatch, and the periodic clean-up. A handler takes what its surroundings decide
  (\<open>henv\<close>), the datagram and its source, and returns the new state with the datagrams it
  sends. \<^verbatim>\<open>handle_reg\<close>, some 350 lines in the source, is cut along its branches.

  Within one handler every reading of the clock gives the same instant, and no other handler
  runs between two of its critical sections.
\<close>

section \<open>Registration\<close>

definition count_prefix_clients :: "room_entry \<Rightarrow> ip_addr \<Rightarrow> nat" where
  "count_prefix_clients e prefix = length (filter (\<lambda>a. ip_key a = prefix) (hm_keys (udp_clients e)))"

definition get_room :: "relay \<Rightarrow> string \<Rightarrow> room_entry option" where
  "get_room r room = sh_get room_idx (shards r) room"

definition put_room :: "string \<Rightarrow> room_entry \<Rightarrow> relay \<Rightarrow> relay" where
  "put_room room e r = r\<lparr>shards := sh_put room_idx room e (shards r)\<rparr>"

definition count_reg :: "relay \<Rightarrow> relay" where
  "count_reg r = r\<lparr>stat_regs := stat_regs r + 1\<rparr>"

definition ip_in_room :: "room_entry \<Rightarrow> ip_addr \<Rightarrow> bool" where
  "ip_in_room e ip = (\<exists>a \<in> set (hm_keys (udp_clients e)). ip_key a = ip)"

text \<open>A fresh cookie for a room that does not exist, kept in the global store.\<close>

definition reg_store_challenge :: "henv \<Rightarrow> string \<Rightarrow> socket_addr \<Rightarrow> relay \<Rightarrow> relay \<times> send list" where
  "reg_store_challenge h room src r =
     (if pending_count_for_ip r (ip_key src) \<ge> max_pending_per_ip r then (drop_packet (now h) src r, [])
      else let cb = rnd_cookie h;
               (r, stored) = store_pending_reg room src
                 \<lparr>cookie = cb, created_at = now h, p_resolved_addr = src\<rparr> r
           in if \<not> stored then (drop_packet (now h) src r, [])
              else send_reg_challenge h room cb src r)"

text \<open>The room does not exist: create it after checking every cap again.\<close>

definition reg_create_room :: "henv \<Rightarrow> string \<Rightarrow> socket_addr \<Rightarrow> socket_addr \<Rightarrow> relay \<Rightarrow> relay \<times> reg_action" where
  "reg_create_room h room resolved src r =
     (let i = room_idx room;
          r = (if total_rooms r \<ge> max_rooms r
               then let (g, n, unlinked) = evict_stale_rooms (shards r ! i) (now h) (reg_ttl r);
                        r = r\<lparr>shards := (shards r)[i := g]\<rparr>;
                        r = (if n > 0
                             then r\<lparr>total_room_count := total_room_count r - word_of_nat n\<rparr> else r)
                    in unlink_all unlinked r
               else r)
      in if total_rooms r \<ge> max_rooms r then (drop_packet (now h) src r, NoReply)
         else if count_ip_rooms r (ip_key src) \<ge> max_rooms_per_ip r
         then (drop_packet (now h) src r, NoReply)
         else let e = room_entry_new (now h);
                  e = e\<lparr>udp_clients := hm_insert src (udp_client_new (now h) (Some resolved)) (udp_clients e),
                        entry_t := now h\<rparr>;
                  r = put_room room e r;
                  r = r\<lparr>total_room_count := total_room_count r + 1\<rparr>;
                  r = add_ip_room (ip_key src) room r
              in (count_reg r, Regd))"

text \<open>The room exists by now: admit into it.\<close>

definition reg_admit_existing ::
    "henv \<Rightarrow> string \<Rightarrow> socket_addr \<Rightarrow> socket_addr \<Rightarrow> room_entry \<Rightarrow> relay \<Rightarrow> relay \<times> reg_action" where
  "reg_admit_existing h room resolved src e r =
     (let src_ip = ip_key src;
          (e, unlinked) = remove_stale_clients room (now h) (reg_ttl r) e;
          r = unlink_all unlinked (put_room room e r);
          ip_already = ip_in_room e src_ip
      in if length (udp_clients e) \<ge> max_clients_hard r \<and> \<not> hm_contains (udp_clients e) src
         then (drop_packet (now h) src r, NoReply)
         else if \<not> ip_already \<and> count_ip_rooms r src_ip \<ge> max_rooms_per_ip r
         then (drop_packet (now h) src r, NoReply)
         else if \<not> hm_contains (udp_clients e) src
              \<and> count_prefix_clients e src_ip \<ge> max_clients_per_prefix_per_room r
         then (drop_packet (now h) src r, NoReply)
         else let e = e\<lparr>udp_clients := hm_insert src (udp_client_new (now h) (Some resolved)) (udp_clients e),
                        entry_t := now h\<rparr>;
                  r = put_room room e r;
                  r = (if \<not> ip_already then add_ip_room src_ip room r else r)
              in (count_reg r, Regd))"

definition reg_cookie_create_or_admit ::
    "henv \<Rightarrow> string \<Rightarrow> socket_addr \<Rightarrow> socket_addr \<Rightarrow> relay \<Rightarrow> relay \<times> reg_action" where
  "reg_cookie_create_or_admit h room resolved src r =
     (let r = (if total_rooms r \<ge> max_rooms r then fst (evict_stale_rooms_all (now h) r) else r)
      in case get_room r room of
           None \<Rightarrow> reg_create_room h room resolved src r
         | Some e \<Rightarrow> reg_admit_existing h room resolved src e r)"

definition cookie_expired :: "instant \<Rightarrow> pending_reg \<Rightarrow> bool" where
  "cookie_expired t p \<longleftrightarrow> duration_since t (created_at p) > from_millis PENDING_REG_TTL_MS"

text \<open>A cookie for a room that exists: match it against the room's own waiting registrations.\<close>

definition reg_cookie_in_room ::
    "henv \<Rightarrow> string \<Rightarrow> byte list \<Rightarrow> socket_addr \<Rightarrow> room_entry \<Rightarrow> relay \<Rightarrow> relay \<times> reg_action" where
  "reg_cookie_in_room h room cookie_bytes src e r =
     (let src_ip = ip_key src in
      case hm_get (pending e) src of
        None \<Rightarrow> (drop_packet (now h) src r, NoReply)
      | Some pend \<Rightarrow>
          if cookie pend \<noteq> cookie_bytes then (drop_packet (now h) src r, NoReply)
          else if cookie_expired (now h) pend
          then (drop_packet (now h) src (put_room room (fst (remove_pending src e)) r), NoReply)
          else
            let resolved = p_resolved_addr pend;
                (e, unlinked) = remove_stale_clients room (now h) (reg_ttl r) e;
                r = unlink_all unlinked (put_room room e r);
                is_new = (\<not> hm_contains (udp_clients e) src);
                hard_cap = (length (udp_clients e) \<ge> max_clients_hard r \<and> is_new);
                ip_capped = (if is_new
                             then \<not> ip_in_room e src_ip \<and> count_ip_rooms r src_ip \<ge> max_rooms_per_ip r
                             else False);
                prefix_capped = (is_new
                  \<and> count_prefix_clients e src_ip \<ge> max_clients_per_prefix_per_room r)
            in if hard_cap then (drop_packet (now h) src r, NoReply)
               else if ip_capped then (drop_packet (now h) src r, NoReply)
               else if prefix_capped then (drop_packet (now h) src r, NoReply)
               else let e = fst (remove_pending src e);
                        e = e\<lparr>udp_clients := hm_insert src (udp_client_new (now h) (Some resolved)) (udp_clients e),
                              entry_t := now h\<rparr>;
                        r = put_room room e r;
                        ip_already = (\<exists>a \<in> set (hm_keys (udp_clients e)). a \<noteq> src \<and> ip_key a = src_ip);
                        r = (if \<not> ip_already then add_ip_room src_ip room r else r)
                    in (count_reg r, Regd))"

definition send_if_regd :: "henv \<Rightarrow> string \<Rightarrow> socket_addr \<Rightarrow> relay \<times> reg_action \<Rightarrow> relay \<times> send list" where
  "send_if_regd h room src = (\<lambda>(r, action). if action = Regd then send_regd h room src r else (r, []))"

text \<open>A REG that carries a cookie.\<close>

definition handle_reg_cookie :: "henv \<Rightarrow> string \<Rightarrow> string \<Rightarrow> socket_addr \<Rightarrow> relay \<Rightarrow> relay \<times> send list" where
  "handle_reg_cookie h room cookie_hex src r =
     (if \<not> is_valid_hex cookie_hex \<or> length cookie_hex \<noteq> PENDING_COOKIE_BYTES * 2
      then (drop_packet (now h) src r, [])
      else case relay_hex_decode cookie_hex of
        None \<Rightarrow> (drop_packet (now h) src r, [])
      | Some cookie_bytes \<Rightarrow>
          (case get_pending_reg r room src of
             Some pend \<Rightarrow>
               if cookie pend \<noteq> cookie_bytes then (drop_packet (now h) src r, [])
               else if cookie_expired (now h) pend
               then (drop_packet (now h) src (delete_pending_reg room src r), [])
               else send_if_regd h room src
                      (reg_cookie_create_or_admit h room (p_resolved_addr pend) src
                         (delete_pending_reg room src r))
           | None \<Rightarrow>
               (case get_room r room of
                  None \<Rightarrow>
                    if count_ip_rooms r (ip_key src) \<ge> max_rooms_per_ip r
                    then (drop_packet (now h) src r, [])
                    else reg_store_challenge h room src r
                | Some e \<Rightarrow> send_if_regd h room src (reg_cookie_in_room h room cookie_bytes src e r))))"

text \<open>A first REG for a room that exists.\<close>

definition reg_initial_in_room ::
    "henv \<Rightarrow> string \<Rightarrow> socket_addr \<Rightarrow> room_entry \<Rightarrow> relay \<Rightarrow> relay \<times> reg_action" where
  "reg_initial_in_room h room src e r =
     (let src_ip = ip_key src;
          (e, unlinked) = remove_stale_clients room (now h) (reg_ttl r) e;
          r = unlink_all unlinked (put_room room e r)
      in if length (udp_clients e) \<ge> max_clients_hard r \<and> \<not> hm_contains (udp_clients e) src
         then (drop_packet (now h) src r, NoReply)
         else case hm_get (udp_clients e) src of
           Some info \<Rightarrow>
             let info = info\<lparr>last_seen := now h, c_resolved_addr := Some src\<rparr>
             in (count_reg (put_room room (e\<lparr>udp_clients := hm_insert src info (udp_clients e)\<rparr>) r), Regd)
         | None \<Rightarrow>
             (case hm_get (pending e) src of
                Some pend \<Rightarrow>
                  let pend = pend\<lparr>created_at := now h, p_resolved_addr := src\<rparr>
                  in (put_room room (e\<lparr>pending := hm_insert src pend (pending e)\<rparr>) r, Challenge (cookie pend))
              | None \<Rightarrow>
                  if pending_count_for_ip r src_ip + entry_pending_count_for_ip e src_ip \<ge> max_pending_per_ip r
                  then (drop_packet (now h) src r, NoReply)
                  else let cb = rnd_cookie h;
                           (e, added) = add_pending src
                             \<lparr>cookie = cb, created_at = now h, p_resolved_addr = src\<rparr> (max_pending_per_room r) e
                       in if \<not> added then (drop_packet (now h) src r, NoReply)
                          else (put_room room e r, Challenge cb)))"

text \<open>A REG without a cookie.\<close>

definition handle_reg_initial :: "henv \<Rightarrow> string \<Rightarrow> socket_addr \<Rightarrow> relay \<Rightarrow> relay \<times> send list" where
  "handle_reg_initial h room src r =
     (if count_ip_rooms r (ip_key src) \<ge> max_rooms_per_ip r then (drop_packet (now h) src r, [])
      else case get_room r room of
        None \<Rightarrow> reg_store_challenge h room src r
      | Some e \<Rightarrow>
          (case reg_initial_in_room h room src e r of
             (r, Regd) \<Rightarrow> send_regd h room src r
           | (r, Challenge c) \<Rightarrow> send_reg_challenge h room c src r
           | (r, NoReply) \<Rightarrow> (r, [])))"

definition handle_reg :: "henv \<Rightarrow> string \<Rightarrow> string \<Rightarrow> socket_addr \<Rightarrow> relay \<Rightarrow> relay \<times> send list" where
  "handle_reg h room cookie_hex src r =
     (let (r, limited) = is_reg_rate_limited (ip_str (ip_key src)) (now h) r
      in if limited then (drop_packet (now h) src r, [])
         else if cookie_hex \<noteq> [] then handle_reg_cookie h room cookie_hex src r
         else handle_reg_initial h room src r)"

section \<open>Messages\<close>

definition msgd_msg :: "string \<Rightarrow> string \<Rightarrow> string" where
  "msgd_msg phase body = ''MSGD '' @ phase @ '' '' @ body @ NL"

definition msg_targets :: "room_entry \<Rightarrow> socket_addr \<Rightarrow> socket_addr list" where
  "msg_targets e src =
     map (\<lambda>(_, ci). the (c_resolved_addr ci))
       (filter (\<lambda>(addr, ci). addr \<noteq> src \<and> c_resolved_addr ci \<noteq> None) (udp_clients e))"

fun write_targets ::
    "(nat \<Rightarrow> write_env) \<Rightarrow> nat \<Rightarrow> string \<Rightarrow> socket_addr list \<Rightarrow> relay \<Rightarrow> relay \<times> send list" where
  "write_targets ws i msg [] r = (r, [])"
| "write_targets ws i msg (t # ts) r =
     (let (r, out, _) = write_relay (ws i) msg t r;
          (r, outs) = write_targets ws (i + 1) msg ts r
      in (r, out @ outs))"

definition relay_msg ::
    "henv \<Rightarrow> string \<Rightarrow> string \<Rightarrow> string \<Rightarrow> socket_addr \<Rightarrow> relay \<Rightarrow> relay \<times> send list" where
  "relay_msg h room phase body src r =
     (case get_room r room of
        None \<Rightarrow> (drop_packet (now h) src r, [])
      | Some e \<Rightarrow>
          (case hm_get (udp_clients e) src of
             None \<Rightarrow> (drop_packet (now h) src r, [])
           | Some info \<Rightarrow>
               let (rl, limited) = is_limited (now h) (rate_window r) (max_msg_rate r) (c_rate_limiter info);
                   e = e\<lparr>udp_clients := hm_insert src (info\<lparr>c_rate_limiter := rl\<rparr>) (udp_clients e)\<rparr>;
                   r = put_room room e r
               in if limited then (drop_packet (now h) src r, [])
                  else let targets = msg_targets e src;
                           (r, out) = write_targets (writes h) 0 (msgd_msg phase body) targets r
                       in (if targets \<noteq> [] then r\<lparr>stat_msgs := stat_msgs r + 1\<rparr> else r, out)))"

definition handle_msg :: "henv \<Rightarrow> string \<Rightarrow> socket_addr \<Rightarrow> relay \<Rightarrow> relay \<times> send list" where
  "handle_msg h payload src r =
     (case splitn 3 (CHR '' '') payload of
        [room, phase, body] \<Rightarrow>
          if phase \<noteq> ''spake2'' \<and> phase \<noteq> ''confirm'' then (drop_packet (now h) src r, [])
          else if \<not> valid_room_name room then (drop_packet (now h) src r, [])
          else if \<not> is_valid_hex body \<or> length body > MAX_MSG_BODY_LEN then (drop_packet (now h) src r, [])
          else relay_msg h room phase body src r
      | _ \<Rightarrow> (drop_packet (now h) src r, []))"

section \<open>Dispatch\<close>

text \<open>The room and the cookie of a REG; no cookie is the empty text.\<close>

definition reg_args :: "string \<Rightarrow> string \<times> string" where
  "reg_args rest =
     (case splitn 2 (CHR '' '') rest of
        [room, c] \<Rightarrow> (room, trim_ascii_space c)
      | [room] \<Rightarrow> (room, [])
      | _ \<Rightarrow> ([], []))"

definition handle_packet :: "henv \<Rightarrow> string \<Rightarrow> socket_addr \<Rightarrow> relay \<Rightarrow> relay \<times> send list" where
  "handle_packet h data src r =
     (if data = [] \<or> length data > MAX_DATAGRAM_LEN then (drop_packet (now h) src r, [])
      else let trimmed = trim_ascii_space data
           in if length trimmed \<ge> CMD_PREFIX_LEN \<and> starts_with trimmed ''REG ''
              then let rest = trim_ascii_space (drop CMD_PREFIX_LEN trimmed);
                       (room, cookie_hex) = reg_args rest
                   in if room = [] then (drop_packet (now h) src r, [])
                      else if \<not> valid_room_name room then (drop_packet (now h) src r, [])
                      else handle_reg h room cookie_hex src r
              else if length trimmed \<ge> CMD_PREFIX_LEN \<and> starts_with trimmed ''MSG ''
              then handle_msg h (drop CMD_PREFIX_LEN trimmed) src r
              else (drop_packet (now h) src r, []))"

section \<open>Periodic clean-up and the read loop\<close>

definition rate_tick :: "instant \<Rightarrow> relay \<Rightarrow> relay" where
  "rate_tick t r =
     r\<lparr>reg_shards := map (reg_cleanup_stale t (rate_window r * 2)) (reg_shards r),
       drop_log_limiter := drop_log_cleanup_stale t (DROP_LOG_INTERVAL * 2) (drop_log_limiter r)\<rparr>"

definition room_tick :: "instant \<Rightarrow> relay \<Rightarrow> relay" where
  "room_tick t r =
     (let (r, evicted) = evict_shards t (reg_ttl r) [0..<length (shards r)] r;
          r = (if evicted > 0
               then r\<lparr>total_room_count := total_room_count r - word_of_nat evicted\<rparr> else r)
      in remove_stale_pending_regs t r)"

text \<open>The bounded queue between the read loop and the workers.\<close>

record server =
  srv_relay :: relay
  srv_queue :: "(string \<times> socket_addr) list"

definition recv_packet :: "string \<Rightarrow> socket_addr \<Rightarrow> server \<Rightarrow> server" where
  "recv_packet dgram src s =
     (let data = take READ_BUF_SIZE dgram
      in if length (srv_queue s) < unat (cfg_pkt_chan_buf (cfg (srv_relay s)))
         then s\<lparr>srv_queue := srv_queue s @ [(data, src)]\<rparr>
         else s\<lparr>srv_relay := (srv_relay s)\<lparr>stat_drops := stat_drops (srv_relay s) + 1\<rparr>\<rparr>)"

definition serve_start :: "relay \<Rightarrow> server" where
  "serve_start r =
     (let r = (if cfg_write_pool_size (cfg r) > 0
               then r\<lparr>write_pool := Some (cfg_write_pool_size (cfg r))\<rparr> else r)
      in \<lparr>srv_relay = r, srv_queue = []\<rparr>)"

end
