(* ===== verification/Relay_Inv.thy ===== *)
theory Relay_Inv
  imports Relay
begin

text \<open>
  The well-formedness of a relay state and that every handler and every clean-up keeps it: the
  counters agree with the tables they count, every configured cap holds, every admitted client
  is stored under the address it was seen at and its IP is linked to its room.
\<close>

section \<open>The invariant\<close>

definition linked :: "relay \<Rightarrow> ip_addr \<Rightarrow> string \<Rightarrow> bool" where
  "linked r ip room \<longleftrightarrow> ns_get ip_idx (ip_counts r) (ip, room) = Some ()"

definition entry_ok :: "relay \<Rightarrow> room_entry \<Rightarrow> bool" where
  "entry_ok r e \<longleftrightarrow> room_ok e
     \<and> length (udp_clients e) \<le> max_clients_hard r
     \<and> (\<forall>ip. count_prefix_clients e ip \<le> max_clients_per_prefix_per_room r)
     \<and> length (pending e) \<le> max_pending_per_room r
     \<and> (\<forall>ip. entry_pending_count_for_ip e ip \<le> max_pending_per_ip r)
     \<and> (\<forall>a c. hm_get (udp_clients e) a = Some c \<longrightarrow> msg_count (c_rate_limiter c) \<le> max_msg_rate r)"

definition limits_ok :: "relay \<Rightarrow> bool" where
  "limits_ok r \<longleftrightarrow> 0 < max_clients_hard r \<and> 0 < max_clients_per_prefix_per_room r
     \<and> length (reg_shards r) = NUM_REG_SHARDS"

definition rooms_wf :: "relay \<Rightarrow> bool" where
  "rooms_wf r \<longleftrightarrow> sh_ok room_idx NUM_SHARDS (shards r)
     \<and> (\<forall>room e. get_room r room = Some e \<longrightarrow> entry_ok r e)"

definition links_wf :: "relay \<Rightarrow> bool" where
  "links_wf r \<longleftrightarrow> ns_ok ip_idx NUM_SHARDS (ip_counts r)
     \<and> (\<forall>ip. count_ip_rooms r ip \<le> max_rooms_per_ip r)
     \<and> (\<forall>room e a. get_room r room = Some e \<longrightarrow> a \<in> set (hm_keys (udp_clients e)) \<longrightarrow> linked r (ip_key a) room)"

definition counts_wf :: "relay \<Rightarrow> bool" where
  "counts_wf r \<longleftrightarrow> unat (total_room_count r) = sh_sum (\<lambda>_ _. 1) (shards r)
     \<and> total_room_count r \<le> max_rooms r"

definition waiting_wf :: "relay \<Rightarrow> bool" where
  "waiting_wf r \<longleftrightarrow> ns_ok room_idx NUM_SHARDS (pending_shards r)
     \<and> sctr_ok NUM_SHARDS (pending_ip_shards r)
     \<and> (\<forall>ip. pending_count_for_ip r ip = ns_sum (tally (\<lambda>(_, src). ip_key src) ip) (pending_shards r))
     \<and> (\<forall>ip. pending_count_for_ip r ip \<le> max_pending_per_ip r)
     \<and> unat (pending_total r) = ns_sum (\<lambda>_ _. 1) (pending_shards r)
     \<and> pending_total r \<le> max_pending_global r
     \<and> (\<forall>room src p. get_pending_reg r room src = Some p \<longrightarrow> p_resolved_addr p = src)"

definition relay_ok :: "relay \<Rightarrow> bool" where
  "relay_ok r \<longleftrightarrow> limits_ok r \<and> rooms_wf r \<and> links_wf r \<and> counts_wf r \<and> waiting_wf r"

lemmas limit_defs = max_rooms_def max_rooms_per_ip_def max_clients_hard_def max_msg_rate_def
  max_reg_rate_def rate_window_def reg_ttl_def max_pending_per_ip_def max_pending_global_def
  max_pending_per_room_def max_clients_per_prefix_per_room_def total_rooms_def

lemmas wf_defs = limits_ok_def rooms_wf_def links_wf_def counts_wf_def waiting_wf_def entry_ok_def
  linked_def get_room_def count_ip_rooms_def pending_count_for_ip_def get_pending_reg_def

section \<open>What does not touch the tables\<close>

text \<open>\<open>same_core r r'\<close>: the tables, counters and limits agree; statistics and logs may differ.\<close>

definition same_core :: "relay \<Rightarrow> relay \<Rightarrow> bool" where
  "same_core r r' \<longleftrightarrow> shards r' = shards r \<and> ip_counts r' = ip_counts r
     \<and> pending_shards r' = pending_shards r \<and> pending_ip_shards r' = pending_ip_shards r
     \<and> pending_total r' = pending_total r \<and> total_room_count r' = total_room_count r
     \<and> length (reg_shards r') = length (reg_shards r)
     \<and> r_max_rooms r' = r_max_rooms r \<and> r_max_rooms_per_ip r' = r_max_rooms_per_ip r
     \<and> r_max_clients_hard r' = r_max_clients_hard r \<and> r_max_msg_rate r' = r_max_msg_rate r
     \<and> r_max_pending_per_ip r' = r_max_pending_per_ip r
     \<and> r_max_pending_global r' = r_max_pending_global r
     \<and> r_max_pending_per_room r' = r_max_pending_per_room r
     \<and> r_max_clients_per_prefix_per_room r' = r_max_clients_per_prefix_per_room r"

lemma same_core_refl [simp]: "same_core r r"
  by (simp add: same_core_def)

lemma same_core_trans: "same_core r s \<Longrightarrow> same_core s t \<Longrightarrow> same_core r t"
  by (simp add: same_core_def)

lemma relay_ok_core: "same_core r r' \<Longrightarrow> relay_ok r \<Longrightarrow> relay_ok r'"
  unfolding same_core_def relay_ok_def wf_defs limit_defs by (elim conjE) (intro conjI; simp)

lemma get_room_core: "same_core r r' \<Longrightarrow> get_room r' room = get_room r room"
  by (simp add: same_core_def get_room_def)

lemma core_drop_packet [simp]: "same_core r (drop_packet t src r)"
  by (simp add: same_core_def drop_packet_def Let_def)

lemma core_log_write_error [simp]: "same_core r (log_write_error t src r)"
  by (simp add: same_core_def log_write_error_def)

lemma core_count_reg [simp]: "same_core r (count_reg r)"
  by (simp add: same_core_def count_reg_def)

lemma core_write_relay [simp]: "same_core r (fst (write_relay we msg a r))"
  by (simp add: same_core_def write_relay_def)

lemma core_send_regd [simp]: "same_core r (fst (send_regd h room src r))"
  by (simp add: send_regd_def write_relay_def Let_def same_core_def log_write_error_def)

lemma core_send_reg_challenge [simp]: "same_core r (fst (send_reg_challenge h room c src r))"
  by (simp add: send_reg_challenge_def write_relay_def Let_def same_core_def log_write_error_def)

lemma core_write_targets: "same_core r (fst (write_targets ws i msg ts r))"
proof (induction ts arbitrary: i r)
  case (Cons t ts)
  show ?case
    using same_core_trans [OF core_write_relay Cons.IH] by (simp add: case_prod_beta Let_def)
qed simp

lemma core_is_reg_rate_limited [simp]: "same_core r (fst (is_reg_rate_limited key t r))"
  by (simp add: same_core_def is_reg_rate_limited_def Let_def case_prod_beta)

lemmas relay_ok_drop [wf_intros] = relay_ok_core [OF core_drop_packet]
lemmas relay_ok_count_reg [wf_intros] = relay_ok_core [OF core_count_reg]

section \<open>Tables\<close>

lemma get_room_put_room:
  "rooms_wf r \<Longrightarrow> get_room (put_room room e r) room' = (if room' = room then Some e else get_room r room')"
  by (simp add: get_room_def put_room_def rooms_wf_def by_room.sh_get_put)

lemma get_room_frame [frame_simps, simp]:
  "get_room (add_ip_room ip room r) = get_room r"
  "get_room (remove_ip_room ip room r) = get_room r"
  "get_room (add_pending_ip ip r) = get_room r"
  "get_room (remove_pending_ip ip r) = get_room r"
  "get_room (r\<lparr>total_room_count := n\<rparr>) = get_room r"
  "get_room (drop_packet t src r) = get_room r"
  "get_room (count_reg r) = get_room r"
  by (simp_all add: get_room_def fun_eq_iff add_ip_room_def remove_ip_room_def add_pending_ip_def
      remove_pending_ip_def drop_packet_def count_reg_def Let_def)

lemma get_room_unlink_all [simp]: "get_room (unlink_all un r) = get_room r"
  by (induction un arbitrary: r) (auto simp: unlink_all_def)

lemma linked_remove_ip_room:
  "links_wf r \<Longrightarrow> linked (remove_ip_room ip room r) ip' room' \<longleftrightarrow> (ip', room') \<noteq> (ip, room) \<and> linked r ip' room'"
  by (simp add: linked_def remove_ip_room_def links_wf_def by_ip.ns_get_del)

lemma linked_add_ip_room:
  "links_wf r \<Longrightarrow> linked (add_ip_room ip room r) ip' room' \<longleftrightarrow> (ip', room') = (ip, room) \<or> linked r ip' room'"
  by (auto simp: linked_def add_ip_room_def links_wf_def by_ip.ns_get_put)


lemma limits_frame [frame_simps, simp]:
  "max_rooms_per_ip (put_room room e r) = max_rooms_per_ip r"
  "max_rooms_per_ip (add_ip_room ip room r) = max_rooms_per_ip r"
  "max_rooms_per_ip (remove_ip_room ip room r) = max_rooms_per_ip r"
  "max_rooms (put_room room e r) = max_rooms r"
  "max_rooms (add_ip_room ip room r) = max_rooms r"
  "max_rooms (remove_ip_room ip room r) = max_rooms r"
  "max_rooms (r\<lparr>total_room_count := n\<rparr>) = max_rooms r"
  "max_rooms_per_ip (r\<lparr>total_room_count := n\<rparr>) = max_rooms_per_ip r"
  "count_ip_rooms (r\<lparr>total_room_count := n\<rparr>) = count_ip_rooms r"
  "links_wf (r\<lparr>total_room_count := n\<rparr>) = links_wf r"
  "entry_ok (put_room room e r) = entry_ok r"
  "entry_ok (add_ip_room ip room r) = entry_ok r"
  "entry_ok (remove_ip_room ip room r) = entry_ok r"
  "entry_ok (r\<lparr>total_room_count := n\<rparr>) = entry_ok r"
  "total_room_count (remove_ip_room ip room r) = total_room_count r"
  "limits_ok (put_room room e r) = limits_ok r"
  "limits_ok (add_ip_room ip room r) = limits_ok r"
  "limits_ok (remove_ip_room ip room r) = limits_ok r"
  "limits_ok (r\<lparr>total_room_count := n\<rparr>) = limits_ok r"
  "waiting_wf (put_room room e r) = waiting_wf r"
  "waiting_wf (add_ip_room ip room r) = waiting_wf r"
  "waiting_wf (remove_ip_room ip room r) = waiting_wf r"
  "waiting_wf (r\<lparr>total_room_count := n\<rparr>) = waiting_wf r"
  "counts_wf (add_ip_room ip room r) = counts_wf r"
  "counts_wf (remove_ip_room ip room r) = counts_wf r"
  "linked (put_room room e r) = linked r"
  "linked (r\<lparr>total_room_count := n\<rparr>) = linked r"
  "count_ip_rooms (put_room room e r) = count_ip_rooms r"
  "total_room_count (put_room room e r) = total_room_count r"
  "shards (add_ip_room ip room r) = shards r"
  "shards (remove_ip_room ip room r) = shards r"
  by (simp_all add: fun_eq_iff put_room_def add_ip_room_def remove_ip_room_def wf_defs limit_defs)

lemma add_ip_put_room: "add_ip_room ip room (put_room rm e r) = put_room rm e (add_ip_room ip room r)"
  by (simp add: add_ip_room_def put_room_def)

lemma relay_okD:
  assumes "relay_ok r"
  shows "limits_ok r" "rooms_wf r" "links_wf r" "counts_wf r" "waiting_wf r"
  using assms by (simp_all add: relay_ok_def)

lemma relay_ok_entry: "relay_ok r \<Longrightarrow> get_room r room = Some e \<Longrightarrow> entry_ok r e"
  by (simp add: relay_ok_def rooms_wf_def)

lemma relay_ok_linked:
  "relay_ok r \<Longrightarrow> get_room r room = Some e \<Longrightarrow> a \<in> set (hm_keys (udp_clients e)) \<Longrightarrow> linked r (ip_key a) room"
  by (simp add: relay_ok_def links_wf_def)

lemma rooms_wf_put_room:
  "rooms_wf r \<Longrightarrow> entry_ok r e \<Longrightarrow> rooms_wf (put_room room e r)"
  unfolding rooms_wf_def [of "put_room room e r"]
  by (auto simp: get_room_put_room rooms_wf_def put_room_def [of room e r, THEN arg_cong [of _ _ shards]]
      by_room.sh_ok_put split: if_splits)

lemma links_wf_put_room:
  "rooms_wf r \<Longrightarrow> links_wf r \<Longrightarrow> (\<forall>a \<in> set (hm_keys (udp_clients e)). linked r (ip_key a) room) \<Longrightarrow>
     links_wf (put_room room e r)"
  by (auto simp: links_wf_def get_room_put_room split: if_splits)
     (simp add: put_room_def)

lemma counts_wf_put_room:
  "rooms_wf r \<Longrightarrow> counts_wf r \<Longrightarrow> get_room r room = Some e0 \<Longrightarrow> counts_wf (put_room room e r)"
  by (auto simp: counts_wf_def rooms_wf_def get_room_def limit_defs put_room_def
      by_room.store.total_put_same)

lemma relay_ok_put_room:
  assumes "relay_ok r" "get_room r room = Some e0" "entry_ok r e"
    "\<forall>a \<in> set (hm_keys (udp_clients e)). linked r (ip_key a) room"
  shows "relay_ok (put_room room e r)"
  using assms by (simp add: relay_ok_def rooms_wf_put_room links_wf_put_room counts_wf_put_room)

lemma rooms_wf_frame [simp]:
  "rooms_wf (add_ip_room ip room r) = rooms_wf r"
  "rooms_wf (remove_ip_room ip room r) = rooms_wf r"
  "rooms_wf (r\<lparr>total_room_count := n\<rparr>) = rooms_wf r"
  by (simp_all add: rooms_wf_def)

lemma count_remove_ip_room_le:
  "links_wf r \<Longrightarrow> count_ip_rooms (remove_ip_room ip room r) ip' \<le> count_ip_rooms r ip'"
  by (auto simp: count_ip_rooms_def remove_ip_room_def ns_del_def links_wf_def ns_ok_def Let_def
      by_ip.sh_get_put by_ip.sh_get_del hm_len_remove_le split: option.splits)

lemma relay_ok_remove_ip_room:
  assumes ok: "relay_ok r"
    and gone: "\<And>e a. get_room r room = Some e \<Longrightarrow> a \<in> set (hm_keys (udp_clients e)) \<Longrightarrow> ip_key a \<noteq> ip"
  shows "relay_ok (remove_ip_room ip room r)"
proof -
  from ok have "links_wf r" by (rule relay_okD)
  moreover from this have "ns_ok ip_idx NUM_SHARDS (ip_counts (remove_ip_room ip room r))"
    by (simp add: remove_ip_room_def links_wf_def by_ip.ns_ok_del)
  ultimately have "links_wf (remove_ip_room ip room r)"
    using gone order.trans [OF count_remove_ip_room_le]
    by (fastforce simp: links_wf_def [of "remove_ip_room ip room r"] linked_remove_ip_room
        links_wf_def [of r, THEN iffD1])
  with ok show ?thesis by (simp add: relay_ok_def)
qed


lemma unlink_all_simps [simp]:
  "unlink_all [] r = r"
  "unlink_all ((ip, room) # un) r = unlink_all un (remove_ip_room ip room r)"
  by (simp_all add: unlink_all_def)

lemma relay_ok_unlink_all:
  assumes "relay_ok r"
    "\<And>ip room e a. (ip, room) \<in> set un \<Longrightarrow> get_room r room = Some e \<Longrightarrow>
       a \<in> set (hm_keys (udp_clients e)) \<Longrightarrow> ip_key a \<noteq> ip"
  shows "relay_ok (unlink_all un r)"
  using assms
proof (induction un arbitrary: r)
  case (Cons x un)
  obtain ip room where x: "x = (ip, room)" by (cases x)
  have "relay_ok (remove_ip_room ip room r)"
    using Cons.prems x by (intro relay_ok_remove_ip_room) auto
  then show ?case unfolding x unlink_all_simps
    by (rule Cons.IH) (use Cons.prems(2) in auto)
qed simp

lemma unlink_all_frame [frame_simps, simp]:
  "max_rooms (unlink_all un r) = max_rooms r"
  "max_rooms_per_ip (unlink_all un r) = max_rooms_per_ip r"
  "entry_ok (unlink_all un r) = entry_ok r"
  "shards (unlink_all un r) = shards r"
  "total_room_count (unlink_all un r) = total_room_count r"
  by (induction un arbitrary: r) auto

section \<open>Sweeping a room\<close>

lemma count_prefix_le:
  assumes "hm_ok (udp_clients e)" "udp_clients e' = hm_retain P (udp_clients e)"
  shows "count_prefix_clients e' ip \<le> count_prefix_clients e ip"
proof -
  have "length (filter (\<lambda>a. Q a) (map fst (filter R m))) \<le> length (filter Q (map fst m))" for Q R and m :: "(socket_addr \<times> udp_client) list"
    by (induction m) auto
  then show ?thesis using assms by (simp add: count_prefix_clients_def hm_keys_def hm_retain_def)
qed

lemma entry_ok_sweep:
  assumes "entry_ok r e"
  shows "entry_ok r (fst (remove_stale_clients room t ttl e))" (is "entry_ok r ?e")
proof -
  from assms have ok: "room_ok e" by (simp add: entry_ok_def)
  note st = remove_stale_clients_state [OF ok, of room t ttl]
  have ok': "room_ok ?e" using ok by (rule room_ok_remove_stale_clients)
  have "entry_pending_count_for_ip ?e ip \<le> entry_pending_count_for_ip e ip" for ip
    unfolding entry_pending_count_for_ip_def room_okD(4) [OF ok] room_okD(4) [OF ok'] st
    by (rule hm_sum_le_retain)
  moreover have "count_prefix_clients ?e ip \<le> count_prefix_clients e ip" for ip
    using count_prefix_le [OF room_okD(1) [OF ok] st(1)] .
  moreover have "length (udp_clients ?e) \<le> length (udp_clients e)" "length (pending ?e) \<le> length (pending e)"
    by (simp_all add: st hm_len_retain_le)
  moreover have "hm_get (udp_clients e) a = Some c" if "hm_get (udp_clients ?e) a = Some c" for a c
    using that room_okD(1) [OF ok] by (simp add: st(1) hm_get_retain split: option.splits if_splits)
  ultimately show ?thesis using assms ok' unfolding entry_ok_def by (meson order.trans)
qed

lemma sweep_keys_subset:
  "room_ok e \<Longrightarrow> a \<in> set (hm_keys (udp_clients (fst (remove_stale_clients room t ttl e)))) \<Longrightarrow>
     a \<in> set (hm_keys (udp_clients e))"
  by (auto simp: remove_stale_clients_state hm_keys_def hm_retain_def)

lemma relay_ok_sweep_room:
  assumes ok: "relay_ok r" and e: "get_room r room = Some e"
    and sw: "remove_stale_clients room t ttl e = (e', un)"
  shows "relay_ok (unlink_all un (put_room room e' r))"
proof (rule relay_ok_unlink_all)
  from ok e have eok: "entry_ok r e" by (rule relay_ok_entry)
  then have rok: "room_ok e" by (simp add: entry_ok_def)
  from sw have e': "e' = fst (remove_stale_clients room t ttl e)" and un: "un = snd (remove_stale_clients room t ttl e)"
    by simp_all
  show "relay_ok (put_room room e' r)"
    using ok e entry_ok_sweep [OF eok, of room t ttl] relay_ok_linked [OF ok e] sweep_keys_subset [OF rok]
    unfolding e' by (intro relay_ok_put_room) auto
  fix ip room' f a
  assume in_un: "(ip, room') \<in> set un" and f: "get_room (put_room room e' r) room' = Some f"
    and a: "a \<in> set (hm_keys (udp_clients f))"
  from in_un have "room' = room" unfolding un remove_stale_clients_unlinked [OF rok] by simp
  with f ok have "f = e'" by (simp add: get_room_put_room relay_okD)
  with a in_un show "ip_key a \<noteq> ip"
    using remove_stale_clients_unlinked_gone [OF rok] unfolding un e' by blast
qed

lemma get_room_sweep:
  "relay_ok r \<Longrightarrow> get_room (unlink_all un (put_room room e r)) room = Some e"
  by (simp add: get_room_put_room relay_okD)

section \<open>Linking\<close>

lemma count_add_ip_room:
  assumes "links_wf r"
  shows "count_ip_rooms (add_ip_room ip room r) ip' =
    (if ip' = ip \<and> \<not> linked r ip room then count_ip_rooms r ip + 1 else count_ip_rooms r ip')"
  using assms
  by (auto simp: count_ip_rooms_def add_ip_room_def ns_put_def links_wf_def ns_ok_def linked_def ns_get_def
      by_ip.sh_get_put ns_inner_def hm_len_insert hm_contains_def split: option.splits)

lemma relay_ok_add_ip_room:
  assumes ok: "relay_ok r" and room: "linked r ip room \<or> count_ip_rooms r ip < max_rooms_per_ip r"
  shows "relay_ok (add_ip_room ip room r)"
proof -
  from ok have l: "links_wf r" by (rule relay_okD)
  then have "ns_ok ip_idx NUM_SHARDS (ip_counts (add_ip_room ip room r))"
    by (simp add: add_ip_room_def links_wf_def by_ip.ns_ok_put)
  with l room have "links_wf (add_ip_room ip room r)"
    by (auto simp: links_wf_def [of "add_ip_room ip room r"] linked_add_ip_room count_add_ip_room
        links_wf_def [of r, THEN iffD1])
  with ok show ?thesis by (simp add: relay_ok_def)
qed


section \<open>Sweeping a shard\<close>

lemma shard_rooms_ok:
  assumes ok: "rooms_wf r" and i: "i < NUM_SHARDS"
  shows "rooms_ok (shards r ! i)"
    and "room_idx room = i \<Longrightarrow> hm_get (shards r ! i) room = get_room r room"
    and "(room, e) \<in> set (shards r ! i) \<Longrightarrow> room_idx room = i \<and> get_room r room = Some e"
proof -
  from ok i have sh: "shard_ok room_idx i (shards r ! i)" by (simp add: rooms_wf_def sh_ok_def)
  show get: "hm_get (shards r ! i) room = get_room r room" if "room_idx room = i" for room
    using that by (simp add: get_room_def sh_get_def)
  show mem: "room_idx room = i \<and> get_room r room = Some e" if "(room, e) \<in> set (shards r ! i)" for room e
  proof -
    from that sh have "hm_get (shards r ! i) room = Some e" by (simp add: shard_ok_def hm_get_in)
    with shard_ok_get [OF sh this] get show ?thesis by simp
  qed
  show "rooms_ok (shards r ! i)"
    using sh mem ok by (fastforce simp: rooms_ok_def shard_ok_def rooms_wf_def entry_ok_def)
qed

definition evict_shard :: "instant \<Rightarrow> duration \<Rightarrow> nat \<Rightarrow> relay \<Rightarrow> relay" where
  "evict_shard t ttl i r = r\<lparr>shards := (shards r)[i := fst (evict_stale_rooms (shards r ! i) t ttl)]\<rparr>"

definition evicted_in :: "instant \<Rightarrow> duration \<Rightarrow> nat \<Rightarrow> relay \<Rightarrow> nat" where
  "evicted_in t ttl i r = fst (snd (evict_stale_rooms (shards r ! i) t ttl))"

definition unlinked_in :: "instant \<Rightarrow> duration \<Rightarrow> nat \<Rightarrow> relay \<Rightarrow> (ip_addr \<times> string) list" where
  "unlinked_in t ttl i r = snd (snd (evict_stale_rooms (shards r ! i) t ttl))"

lemma get_room_evict_shard:
  assumes ok: "rooms_wf r" and i: "i < NUM_SHARDS"
  shows "get_room (evict_shard t ttl i r) room =
    (case get_room r room of None \<Rightarrow> None
     | Some e \<Rightarrow> if room_idx room = i
               then if room_evictable t ttl e then None else Some (fst (remove_stale_clients room t ttl e))
               else Some e)"
proof -
  have len: "i < length (shards r)" using ok i by (simp add: rooms_wf_def sh_ok_def)
  note g = hm_get_evict [OF shard_rooms_ok(1) [OF ok i], of t ttl room]
  show ?thesis
  proof (cases "room_idx room = i")
    case True
    with len have "get_room (evict_shard t ttl i r) room
        = hm_get (fst (evict_stale_rooms (shards r ! i) t ttl)) room"
      by (simp add: get_room_def sh_get_def evict_shard_def)
    with True g shard_rooms_ok(2) [OF ok i True] show ?thesis by (simp split: option.splits)
  next
    case False
    then have "get_room (evict_shard t ttl i r) room = get_room r room"
      by (simp add: get_room_def sh_get_def evict_shard_def)
    with False show ?thesis by (simp split: option.splits)
  qed
qed

lemma evict_shard_frame [simp]:
  "linked (evict_shard t ttl i r) = linked r"
  "entry_ok (evict_shard t ttl i r) = entry_ok r"
  "limits_ok (evict_shard t ttl i r) = limits_ok r"
  "waiting_wf (evict_shard t ttl i r) = waiting_wf r"
  "count_ip_rooms (evict_shard t ttl i r) = count_ip_rooms r"
  "max_rooms_per_ip (evict_shard t ttl i r) = max_rooms_per_ip r"
  "max_rooms (evict_shard t ttl i r) = max_rooms r"
  "ip_counts (evict_shard t ttl i r) = ip_counts r"
  "total_room_count (evict_shard t ttl i r) = total_room_count r"
  by (simp_all add: fun_eq_iff evict_shard_def wf_defs limit_defs)

lemma rooms_wf_evict_shard:
  assumes ok: "rooms_wf r" and i: "i < NUM_SHARDS"
  shows "rooms_wf (evict_shard t ttl i r)"
proof -
  from shard_rooms_ok(1) [OF ok i] have rok: "rooms_ok (shards r ! i)" .
  from ok i have sh: "shard_ok room_idx i (shards r ! i)" by (simp add: rooms_wf_def sh_ok_def)
  have "set (hm_keys (fst (evict_stale_rooms (shards r ! i) t ttl))) \<subseteq> set (hm_keys (shards r ! i))"
    using hm_get_evict [OF rok, of t ttl]
    by (auto simp: hm_contains_keys [symmetric] hm_contains_def split: option.splits if_splits)
  with sh rooms_ok_evict [OF rok, of t ttl] have "shard_ok room_idx i (fst (evict_stale_rooms (shards r ! i) t ttl))"
    by (auto simp: shard_ok_def rooms_ok_def)
  with ok have "sh_ok room_idx NUM_SHARDS (shards (evict_shard t ttl i r))"
    by (simp add: evict_shard_def rooms_wf_def sh_ok_update)
  with ok show ?thesis
    by (auto simp: rooms_wf_def [of "evict_shard t ttl i r"] get_room_evict_shard [OF ok i] entry_ok_sweep
        rooms_wf_def [of r, THEN iffD1] split: option.splits if_splits)
qed

lemma links_wf_evict_shard:
  assumes ok: "relay_ok r" and i: "i < NUM_SHARDS"
  shows "links_wf (evict_shard t ttl i r)"
proof -
  note rw = relay_okD(2) [OF ok]
  have "linked r (ip_key a) room"
    if "get_room (evict_shard t ttl i r) room = Some e'" "a \<in> set (hm_keys (udp_clients e'))" for room e' a
  proof -
    from that(1) obtain e where e: "get_room r room = Some e"
      and e': "e' = e \<or> e' = fst (remove_stale_clients room t ttl e)"
      by (auto simp: get_room_evict_shard [OF rw i] split: option.splits if_splits)
    have "room_ok e" using relay_ok_entry [OF ok e] by (simp add: entry_ok_def)
    with e' that(2) have "a \<in> set (hm_keys (udp_clients e))" using sweep_keys_subset by blast
    then show ?thesis by (rule relay_ok_linked [OF ok e])
  qed
  with relay_okD(3) [OF ok] show ?thesis by (simp add: links_wf_def)
qed


lemma evicted_in_sum:
  assumes ok: "rooms_wf r" and i: "i < NUM_SHARDS"
  shows "sh_sum (\<lambda>_ _. 1) (shards (evict_shard t ttl i r)) + evicted_in t ttl i r = sh_sum (\<lambda>_ _. 1) (shards r)"
proof -
  have len: "i < length (shards r)" using ok i by (simp add: rooms_wf_def sh_ok_def)
  from sh_sum_update [OF len, of "\<lambda>_ _. 1" "fst (evict_stale_rooms (shards r ! i) t ttl)"]
    evict_stale_rooms_count [OF shard_rooms_ok(1) [OF ok i], of t ttl]
  show ?thesis by (simp add: evict_shard_def evicted_in_def hm_len_sum)
qed

definition minus_rooms :: "nat \<Rightarrow> relay \<Rightarrow> relay" where
  "minus_rooms n r = r\<lparr>total_room_count := total_room_count r - word_of_nat n\<rparr>"

lemma relay_ok_evict_shard_core:
  assumes ok: "relay_ok r" and i: "i < NUM_SHARDS"
  shows "relay_ok (minus_rooms (evicted_in t ttl i r) (evict_shard t ttl i r))"
proof -
  note rw = relay_okD(2) [OF ok]
  let ?n = "evicted_in t ttl i r" and ?r = "evict_shard t ttl i r"
  note sum = evicted_in_sum [OF rw i, of t ttl]
  have cnt: "unat (total_room_count r) = sh_sum (\<lambda>_ _. 1) (shards r)" "total_room_count r \<le> max_rooms r"
    using relay_okD(4) [OF ok] by (simp_all add: counts_wf_def)
  have n: "?n \<le> unat (total_room_count r)" using sum cnt by linarith
  have "counts_wf (minus_rooms ?n ?r)"
    using unat_diff_of_nat [OF n] word_diff_le [OF n cnt(2)] sum cnt
    by (simp add: counts_wf_def minus_rooms_def)
  moreover have "links_wf (minus_rooms ?n ?r)"
    using links_wf_evict_shard [OF ok i, of t ttl] by (simp add: minus_rooms_def)
  ultimately show ?thesis
    using ok rooms_wf_evict_shard [OF rw i] by (simp add: relay_ok_def minus_rooms_def)
qed

lemma relay_ok_evict_shard:
  assumes ok: "relay_ok r" and i: "i < NUM_SHARDS"
  shows "relay_ok (unlink_all (unlinked_in t ttl i r) (minus_rooms (evicted_in t ttl i r) (evict_shard t ttl i r)))"
proof (rule relay_ok_unlink_all [OF relay_ok_evict_shard_core [OF ok i]])
  note rw = relay_okD(2) [OF ok]
  fix ip room e' a
  assume un: "(ip, room) \<in> set (unlinked_in t ttl i r)"
    and get: "get_room (minus_rooms (evicted_in t ttl i r) (evict_shard t ttl i r)) room = Some e'"
    and a: "a \<in> set (hm_keys (udp_clients e'))"
  from un obtain rm e where e: "(rm, e) \<in> set (shards r ! i)"
    and un': "(ip, room) \<in> set (snd (remove_stale_clients rm t ttl e))"
    by (auto simp: unlinked_in_def evict_stale_rooms_unlinked)
  from shard_rooms_ok(3) [OF rw i e] have g: "room_idx rm = i" "get_room r rm = Some e" by simp_all
  have rok: "room_ok e" using relay_ok_entry [OF ok g(2)] by (simp add: entry_ok_def)
  with un' have "rm = room" by (simp add: remove_stale_clients_unlinked)
  with g get have "e' = fst (remove_stale_clients room t ttl e)"
    by (simp add: minus_rooms_def get_room_evict_shard [OF rw i] split: if_splits)
  with rok un' a \<open>rm = room\<close> show "ip_key a \<noteq> ip"
    using remove_stale_clients_unlinked_gone by blast
qed

lemma minus_rooms_unlink: "minus_rooms n (unlink_all un r) = unlink_all un (minus_rooms n r)"
proof (induction un arbitrary: r)
  case (Cons x un)
  have "minus_rooms n (remove_ip_room ip room r) = remove_ip_room ip room (minus_rooms n r)" for ip room
    by (simp add: minus_rooms_def remove_ip_room_def)
  with Cons.IH show ?case by (cases x) simp
qed simp

lemma minus_rooms_add: "minus_rooms m (minus_rooms n r) = minus_rooms (n + m) r"
  by (simp add: minus_rooms_def)

lemma minus_rooms_evict: "minus_rooms n (evict_shard t ttl i r) = evict_shard t ttl i (minus_rooms n r)"
  by (simp add: minus_rooms_def evict_shard_def)

lemma evict_shards_Cons:
  "evict_shards t ttl (i # is) r =
     (let r' = unlink_all (unlinked_in t ttl i r) (evict_shard t ttl i r)
      in (fst (evict_shards t ttl is r'), evicted_in t ttl i r + snd (evict_shards t ttl is r')))"
  by (simp add: case_prod_beta Let_def unlinked_in_def evict_shard_def evicted_in_def)

lemma shards_minus_rooms [simp]: "shards (minus_rooms n r) = shards r"
  by (simp add: minus_rooms_def)

lemma evict_shards_minus:
  "evict_shards t ttl is (minus_rooms n r) = (minus_rooms n (fst (evict_shards t ttl is r)), snd (evict_shards t ttl is r))"
proof (induction "is" arbitrary: r)
  case (Cons i "is")
  show ?case
    unfolding evict_shards_Cons Let_def
    by (simp only: unlinked_in_def evicted_in_def shards_minus_rooms minus_rooms_evict [symmetric]
        minus_rooms_unlink [symmetric] Cons.IH fst_conv snd_conv)
qed simp

lemma relay_ok_evict_shards:
  assumes "relay_ok r" "\<forall>i \<in> set is. i < NUM_SHARDS"
  shows "relay_ok (minus_rooms (snd (evict_shards t ttl is r)) (fst (evict_shards t ttl is r)))"
  using assms
proof (induction "is" arbitrary: r)
  case Nil
  then show ?case by (simp add: minus_rooms_def)
next
  case (Cons i "is")
  let ?n = "evicted_in t ttl i r"
  let ?r = "unlink_all (unlinked_in t ttl i r) (evict_shard t ttl i r)"
  have "relay_ok (minus_rooms ?n ?r)"
    unfolding minus_rooms_unlink using Cons.prems by (intro relay_ok_evict_shard) auto
  from Cons.IH [OF this] Cons.prems(2) show ?case
    by (simp del: evict_shards.simps add: evict_shards_Cons Let_def evict_shards_minus minus_rooms_add)
qed

end
