(* ===== verification/Relay_Waiting.thy ===== *)
theory Relay_Waiting
  imports Relay_Inv
begin

text \<open>
  The store of registrations whose room does not exist yet keeps its invariant: its total and
  its per-IP counters agree with its entries under insertion, replacement, removal and expiry.
\<close>

lemma waiting_frame [frame_simps, simp]:
  "limits_ok (r\<lparr>pending_shards := ps\<rparr>) = limits_ok r"
  "limits_ok (r\<lparr>pending_total := n\<rparr>) = limits_ok r"
  "limits_ok (add_pending_ip ip r) = limits_ok r"
  "limits_ok (remove_pending_ip ip r) = limits_ok r"
  "rooms_wf (r\<lparr>pending_shards := ps\<rparr>) = rooms_wf r"
  "rooms_wf (r\<lparr>pending_total := n\<rparr>) = rooms_wf r"
  "rooms_wf (add_pending_ip ip r) = rooms_wf r"
  "rooms_wf (remove_pending_ip ip r) = rooms_wf r"
  "links_wf (r\<lparr>pending_shards := ps\<rparr>) = links_wf r"
  "links_wf (r\<lparr>pending_total := n\<rparr>) = links_wf r"
  "links_wf (add_pending_ip ip r) = links_wf r"
  "links_wf (remove_pending_ip ip r) = links_wf r"
  "counts_wf (r\<lparr>pending_shards := ps\<rparr>) = counts_wf r"
  "counts_wf (r\<lparr>pending_total := n\<rparr>) = counts_wf r"
  "counts_wf (add_pending_ip ip r) = counts_wf r"
  "counts_wf (remove_pending_ip ip r) = counts_wf r"
  by (simp_all add: add_pending_ip_def remove_pending_ip_def wf_defs limit_defs)

text \<open>The part of the invariant that the three tables carry, over the tables themselves.\<close>

definition tables_wf ::
    "nat \<Rightarrow> usize \<Rightarrow> (string, socket_addr, pending_reg) nested \<Rightarrow> (ip_addr, nat) shards \<Rightarrow> usize \<Rightarrow> bool" where
  "tables_wf per_ip cap ps cs n \<longleftrightarrow> ns_ok room_idx NUM_SHARDS ps \<and> sctr_ok NUM_SHARDS cs
     \<and> (\<forall>ip. sctr_get ip_idx cs ip = ns_sum (tally (\<lambda>(_, src). ip_key src) ip) ps)
     \<and> (\<forall>ip. sctr_get ip_idx cs ip \<le> per_ip)
     \<and> unat n = ns_sum (\<lambda>_ _. 1) ps \<and> n \<le> cap
     \<and> (\<forall>room src p. ns_get room_idx ps (room, src) = Some p \<longrightarrow> p_resolved_addr p = src)"

lemma waiting_wf_tables:
  "waiting_wf r \<longleftrightarrow> tables_wf (max_pending_per_ip r) (max_pending_global r)
     (pending_shards r) (pending_ip_shards r) (pending_total r)"
  by (simp add: waiting_wf_def tables_wf_def pending_count_for_ip_def get_pending_reg_def)

lemma tables_wfD:
  assumes "tables_wf m cap ps cs n"
  shows "ns_ok room_idx NUM_SHARDS ps" "sctr_ok NUM_SHARDS cs"
    "sctr_get ip_idx cs ip = ns_sum (tally (\<lambda>(_, src). ip_key src) ip) ps"
    "unat n = ns_sum (\<lambda>_ _. 1) ps" "n \<le> cap" "sctr_get ip_idx cs ip \<le> m"
    "ns_get room_idx ps (room, src) = Some p \<Longrightarrow> p_resolved_addr p = src"
  using assms unfolding tables_wf_def by blast+

lemma tables_wf_replace:
  assumes "tables_wf m cap ps cs n" "ns_get room_idx ps (room, src) = Some q" "p_resolved_addr p = src"
  shows "tables_wf m cap (ns_put room_idx (room, src) p ps) cs n"
proof -
  from assms(1) have ps: "ns_ok room_idx NUM_SHARDS ps"
    and sync: "\<And>ip. sctr_get ip_idx cs ip = ns_sum (tally (\<lambda>(_, src). ip_key src) ip) ps"
    by (simp_all add: tables_wf_def)
  note tally = waiting.tally_put_old [OF ps sync assms(2)]
  have total: "ns_sum (\<lambda>_ _. 1) (ns_put room_idx (room, src) p ps) = ns_sum (\<lambda>_ _. 1) ps"
    by (rule by_room.nested.total_put_same [OF ps assms(2)]) simp
  from assms ps show ?thesis
    unfolding tables_wf_def total
    by (elim conjE) (intro conjI allI tally by_room.ns_ok_put; auto simp: by_room.ns_get_put split: if_splits)
qed

lemma tables_wf_insert:
  assumes "tables_wf m cap ps cs n" "ns_get room_idx ps (room, src) = None" "p_resolved_addr p = src"
    "sctr_get ip_idx cs (ip_key src) < m" "n < cap"
  shows "tables_wf m cap (ns_put room_idx (room, src) p ps) (sctr_incr ip_idx (ip_key src) cs) (n + 1)"
proof -
  from assms(1) have ps: "ns_ok room_idx NUM_SHARDS ps" and cs: "sctr_ok NUM_SHARDS cs"
    and sync: "\<And>ip. sctr_get ip_idx cs ip = ns_sum (tally (\<lambda>(_, src). ip_key src) ip) ps"
    and n: "unat n = ns_sum (\<lambda>_ _. 1) ps" and le: "\<And>ip. sctr_get ip_idx cs ip \<le> m"
    by (fact tables_wfD)+
  note tally = waiting.tally_put_new [OF ps cs sync assms(2), simplified]
  have total: "ns_sum (\<lambda>_ _. 1) (ns_put room_idx (room, src) p ps) = Suc (ns_sum (\<lambda>_ _. 1) ps)"
    using by_room.nested.total_put_new [OF ps assms(2), of "\<lambda>_ _. 1" p] by simp
  have n': "unat (n + 1) = Suc (unat n)" using assms(5) by (simp add: unat_incr [of n cap] word_less_nat_alt)
  with assms(5) have "n + 1 \<le> cap" by (simp add: word_le_nat_alt word_less_nat_alt)
  moreover have "sctr_get ip_idx (sctr_incr ip_idx (ip_key src) cs) ip \<le> m" for ip
    using le [of ip] assms(4) by (auto simp: by_ip.counters.cnt_incr [OF cs])
  ultimately show ?thesis
    using assms(1,3) ps cs n' n unfolding tables_wf_def total
    by (elim conjE) (intro conjI allI tally by_room.ns_ok_put by_ip.counters.cinv_incr;
        auto simp: by_room.ns_get_put split: if_splits)
qed

lemma tables_wf_delete:
  assumes "tables_wf m cap ps cs n" "ns_get room_idx ps (room, src) = Some q"
  shows "tables_wf m cap (ns_del room_idx (room, src) ps) (sctr_decr ip_idx (ip_key src) cs) (n - 1)"
proof -
  from assms(1) have ps: "ns_ok room_idx NUM_SHARDS ps" and cs: "sctr_ok NUM_SHARDS cs"
    and sync: "\<And>ip. sctr_get ip_idx cs ip = ns_sum (tally (\<lambda>(_, src). ip_key src) ip) ps"
    and n: "unat n = ns_sum (\<lambda>_ _. 1) ps" and cap: "n \<le> cap" and le: "\<And>ip. sctr_get ip_idx cs ip \<le> m"
    by (fact tables_wfD)+
  note tally = waiting.tally_del [OF ps cs sync assms(2), simplified]
  have total: "Suc (ns_sum (\<lambda>_ _. 1) (ns_del room_idx (room, src) ps)) = ns_sum (\<lambda>_ _. 1) ps"
    using by_room.ns_sum_del [OF ps, of "\<lambda>_ _. 1" "(room, src)"] assms(2) by simp
  have one: "1 \<le> unat n" using total n by simp
  have n': "unat (n - 1) = unat n - 1" "n - 1 \<le> cap"
    using unat_diff_of_nat [OF one] word_diff_le [OF one cap] by simp_all
  moreover have "sctr_get ip_idx (sctr_decr ip_idx (ip_key src) cs) ip \<le> m" for ip
    using le [of ip] by (auto simp: by_ip.counters.cnt_decr [OF cs])
  ultimately show ?thesis
    using assms(1) ps cs n total unfolding tables_wf_def
    by (elim conjE) (intro conjI allI tally by_room.ns_ok_del by_ip.counters.cinv_decr;
        auto simp: by_room.ns_get_del split: if_splits)
qed

lemma tables_wf_delete_absent:
  assumes "tables_wf m cap ps cs n" "ns_get room_idx ps (room, src) = None"
  shows "tables_wf m cap (ns_del room_idx (room, src) ps) cs n"
proof -
  from assms(1) have ps: "ns_ok room_idx NUM_SHARDS ps" by (simp add: tables_wf_def)
  note same = by_room.nested.total_del_None [OF ps assms(2)]
  from assms(1) ps show ?thesis unfolding tables_wf_def same
    by (elim conjE) (intro conjI by_room.ns_ok_del; auto simp: by_room.ns_get_del split: if_splits)
qed

section \<open>Store and delete\<close>

lemma stored_iff:
  "(case sh_get room_idx (pending_shards r) room of None \<Rightarrow> False | Some rm \<Rightarrow> hm_contains rm src)
     \<longleftrightarrow> get_pending_reg r room src \<noteq> None"
  by (simp add: get_pending_reg_def ns_get_def hm_contains_def split: option.splits)

lemma relay_ok_store_pending_reg [wf_intros]:
  assumes "relay_ok r" "p_resolved_addr p = src" "pending_count_for_ip r (ip_key src) < max_pending_per_ip r"
  shows "relay_ok (fst (store_pending_reg room src p r))"
proof -
  from assms(1) have tab: "tables_wf (max_pending_per_ip r) (max_pending_global r)
      (pending_shards r) (pending_ip_shards r) (pending_total r)"
    by (simp add: relay_ok_def waiting_wf_tables)
  show ?thesis
  proof (cases "get_pending_reg r room src")
    case None
    then have new: "ns_get room_idx (pending_shards r) (room, src) = None" by (simp add: get_pending_reg_def)
    from assms None tables_wf_insert [OF tab new assms(2)] show ?thesis
      by (auto simp: store_pending_reg_def stored_iff Let_def relay_ok_def waiting_wf_tables limit_defs
          add_pending_ip_def pending_count_for_ip_def)
         (simp_all add: wf_defs limit_defs)
  next
    case (Some q)
    then have old: "ns_get room_idx (pending_shards r) (room, src) = Some q" by (simp add: get_pending_reg_def)
    from assms Some tables_wf_replace [OF tab old assms(2)] show ?thesis
      by (simp add: store_pending_reg_def stored_iff Let_def relay_ok_def waiting_wf_tables limit_defs)
  qed
qed

lemma relay_ok_delete_pending_reg [wf_intros]:
  assumes "relay_ok r"
  shows "relay_ok (delete_pending_reg room src r)"
proof -
  from assms have tab: "tables_wf (max_pending_per_ip r) (max_pending_global r)
      (pending_shards r) (pending_ip_shards r) (pending_total r)"
    by (simp add: relay_ok_def waiting_wf_tables)
  show ?thesis
  proof (cases "get_pending_reg r room src")
    case None
    then have "ns_get room_idx (pending_shards r) (room, src) = None" by (simp add: get_pending_reg_def)
    with assms tables_wf_delete_absent [OF tab this] show ?thesis
      by (auto simp: delete_pending_reg_def ns_get_def Let_def relay_ok_def waiting_wf_tables limit_defs
          split: option.splits)
  next
    case (Some q)
    then have old: "ns_get room_idx (pending_shards r) (room, src) = Some q" by (simp add: get_pending_reg_def)
    then obtain rm where "sh_get room_idx (pending_shards r) room = Some rm" "hm_get rm src = Some q"
      by (auto simp: ns_get_def split: option.splits)
    with assms tables_wf_delete [OF tab old] show ?thesis
      by (simp add: delete_pending_reg_def Let_def relay_ok_def waiting_wf_tables limit_defs)
         (simp add: remove_pending_ip_def wf_defs limit_defs)
  qed
qed


section \<open>Expiry\<close>

definition keep_fresh :: "instant \<Rightarrow> (string, (socket_addr, pending_reg) hashmap) hashmap \<Rightarrow>
    (string, (socket_addr, pending_reg) hashmap) hashmap" where
  "keep_fresh t g = hm_retain (\<lambda>_ rm. rm \<noteq> [])
     (map (\<lambda>(room, rm). (room, hm_retain (\<lambda>_ p. pending_fresh t p) rm)) g)"

definition stale_ips :: "instant \<Rightarrow> (string, (socket_addr, pending_reg) hashmap) hashmap \<Rightarrow> ip_addr list" where
  "stale_ips t g =
     concat (map (\<lambda>(_, rm). map ip_key (hm_keys (hm_retain (\<lambda>_ p. \<not> pending_fresh t p) rm))) g)"

definition stale_row :: "instant \<Rightarrow> (string \<times> socket_addr \<Rightarrow> pending_reg \<Rightarrow> nat) \<Rightarrow> string \<Rightarrow>
    (socket_addr, pending_reg) hashmap \<Rightarrow> nat" where
  "stale_row t f room rm = ns_row f room (hm_retain (\<lambda>_ p. \<not> pending_fresh t p) rm)"

lemma remove_stale_pending_regs_alt:
  "remove_stale_pending_regs t r =
     (let ips = concat (map (stale_ips t) (pending_shards r));
          r' = r\<lparr>pending_shards := map (keep_fresh t) (pending_shards r)\<rparr>
      in if ips \<noteq> [] then fold remove_pending_ip ips
                (r'\<lparr>pending_total := pending_total r - word_of_nat (length ips)\<rparr>) else r')"
  unfolding remove_stale_pending_regs_def Let_def stale_ips_def [abs_def] keep_fresh_def [abs_def] by simp

lemma keep_fresh_sum: "hm_sum (ns_row f) (keep_fresh t g) + hm_sum (stale_row t f) g = hm_sum (ns_row f) g"
proof (induction g)
  case (Cons x g)
  obtain room rm where x: "x = (room, rm)" by (cases x)
  have "ns_row f room (hm_retain (\<lambda>_ p. pending_fresh t p) rm) + stale_row t f room rm = ns_row f room rm"
    unfolding ns_row_def stale_row_def by (rule hm_sum_split)
  with Cons show ?case by (auto simp: x keep_fresh_def hm_retain_def)
qed (simp add: keep_fresh_def hm_retain_def)

lemma keep_fresh_sh_sum: "ns_sum f (map (keep_fresh t) ps) + sh_sum (stale_row t f) ps = ns_sum f ps"
proof (induction ps)
  case (Cons g ps)
  with keep_fresh_sum [of f t g] show ?case by (simp add: ns_sum_def sh_sum_def)
qed (simp add: ns_sum_def sh_sum_def)

lemma stale_row_ips:
  "length (map ip_key (hm_keys (hm_retain (\<lambda>_ p. \<not> pending_fresh t p) rm))) = stale_row t (\<lambda>_ _. 1) room rm"
  "count_list (map ip_key (hm_keys (hm_retain (\<lambda>_ p. \<not> pending_fresh t p) rm))) ip
     = stale_row t (tally (\<lambda>(_, src). ip_key src) ip) room rm"
proof -
  show "length (map ip_key (hm_keys (hm_retain (\<lambda>_ p. \<not> pending_fresh t p) rm))) = stale_row t (\<lambda>_ _. 1) room rm"
    by (simp add: stale_row_def ns_row_def hm_len_sum)
  have "count_list (map ip_key (hm_keys m)) ip = ns_row (tally (\<lambda>(_, src). ip_key src) ip) room m"
    for m :: "(socket_addr, pending_reg) hashmap"
    by (induction m) (auto simp: hm_keys_def ns_row_def tally_def)
  then show "count_list (map ip_key (hm_keys (hm_retain (\<lambda>_ p. \<not> pending_fresh t p) rm))) ip
     = stale_row t (tally (\<lambda>(_, src). ip_key src) ip) room rm"
    by (simp add: stale_row_def)
qed

lemma count_list_append: "count_list (xs @ ys) x = count_list xs x + count_list ys x"
  by (induction xs) auto

lemma stale_ips_sum:
  "length (stale_ips t g) = hm_sum (stale_row t (\<lambda>_ _. 1)) g"
  "count_list (stale_ips t g) ip = hm_sum (stale_row t (tally (\<lambda>(_, src). ip_key src) ip)) g"
proof (induction g)
  case (Cons x g)
  obtain room rm where x: "x = (room, rm)" by (cases x)
  { case 1 then show ?case using Cons stale_row_ips(1) [of t rm room] by (simp add: x stale_ips_def) }
  { case 2 then show ?case using Cons stale_row_ips(2) [of t rm ip room]
      by (simp add: x stale_ips_def count_list_append) }
qed (simp_all add: stale_ips_def)

lemma all_stale_ips_sum:
  "length (concat (map (stale_ips t) ps)) = sh_sum (stale_row t (\<lambda>_ _. 1)) ps"
  "count_list (concat (map (stale_ips t) ps)) ip = sh_sum (stale_row t (tally (\<lambda>(_, src). ip_key src) ip)) ps"
  by (induction ps) (simp_all add: sh_sum_def stale_ips_sum count_list_append)

lemma sh_get_keep_fresh:
  assumes "sh_ok room_idx NUM_SHARDS ps"
  shows "sh_get room_idx (map (keep_fresh t) ps) room =
    (case sh_get room_idx ps room of None \<Rightarrow> None
     | Some rm \<Rightarrow> let rm' = hm_retain (\<lambda>_ p. pending_fresh t p) rm in if rm' = [] then None else Some rm')"
proof -
  from assms have len: "room_idx room < length ps" and sh: "hm_ok (ps ! room_idx room)"
    using by_room.idx_less [of room] by (simp_all add: sh_ok_def shard_ok_def)
  then show ?thesis
    by (simp add: sh_get_def keep_fresh_def hm_get_retain hm_get_map_snd Let_def split: option.splits)
qed

lemma ns_ok_keep_fresh:
  assumes "ns_ok room_idx NUM_SHARDS ps"
  shows "ns_ok room_idx NUM_SHARDS (map (keep_fresh t) ps)"
proof -
  from assms have sh: "sh_ok room_idx NUM_SHARDS ps" by (simp add: ns_ok_def)
  have "shard_ok room_idx i (keep_fresh t g)" if "shard_ok room_idx i g" for i g
    using that by (auto simp: shard_ok_def keep_fresh_def) (auto simp: hm_keys_def hm_retain_def)
  with sh have "sh_ok room_idx NUM_SHARDS (map (keep_fresh t) ps)" by (simp add: sh_ok_def)
  with assms show ?thesis
    by (auto simp: ns_ok_def sh_get_keep_fresh Let_def split: option.splits if_splits)
qed

lemma ns_get_keep_fresh:
  assumes "ns_ok room_idx NUM_SHARDS ps" "ns_get room_idx (map (keep_fresh t) ps) k = Some p"
  shows "ns_get room_idx ps k = Some p \<and> pending_fresh t p"
  using assms
  by (cases k) (auto simp: ns_ok_def ns_get_def sh_get_keep_fresh hm_get_retain Let_def
      split: option.splits if_splits)


lemma tables_wf_keep_fresh:
  fixes t :: instant
  assumes wf: "tables_wf m cap ps cs n"
  defines "ips \<equiv> concat (map (stale_ips t) ps)"
  shows "tables_wf m cap (map (keep_fresh t) ps) (fold (sctr_decr ip_idx) ips cs) (n - word_of_nat (length ips))"
proof -
  from wf have ps: "ns_ok room_idx NUM_SHARDS ps" and cs: "sctr_ok NUM_SHARDS cs"
    and sync: "\<And>ip. sctr_get ip_idx cs ip = ns_sum (tally (\<lambda>(_, src). ip_key src) ip) ps"
    and n: "unat n = ns_sum (\<lambda>_ _. 1) ps" and cap: "n \<le> cap" and le: "\<And>ip. sctr_get ip_idx cs ip \<le> m"
    by (fact tables_wfD)+
  have cnt: "sctr_get ip_idx (fold (sctr_decr ip_idx) ips cs) ip = sctr_get ip_idx cs ip - count_list ips ip" for ip
    by (rule by_ip.counters.cnt_decr_all [OF cs])
  have len: "length ips + ns_sum (\<lambda>_ _. 1) (map (keep_fresh t) ps) = unat n"
    using keep_fresh_sh_sum [of "\<lambda>_ _. 1" t ps] n by (simp add: ips_def all_stale_ips_sum)
  then have le_n: "length ips \<le> unat n" by linarith
  have tal: "sctr_get ip_idx (fold (sctr_decr ip_idx) ips cs) ip
      = ns_sum (tally (\<lambda>(_, src). ip_key src) ip) (map (keep_fresh t) ps)" for ip
    unfolding cnt sync using keep_fresh_sh_sum [of "tally (\<lambda>(_, src). ip_key src) ip" t ps]
    by (simp add: ips_def all_stale_ips_sum)
  have "p_resolved_addr p = src" if "ns_get room_idx (map (keep_fresh t) ps) (room, src) = Some p" for room src p
    using ns_get_keep_fresh [OF ps that] tables_wfD(7) [OF wf] by blast
  moreover have "sctr_get ip_idx cs ip - count_list ips ip \<le> m" for ip using le [of ip] by linarith
  ultimately show ?thesis unfolding tables_wf_def
    using tal len unat_diff_of_nat [OF le_n] word_diff_le [OF le_n cap] ns_ok_keep_fresh [OF ps, of t]
      by_ip.counters.cinv_decr_all [OF cs, of ips]
    by (intro conjI allI impI) (simp_all add: cnt)
qed

lemma fold_remove_pending_ip:
  "fold remove_pending_ip ips r = r\<lparr>pending_ip_shards := fold (sctr_decr ip_idx) ips (pending_ip_shards r)\<rparr>"
  by (induction ips arbitrary: r) (simp_all add: remove_pending_ip_def)

lemma relay_ok_remove_stale_pending_regs [wf_intros]:
  assumes ok: "relay_ok r"
  shows "relay_ok (remove_stale_pending_regs t r)"
proof -
  from ok have tab: "tables_wf (max_pending_per_ip r) (max_pending_global r)
      (pending_shards r) (pending_ip_shards r) (pending_total r)"
    by (simp add: relay_ok_def waiting_wf_tables)
  define ips where "ips = concat (map (stale_ips t) (pending_shards r))"
  have alt: "remove_stale_pending_regs t r = r\<lparr>pending_shards := map (keep_fresh t) (pending_shards r),
      pending_total := pending_total r - word_of_nat (length ips),
      pending_ip_shards := fold (sctr_decr ip_idx) ips (pending_ip_shards r)\<rparr>"
    unfolding remove_stale_pending_regs_alt Let_def fold_remove_pending_ip ips_def [symmetric] by simp
  from tables_wf_keep_fresh [OF tab, of t] have "waiting_wf (remove_stale_pending_regs t r)"
    unfolding alt waiting_wf_tables by (simp add: ips_def limit_defs)
  moreover have "limits_ok (remove_stale_pending_regs t r)" "rooms_wf (remove_stale_pending_regs t r)"
    "links_wf (remove_stale_pending_regs t r)" "counts_wf (remove_stale_pending_regs t r)"
    using ok unfolding alt relay_ok_def by (simp_all add: wf_defs limit_defs)
  ultimately show ?thesis by (simp add: relay_ok_def)
qed

text \<open>After the sweep only fresh registrations are left, and every fresh one is.\<close>

lemma get_pending_reg_expiry:
  assumes ok: "relay_ok r"
  shows "get_pending_reg (remove_stale_pending_regs t r) room src =
    (case get_pending_reg r room src of None \<Rightarrow> None | Some p \<Rightarrow> if pending_fresh t p then Some p else None)"
proof -
  have ps: "ns_ok room_idx NUM_SHARDS (pending_shards r)"
    using ok by (simp add: relay_ok_def waiting_wf_def)
  have "pending_shards (remove_stale_pending_regs t r) = map (keep_fresh t) (pending_shards r)"
    unfolding remove_stale_pending_regs_alt Let_def fold_remove_pending_ip by simp
  with ps show ?thesis
    by (auto simp: get_pending_reg_def ns_get_def ns_ok_def sh_get_keep_fresh hm_get_retain Let_def hm_retain_empty
        dest: map_of_SomeD split: option.splits if_splits)
qed

end
