(* ===== verification/Relay_Safe.thy ===== *)
theory Relay_Safe
  imports Relay_Waiting
begin

text \<open>
  Every handler keeps the relay's invariant: admission into a new and into an existing room,
  waiting registrations, messages, dispatch, the two periodic sweeps, and the start-up state.
\<close>

section \<open>Admission\<close>

definition admit_client :: "instant \<Rightarrow> socket_addr \<Rightarrow> room_entry \<Rightarrow> room_entry" where
  "admit_client t src e =
     e\<lparr>udp_clients := hm_insert src (udp_client_new t (Some src)) (udp_clients e), entry_t := t\<rparr>"

lemma keys_admit_client [simp]:
  "set (hm_keys (udp_clients (admit_client t src e))) = insert src (set (hm_keys (udp_clients e)))"
  by (simp add: admit_client_def hm_keys_insert)

lemma room_ok_admit: "room_ok e \<Longrightarrow> room_ok (admit_client t src e)"
  by (auto simp: room_ok_def admit_client_def hm_ok_insert hm_get_insert udp_client_new_def split: if_splits)

lemma count_prefix_insert:
  "count_prefix_clients (e\<lparr>udp_clients := hm_insert src c (udp_clients e), entry_t := t\<rparr>) ip =
     (if \<not> hm_contains (udp_clients e) src \<and> ip_key src = ip
      then count_prefix_clients e ip + 1 else count_prefix_clients e ip)"
proof -
  have "length (filter (\<lambda>a. ip_key a = ip) (map fst (hm_insert src c m))) =
      (if \<not> hm_contains m src \<and> ip_key src = ip then length (filter (\<lambda>a. ip_key a = ip) (map fst m)) + 1
       else length (filter (\<lambda>a. ip_key a = ip) (map fst m)))" for m :: "(socket_addr, udp_client) hashmap"
    by (induction m) (auto simp: hm_contains_def)
  then show ?thesis by (simp add: count_prefix_clients_def hm_keys_def)
qed

lemma entry_ok_admit:
  assumes ok: "entry_ok r e"
    and caps: "hm_contains (udp_clients e) src \<or>
      length (udp_clients e) < max_clients_hard r
        \<and> count_prefix_clients e (ip_key src) < max_clients_per_prefix_per_room r"
  shows "entry_ok r (admit_client t src e)"
proof -
  have "count_prefix_clients (admit_client t src e) ip \<le> max_clients_per_prefix_per_room r" for ip
    using ok caps by (auto simp: admit_client_def count_prefix_insert entry_ok_def Suc_le_eq)
  moreover have "length (udp_clients (admit_client t src e)) \<le> max_clients_hard r"
    using ok caps by (auto simp: admit_client_def entry_ok_def hm_len_insert)
  moreover have "entry_pending_count_for_ip (admit_client t src e) = entry_pending_count_for_ip e"
    "pending (admit_client t src e) = pending e"
    by (simp_all add: fun_eq_iff admit_client_def entry_pending_count_for_ip_def)
  moreover have "msg_count (c_rate_limiter c) \<le> max_msg_rate r"
    if "hm_get (udp_clients (admit_client t src e)) a = Some c" for a c
    using that ok
    by (auto simp: admit_client_def hm_get_insert entry_ok_def udp_client_new_def rate_limiter_new_def
        split: if_splits)
  ultimately show ?thesis using ok by (simp add: entry_ok_def room_ok_admit)
qed

lemma entry_ok_remove_pending:
  assumes "entry_ok r e"
  shows "entry_ok r (fst (remove_pending src e))"
proof -
  from assms have ok: "room_ok e" by (simp add: entry_ok_def)
  then have ok': "room_ok (fst (remove_pending src e))" by (rule room_ok_remove_pending)
  have "entry_pending_count_for_ip (fst (remove_pending src e)) ip \<le> entry_pending_count_for_ip e ip" for ip
    using hm_sum_remove [OF room_okD(2) [OF ok], of "tally ip_key ip" src]
    by (simp add: entry_pending_count_for_ip_def room_okD(4) [OF ok] room_okD(4) [OF ok'])
  with assms ok' show ?thesis
    by (auto simp: entry_ok_def count_prefix_clients_def intro: order.trans [OF hm_len_remove_le]
        order.trans)
qed

lemma entry_ok_new: "limits_ok r \<Longrightarrow> entry_ok r (admit_client t src (room_entry_new t))"
  using room_ok_new [of t]
  by (intro entry_ok_admit)
    (simp_all add: entry_ok_def limits_ok_def room_entry_new_def count_prefix_clients_def hm_keys_def
      entry_pending_count_for_ip_def ctr_get_def)

lemma linked_if_ip_in_room: "relay_ok r \<Longrightarrow> get_room r room = Some e \<Longrightarrow> ip_in_room e ip \<Longrightarrow> linked r ip room"
  by (auto simp: ip_in_room_def relay_ok_linked)

text \<open>
  The step both admission paths end with: insert the client and link its IP unless another client
  of that IP is in the room.
\<close>

lemma relay_ok_admit:
  assumes ok: "relay_ok r" and e: "get_room r room = Some e" and e': "entry_ok r e'"
    and cl: "udp_clients e' = udp_clients e"
    and caps: "hm_contains (udp_clients e) src \<or>
      length (udp_clients e) < max_clients_hard r
        \<and> count_prefix_clients e (ip_key src) < max_clients_per_prefix_per_room r"
    and link: "linked r (ip_key src) room \<or> \<not> already \<and> count_ip_rooms r (ip_key src) < max_rooms_per_ip r"
  shows "relay_ok ((if \<not> already then add_ip_room (ip_key src) room else id) (put_room room (admit_client t src e') r))"
proof -
  let ?r = "(if \<not> already then add_ip_room (ip_key src) room else id) r"
  have pre: "count_prefix_clients e' = count_prefix_clients e"
    by (simp add: fun_eq_iff count_prefix_clients_def cl)
  have r': "relay_ok ?r" using ok link relay_ok_add_ip_room by auto
  have "linked ?r (ip_key a) room" if "a \<in> insert src (set (hm_keys (udp_clients e)))" for a
    using that link relay_ok_linked [OF ok e] linked_add_ip_room [OF relay_okD(3) [OF ok]] by auto
  moreover have "entry_ok ?r (admit_client t src e')"
    using entry_ok_admit [OF e', of src t] caps by (auto simp: cl pre)
  ultimately have "relay_ok (put_room room (admit_client t src e') ?r)"
    using e by (intro relay_ok_put_room [OF r']) (auto simp: cl)
  then show ?thesis by (cases already) (simp_all add: add_ip_put_room)
qed

lemma relay_ok_reg_admit_existing:
  assumes ok: "relay_ok r" and e: "get_room r room = Some e"
  shows "relay_ok (fst (reg_admit_existing h room src src e r))"
proof -
  obtain e1 un where sw: "remove_stale_clients room (now h) (reg_ttl r) e = (e1, un)" by fastforce
  define r1 where "r1 = unlink_all un (put_room room e1 r)"
  have r1: "relay_ok r1" unfolding r1_def by (rule relay_ok_sweep_room [OF ok e sw])
  have e1: "get_room r1 room = Some e1" unfolding r1_def using ok by (rule get_room_sweep)
  note eok = relay_ok_entry [OF r1 e1]
  have adm: "relay_ok ((if \<not> ip_in_room e1 (ip_key src) then add_ip_room (ip_key src) room else id)
       (put_room room (admit_client (now h) src e1) r1))"
    if "\<not> (length (udp_clients e1) \<ge> max_clients_hard r1 \<and> \<not> hm_contains (udp_clients e1) src)"
      "\<not> (\<not> ip_in_room e1 (ip_key src) \<and> count_ip_rooms r1 (ip_key src) \<ge> max_rooms_per_ip r1)"
      "\<not> (\<not> hm_contains (udp_clients e1) src
          \<and> count_prefix_clients e1 (ip_key src) \<ge> max_clients_per_prefix_per_room r1)"
    using that linked_if_ip_in_room [OF r1 e1, of "ip_key src"]
    by (intro relay_ok_admit [OF r1 e1 eok refl]) auto
  show ?thesis
    unfolding reg_admit_existing_def sw Let_def split_conv r1_def [symmetric]
      admit_client_def [of "now h" src e1, symmetric]
    using adm r1 by (auto intro!: relay_ok_drop relay_ok_count_reg)
qed


lemma relay_ok_evict_stale_rooms_all [wf_intros]:
  assumes "relay_ok r"
  shows "relay_ok (fst (evict_stale_rooms_all t r))"
proof -
  have len: "length (shards r) = NUM_SHARDS" using assms by (simp add: relay_ok_def rooms_wf_def sh_ok_def)
  obtain r' n where ev: "evict_shards t (reg_ttl r) [0..<length (shards r)] r = (r', n)" by fastforce
  have "relay_ok (minus_rooms n r')"
    using relay_ok_evict_shards [OF assms, of "[0..<length (shards r)]" t "reg_ttl r"] unfolding ev by (simp add: len)
  then show ?thesis
    by (cases "n > 0") (simp_all add: evict_stale_rooms_all_def ev minus_rooms_def)
qed

text \<open>The sweep of the room's own shard that precedes the creation of a room.\<close>

definition create_sweep :: "instant \<Rightarrow> string \<Rightarrow> relay \<Rightarrow> relay" where
  "create_sweep t room r =
     (if total_rooms r \<ge> max_rooms r
      then let (g, n, unlinked) = evict_stale_rooms (shards r ! room_idx room) t (reg_ttl r);
               r = r\<lparr>shards := (shards r)[room_idx room := g]\<rparr>;
               r = (if n > 0 then r\<lparr>total_room_count := total_room_count r - word_of_nat n\<rparr> else r)
           in unlink_all unlinked r
      else r)"

lemma create_sweep_alt:
  "create_sweep t room r =
     (if total_rooms r \<ge> max_rooms r
      then unlink_all (unlinked_in t (reg_ttl r) (room_idx room) r)
             (minus_rooms (evicted_in t (reg_ttl r) (room_idx room) r) (evict_shard t (reg_ttl r) (room_idx room) r))
      else r)"
  by (simp add: create_sweep_def case_prod_beta Let_def unlinked_in_def evicted_in_def evict_shard_def minus_rooms_def)

lemma relay_ok_create_sweep: "relay_ok r \<Longrightarrow> relay_ok (create_sweep t room r)"
  by (simp add: create_sweep_alt relay_ok_evict_shard by_room.idx_less)

lemma get_room_create_sweep:
  assumes "relay_ok r" "get_room r room = None"
  shows "get_room (create_sweep t room r) room = None"
  using assms get_room_evict_shard [OF relay_okD(2) [OF assms(1)] by_room.idx_less [of room]]
  by (simp add: create_sweep_alt minus_rooms_def)

lemma relay_ok_create:
  assumes ok: "relay_ok r" and new: "get_room r room = None" and cap: "total_rooms r < max_rooms r"
    and ip: "count_ip_rooms r (ip_key src) < max_rooms_per_ip r"
  shows "relay_ok (add_ip_room (ip_key src) room
    ((put_room room (admit_client t src (room_entry_new t)) r)\<lparr>total_room_count := total_room_count r + 1\<rparr>))"
proof -
  let ?e = "admit_client t src (room_entry_new t)"
  let ?r = "add_ip_room (ip_key src) room r"
  have r': "relay_ok ?r" using ok ip by (blast intro: relay_ok_add_ip_room)
  have keys: "set (hm_keys (udp_clients ?e)) = {src}" by (simp add: admit_client_def room_entry_new_def hm_keys_def)
  have lk: "linked ?r (ip_key src) room" using relay_okD(3) [OF ok] by (simp add: linked_add_ip_room)
  have rw: "rooms_wf (put_room room ?e ?r)"
    using relay_okD(1,2) [OF r'] entry_ok_new by (intro rooms_wf_put_room) auto
  have "links_wf (put_room room ?e ?r)"
    using relay_okD(2,3) [OF r'] lk keys by (intro links_wf_put_room) auto
  moreover have "counts_wf ((put_room room ?e ?r)\<lparr>total_room_count := total_room_count r + 1\<rparr>)"
  proof -
    from cap have "unat (total_room_count r + 1) = Suc (unat (total_room_count r))"
      "total_room_count r + 1 \<le> max_rooms r"
      by (simp_all add: word_less_nat_alt word_le_nat_alt total_rooms_def unat_incr [of _ "max_rooms r"])
    moreover have "sh_sum (\<lambda>_ _. 1) (sh_put room_idx room ?e (shards r)) = Suc (sh_sum (\<lambda>_ _. 1) (shards r))"
      using by_room.store.total_put_new [of "shards r" room "\<lambda>_ _. 1" ?e] relay_okD(2) [OF ok] new
      by (simp add: rooms_wf_def get_room_def)
    ultimately show ?thesis
      using relay_okD(4) [OF ok] by (simp add: counts_wf_def) (simp add: put_room_def add_ip_room_def)
  qed
  ultimately have "relay_ok ((put_room room ?e ?r)\<lparr>total_room_count := total_room_count r + 1\<rparr>)"
    using r' rw by (simp add: relay_ok_def)
  moreover have "add_ip_room (ip_key src) room ((put_room room ?e r)\<lparr>total_room_count := total_room_count r + 1\<rparr>)
      = (put_room room ?e ?r)\<lparr>total_room_count := total_room_count r + 1\<rparr>"
    by (simp add: add_ip_room_def put_room_def)
  ultimately show ?thesis by simp
qed

lemma relay_ok_reg_create_room:
  assumes ok: "relay_ok r" and new: "get_room r room = None"
  shows "relay_ok (fst (reg_create_room h room src src r))"
proof -
  define r1 where "r1 = create_sweep (now h) room r"
  have r1: "relay_ok r1" "get_room r1 room = None"
    unfolding r1_def using ok new by (simp_all add: relay_ok_create_sweep get_room_create_sweep)
  have eq: "reg_create_room h room src src r =
    (if total_rooms r1 \<ge> max_rooms r1 then (drop_packet (now h) src r1, NoReply)
     else if count_ip_rooms r1 (ip_key src) \<ge> max_rooms_per_ip r1 then (drop_packet (now h) src r1, NoReply)
     else (count_reg (add_ip_room (ip_key src) room
       ((put_room room (admit_client (now h) src (room_entry_new (now h))) r1)\<lparr>total_room_count := total_room_count r1 + 1\<rparr>)), Regd))"
    unfolding reg_create_room_def Let_def r1_def create_sweep_def admit_client_def limits_frame ..
  from relay_ok_create [OF r1] r1(1) show ?thesis
    unfolding eq by (auto simp: not_le intro!: relay_ok_drop relay_ok_count_reg)
qed

lemma relay_ok_reg_cookie_create_or_admit:
  assumes "relay_ok r"
  shows "relay_ok (fst (reg_cookie_create_or_admit h room src src r))"
proof -
  define r1 where "r1 = (if total_rooms r \<ge> max_rooms r then fst (evict_stale_rooms_all (now h) r) else r)"
  have r1: "relay_ok r1" using assms by (simp add: r1_def relay_ok_evict_stale_rooms_all)
  show ?thesis
    unfolding reg_cookie_create_or_admit_def Let_def r1_def [symmetric]
    using r1 by (auto simp: relay_ok_reg_create_room relay_ok_reg_admit_existing split: option.splits)
qed


section \<open>Registrations in a room\<close>

lemma relay_ok_reg_cookie_in_room:
  assumes ok: "relay_ok r" and e: "get_room r room = Some e"
  shows "relay_ok (fst (reg_cookie_in_room h room cb src e r))"
proof (cases "hm_get (pending e) src")
  case None
  with ok show ?thesis by (simp add: reg_cookie_in_room_def relay_ok_drop)
next
  case (Some p)
  note eok = relay_ok_entry [OF ok e]
  then have rok: "room_ok e" by (simp add: entry_ok_def)
  then have res: "p_resolved_addr p = src" using Some by (rule room_okD(6))
  have rem: "relay_ok (put_room room (fst (remove_pending src e)) r)"
    using relay_ok_linked [OF ok e] by (intro relay_ok_put_room [OF ok e] entry_ok_remove_pending eok) simp
  obtain e1 un where sw: "remove_stale_clients room (now h) (reg_ttl r) e = (e1, un)" by fastforce
  define r1 where "r1 = unlink_all un (put_room room e1 r)"
  have r1: "relay_ok r1" unfolding r1_def by (rule relay_ok_sweep_room [OF ok e sw])
  have e1: "get_room r1 room = Some e1" unfolding r1_def using ok by (rule get_room_sweep)
  define e2 where "e2 = fst (remove_pending src e1)"
  have e2: "entry_ok r1 e2" "udp_clients e2 = udp_clients e1"
    unfolding e2_def using entry_ok_remove_pending [OF relay_ok_entry [OF r1 e1]] by simp_all
  define already where "already =
    (\<exists>a \<in> set (hm_keys (udp_clients (admit_client (now h) src e2))). a \<noteq> src \<and> ip_key a = ip_key src)"
  have adm: "relay_ok ((if \<not> already then add_ip_room (ip_key src) room else id)
       (put_room room (admit_client (now h) src e2) r1))"
    if "\<not> (length (udp_clients e1) \<ge> max_clients_hard r1 \<and> \<not> hm_contains (udp_clients e1) src)"
      "\<not> (if \<not> hm_contains (udp_clients e1) src
          then \<not> ip_in_room e1 (ip_key src) \<and> count_ip_rooms r1 (ip_key src) \<ge> max_rooms_per_ip r1 else False)"
      "\<not> (\<not> hm_contains (udp_clients e1) src
          \<and> count_prefix_clients e1 (ip_key src) \<ge> max_clients_per_prefix_per_room r1)"
  proof (rule relay_ok_admit [OF r1 e1 e2])
    show "hm_contains (udp_clients e1) src \<or> length (udp_clients e1) < max_clients_hard r1
        \<and> count_prefix_clients e1 (ip_key src) < max_clients_per_prefix_per_room r1"
      using that by auto
    have "linked r1 (ip_key src) room" if "already \<or> hm_contains (udp_clients e1) src"
      using that linked_if_ip_in_room [OF r1 e1, of "ip_key src"] e2(2)
      by (auto simp: already_def ip_in_room_def hm_contains_keys)
    moreover have "linked r1 (ip_key src) room" if "ip_in_room e1 (ip_key src)"
      using that linked_if_ip_in_room [OF r1 e1] by simp
    ultimately show "linked r1 (ip_key src) room
        \<or> \<not> already \<and> count_ip_rooms r1 (ip_key src) < max_rooms_per_ip r1"
      using that(2) by (auto simp: not_le split: if_splits)
  qed
  show ?thesis
    unfolding reg_cookie_in_room_def Some option.case Let_def sw split_conv res r1_def [symmetric]
      e2_def [symmetric] admit_client_def [of "now h" src e2, symmetric] already_def [symmetric]
    using adm r1 ok rem by (auto intro!: relay_ok_drop relay_ok_count_reg)
qed

lemma entry_ok_touch_pending:
  assumes "entry_ok r e" "hm_get (pending e) src = Some p" "p_resolved_addr q = src"
  shows "entry_ok r (e\<lparr>pending := hm_insert src q (pending e)\<rparr>)"
proof -
  from assms(1) have ok: "room_ok e" by (simp add: entry_ok_def)
  note tally = pend.tally_put_old [OF room_okD(2,4) [OF ok] assms(2)]
  from ok assms(3) have "room_ok (e\<lparr>pending := hm_insert src q (pending e)\<rparr>)"
    by (auto simp: room_ok_def hm_ok_insert hm_get_insert tally [symmetric] split: if_splits)
  with assms show ?thesis
    by (simp add: entry_ok_def count_prefix_clients_def entry_pending_count_for_ip_def hm_len_insert
        hm_contains_def)
qed

lemma entry_ok_touch_client:
  assumes ok: "entry_ok r e" and c: "hm_get (udp_clients e) src = Some c"
    and c': "c_resolved_addr c' = Some src" "msg_count (c_rate_limiter c') \<le> max_msg_rate r"
  shows "entry_ok r (e\<lparr>udp_clients := hm_insert src c' (udp_clients e)\<rparr>)" (is "entry_ok r ?e")
proof -
  have in_room: "hm_contains (udp_clients e) src" using c by (simp add: hm_contains_def)
  from count_prefix_insert [where e = e and src = src and c = c' and t = "entry_t e"] in_room
  have "count_prefix_clients ?e ip = count_prefix_clients e ip" for ip
    by (simp add: count_prefix_clients_def)
  moreover have "room_ok ?e" using ok c' by (auto simp: entry_ok_def room_ok_def hm_ok_insert hm_get_insert split: if_splits)
  ultimately show ?thesis using ok c' in_room
    by (auto simp: entry_ok_def hm_len_insert hm_get_insert entry_pending_count_for_ip_def split: if_splits)
qed

lemma entry_ok_add_pending:
  assumes ok: "entry_ok r e" and new: "hm_get (pending e) src = None" and p: "p_resolved_addr p = src"
    and cap: "entry_pending_count_for_ip e (ip_key src) < max_pending_per_ip r"
  shows "entry_ok r (fst (add_pending src p (max_pending_per_room r) e))" (is "entry_ok r ?e")
proof -
  from ok have rok: "room_ok e" by (simp add: entry_ok_def)
  have "entry_pending_count_for_ip ?e ip \<le> max_pending_per_ip r" for ip
    using ok cap by (auto simp: add_pending_def entry_pending_count_for_ip_def Let_def new ctr_get_incr entry_ok_def Suc_le_eq)
  moreover have "length (pending ?e) \<le> max_pending_per_room r"
    using ok by (auto simp: add_pending_def Let_def hm_len_insert hm_contains_def new entry_ok_def)
  moreover have "udp_clients ?e = udp_clients e" by (simp add: add_pending_def Let_def)
  ultimately show ?thesis using ok room_ok_add_pending [OF rok p] by (simp add: entry_ok_def count_prefix_clients_def)
qed


lemma relay_ok_reg_initial_in_room:
  assumes ok: "relay_ok r" and e: "get_room r room = Some e"
  shows "relay_ok (fst (reg_initial_in_room h room src e r))"
proof -
  obtain e1 un where sw: "remove_stale_clients room (now h) (reg_ttl r) e = (e1, un)" by fastforce
  define r1 where "r1 = unlink_all un (put_room room e1 r)"
  have r1: "relay_ok r1" unfolding r1_def by (rule relay_ok_sweep_room [OF ok e sw])
  have e1: "get_room r1 room = Some e1" unfolding r1_def using ok by (rule get_room_sweep)
  note eok = relay_ok_entry [OF r1 e1] and lk = relay_ok_linked [OF r1 e1]
  have put: "relay_ok (put_room room e' r1)"
    if "entry_ok r1 e'" "set (hm_keys (udp_clients e')) = set (hm_keys (udp_clients e1))" for e'
    using that lk by (intro relay_ok_put_room [OF r1 e1]) auto
  define cl where "cl info = e1\<lparr>udp_clients := hm_insert src
    (info\<lparr>last_seen := now h, c_resolved_addr := Some src\<rparr>) (udp_clients e1)\<rparr>" for info
  define pe where "pe p = e1\<lparr>pending := hm_insert src
    (p\<lparr>created_at := now h, p_resolved_addr := src\<rparr>) (pending e1)\<rparr>" for p
  define ad where "ad = add_pending src \<lparr>cookie = rnd_cookie h, created_at = now h, p_resolved_addr = src\<rparr>
    (max_pending_per_room r1) e1"
  have 1: "relay_ok (put_room room (cl info) r1)" if "hm_get (udp_clients e1) src = Some info" for info
  proof (rule put)
    show "entry_ok r1 (cl info)" unfolding cl_def
      using eok that by (intro entry_ok_touch_client [OF eok that]) (simp_all add: entry_ok_def)
    show "set (hm_keys (udp_clients (cl info))) = set (hm_keys (udp_clients e1))"
      using that by (auto simp: cl_def hm_keys_insert hm_contains_keys [symmetric] hm_contains_def)
  qed
  have 2: "relay_ok (put_room room (pe p) r1)" if "hm_get (pending e1) src = Some p" for p
    by (rule put) (simp_all add: pe_def entry_ok_touch_pending [OF eok that])
  have 3: "relay_ok (put_room room (fst ad) r1)"
    if "hm_get (pending e1) src = None" "entry_pending_count_for_ip e1 (ip_key src) < max_pending_per_ip r1"
  proof (rule put)
    show "entry_ok r1 (fst ad)" unfolding ad_def using that by (intro entry_ok_add_pending [OF eok]) simp_all
  qed (simp add: ad_def add_pending_def Let_def)
  show ?thesis
    unfolding reg_initial_in_room_def Let_def sw split_conv r1_def [symmetric] ad_def [symmetric]
      cl_def [symmetric] pe_def [symmetric]
    using 1 2 3 r1 by (auto simp: case_prod_beta intro!: relay_ok_drop relay_ok_count_reg split: option.splits)
qed

section \<open>Handlers\<close>

lemma relay_ok_reg_store_challenge [wf_intros]:
  assumes "relay_ok r"
  shows "relay_ok (fst (reg_store_challenge h room src r))"
proof -
  let ?p = "\<lparr>cookie = rnd_cookie h, created_at = now h, p_resolved_addr = src\<rparr>"
  have "relay_ok (fst (store_pending_reg room src ?p r))"
    if "pending_count_for_ip r (ip_key src) < max_pending_per_ip r"
    using that assms by (intro relay_ok_store_pending_reg) simp_all
  with assms show ?thesis
    by (auto simp: reg_store_challenge_def Let_def case_prod_beta not_le
        intro!: relay_ok_drop relay_ok_core [OF core_send_reg_challenge])
qed

lemma relay_ok_send_if_regd: "relay_ok (fst x) \<Longrightarrow> relay_ok (fst (send_if_regd h room src x))"
  by (cases x) (auto simp: send_if_regd_def intro: relay_ok_core [OF core_send_regd])

lemma relay_ok_handle_reg_cookie [wf_intros]:
  assumes ok: "relay_ok r"
  shows "relay_ok (fst (handle_reg_cookie h room c src r))"
proof -
  have res: "p_resolved_addr p = src" if "get_pending_reg r room src = Some p" for p
    using that ok by (auto simp: relay_ok_def waiting_wf_def)
  show ?thesis
    unfolding handle_reg_cookie_def
    by (auto simp: res relay_ok_reg_cookie_in_room ok intro!: relay_ok_drop relay_ok_send_if_regd
        relay_ok_reg_cookie_create_or_admit relay_ok_delete_pending_reg relay_ok_reg_store_challenge
        split: option.splits)
qed

lemma relay_ok_handle_reg_initial [wf_intros]:
  assumes ok: "relay_ok r"
  shows "relay_ok (fst (handle_reg_initial h room src r))"
proof -
  have "relay_ok r'" if "get_room r room = Some e" "reg_initial_in_room h room src e r = (r', a)" for e r' a
    using relay_ok_reg_initial_in_room [OF ok that(1), of h src] that(2) by simp
  then show ?thesis
    unfolding handle_reg_initial_def
    by (auto simp: ok intro!: relay_ok_drop relay_ok_reg_store_challenge relay_ok_core [OF core_send_regd]
        relay_ok_core [OF core_send_reg_challenge] split: option.splits prod.splits reg_action.splits)
qed

lemma relay_ok_handle_reg [wf_intros]: "relay_ok r \<Longrightarrow> relay_ok (fst (handle_reg h room c src r))"
  unfolding handle_reg_def Let_def case_prod_beta
  by (auto intro!: relay_ok_drop relay_ok_handle_reg_cookie relay_ok_handle_reg_initial
      intro: relay_ok_core [OF core_is_reg_rate_limited])


lemma is_limited_le: "msg_count l \<le> m \<Longrightarrow> msg_count (fst (is_limited t w m l)) \<le> m"
  by (auto simp: is_limited_def Let_def word_le_nat_alt word_less_nat_alt not_le unat_incr [of _ m])

lemma relay_ok_relay_msg [wf_intros]:
  assumes ok: "relay_ok r"
  shows "relay_ok (fst (relay_msg h room phase body src r))"
proof -
  have step: "relay_ok (put_room room (e\<lparr>udp_clients := hm_insert src (info\<lparr>c_rate_limiter :=
      fst (is_limited (now h) (rate_window r) (max_msg_rate r) (c_rate_limiter info))\<rparr>) (udp_clients e)\<rparr>) r)"
    if e: "get_room r room = Some e" and info: "hm_get (udp_clients e) src = Some info" for e info
  proof (rule relay_ok_put_room [OF ok e])
    note eok = relay_ok_entry [OF ok e]
    then have "room_ok e" and rl: "msg_count (c_rate_limiter info) \<le> max_msg_rate r"
      using info by (simp_all add: entry_ok_def)
    then have "c_resolved_addr info = Some src" using info room_okD(5) by blast
    with rl show "entry_ok r (e\<lparr>udp_clients := hm_insert src (info\<lparr>c_rate_limiter :=
      fst (is_limited (now h) (rate_window r) (max_msg_rate r) (c_rate_limiter info))\<rparr>) (udp_clients e)\<rparr>)"
      by (intro entry_ok_touch_client [OF eok info]) (simp_all add: is_limited_le)
    have "src \<in> set (hm_keys (udp_clients e))"
      using info by (simp add: hm_contains_keys [symmetric] hm_contains_def)
    then show "\<forall>a \<in> set (hm_keys (udp_clients (e\<lparr>udp_clients := hm_insert src (info\<lparr>c_rate_limiter :=
      fst (is_limited (now h) (rate_window r) (max_msg_rate r) (c_rate_limiter info))\<rparr>) (udp_clients e)\<rparr>))).
        linked r (ip_key a) room"
      using relay_ok_linked [OF ok e] by (simp add: hm_keys_insert)
  qed
  have msgs: "relay_ok (q\<lparr>stat_msgs := n\<rparr>)" if "relay_ok q" for q n
    by (rule relay_ok_core [OF _ that]) (simp add: same_core_def)
  show ?thesis
    unfolding relay_msg_def Let_def case_prod_beta
    by (auto simp: ok intro!: relay_ok_drop msgs step relay_ok_core [OF core_write_targets]
        split: option.splits)
qed

lemma relay_ok_handle_msg [wf_intros]:
  assumes "relay_ok r"
  shows "relay_ok (fst (handle_msg h payload src r))"
  using assms unfolding handle_msg_def
  by (auto intro!: relay_ok_drop relay_ok_relay_msg split: list.splits)

lemma relay_ok_handle_packet [wf_intros]:
  assumes "relay_ok r"
  shows "relay_ok (fst (handle_packet h data src r))"
  using assms unfolding handle_packet_def Let_def case_prod_beta
  by (auto intro!: relay_ok_drop relay_ok_handle_reg relay_ok_handle_msg)

section \<open>Clean-up and start\<close>

lemma relay_ok_rate_tick [wf_intros]: "relay_ok r \<Longrightarrow> relay_ok (rate_tick t r)"
  by (rule relay_ok_core [of r]) (simp_all add: same_core_def rate_tick_def)

lemma room_tick_alt: "room_tick t r = remove_stale_pending_regs t (fst (evict_stale_rooms_all t r))"
  by (simp add: room_tick_def evict_stale_rooms_all_def case_prod_beta Let_def)

lemma relay_ok_room_tick [wf_intros]: "relay_ok r \<Longrightarrow> relay_ok (room_tick t r)"
  by (simp add: room_tick_alt relay_ok_remove_stale_pending_regs relay_ok_evict_stale_rooms_all)

lemma relay_ok_with_config:
  assumes "0 < unat (word_of_int (cfg_max_clients_hard c) :: usize)"
    "0 < unat (word_of_int (cfg_max_clients_per_prefix_per_room c) :: usize)"
  shows "relay_ok (with_config t c)"
proof -
  have "sh_get idx (replicate NUM_SHARDS []) k = None" if "idx k < NUM_SHARDS" for idx :: "'x \<Rightarrow> nat" and k
    using that by (simp add: sh_get_def)
  note none = this [of room_idx, OF by_room.idx_less] this [of ip_idx, OF by_ip.idx_less]
  have "ns_ok room_idx NUM_SHARDS (replicate NUM_SHARDS [])" "ns_ok ip_idx NUM_SHARDS (replicate NUM_SHARDS [])"
    by (simp_all add: ns_ok_def sh_ok_empty none)
  moreover have "sctr_get ip_idx (replicate NUM_SHARDS []) ip = 0" for ip
    using by_ip.idx_less [of ip] by (simp add: sctr_get_def ctr_get_def)
  ultimately show ?thesis
    using assms
    by (simp add: relay_ok_def wf_defs limit_defs with_config_def sh_ok_empty sctr_ok_empty none ns_sum_def ns_get_def)
qed

end
