(* ===== verification/Relay_Steps.thy ===== *)
theory Relay_Steps
  imports Relay_Safe
begin

text \<open>
  The running server as a state machine: the read loop queues datagrams, a worker handles the
  oldest one, the two clean-up timers fire. Steps interleave in any order and the clock readings
  of the steps are arbitrary. What holds in every reachable state follows by rule induction.
\<close>

inductive server_step :: "server \<Rightarrow> send list \<Rightarrow> server \<Rightarrow> bool" where
  recv: "server_step s [] (recv_packet dgram src s)"
| handle: "srv_queue s = (data, src) # q \<Longrightarrow> length (rnd_cookie h) = PENDING_COOKIE_BYTES \<Longrightarrow>
     handle_packet h data src (srv_relay s) = (r', out) \<Longrightarrow>
     server_step s out (s\<lparr>srv_relay := r', srv_queue := q\<rparr>)"
| rate: "server_step s [] (s\<lparr>srv_relay := rate_tick t (srv_relay s)\<rparr>)"
| room: "server_step s [] (s\<lparr>srv_relay := room_tick t (srv_relay s)\<rparr>)"

inductive reachable :: "(string \<Rightarrow> string option) \<Rightarrow> server \<Rightarrow> bool" for getenv where
  start: "reachable getenv (serve_start (relay_new getenv t))"
| step: "reachable getenv s \<Longrightarrow> server_step s out s' \<Longrightarrow> reachable getenv s'"

inductive_cases server_stepE: "server_step s out s'"

section \<open>Start-up\<close>

lemma unat_word_of_int_pos: "0 < n \<Longrightarrow> n < 2 ^ 63 \<Longrightarrow> unat (word_of_int n :: usize) = nat n"
proof -
  assume n: "0 < n" "n < 2 ^ 63"
  then have "take_bit 64 n = n" by (simp add: take_bit_int_eq_self)
  then show ?thesis by (simp add: unat_eq_nat_uint uint_word_of_int_eq)
qed

lemma relay_ok_new: "relay_ok (relay_new getenv t)"
proof -
  have pos: "0 < unat (word_of_int (env_int getenv name d) :: usize)" if "0 < d" "d < 2 ^ 63" for name d
    using env_int_from_pos [OF that, of "getenv name"] by (simp add: env_int_def unat_word_of_int_pos)
  show ?thesis
    unfolding relay_new_def
    by (rule relay_ok_with_config) (simp_all add: config_from_env_def config_defaults_def pos)
qed

lemma relay_ok_serve_start: "relay_ok r \<Longrightarrow> relay_ok (srv_relay (serve_start r))"
  by (rule relay_ok_core [of r]) (simp_all add: serve_start_def Let_def same_core_def)

section \<open>The invariant of reachable states\<close>

lemma relay_ok_recv_packet: "relay_ok (srv_relay s) \<Longrightarrow> relay_ok (srv_relay (recv_packet d src s))"
  by (rule relay_ok_core [of "srv_relay s"]) (simp_all add: recv_packet_def Let_def same_core_def)

lemma server_step_ok: "server_step s out s' \<Longrightarrow> relay_ok (srv_relay s) \<Longrightarrow> relay_ok (srv_relay s')"
proof (induction rule: server_step.induct)
  case (handle s data src q h r' out)
  then show ?case using relay_ok_handle_packet [of "srv_relay s" h data src] by simp
qed (simp_all add: relay_ok_recv_packet relay_ok_rate_tick relay_ok_room_tick)

lemma reachable_ok: "reachable getenv s \<Longrightarrow> relay_ok (srv_relay s)"
  by (induction rule: reachable.induct)
    (auto intro: relay_ok_serve_start relay_ok_new server_step_ok)


text \<open>Two datagrams that arrive one after the other and are handled in turn.\<close>

lemma reachable_two_packets:
  assumes s: "reachable getenv s" and q: "srv_queue s = []"
    and buf: "2 \<le> unat (cfg_pkt_chan_buf (cfg (srv_relay s)))"
    and d: "length d1 \<le> READ_BUF_SIZE" "length d2 \<le> READ_BUF_SIZE"
    and h: "length (rnd_cookie h1) = PENDING_COOKIE_BYTES" "length (rnd_cookie h2) = PENDING_COOKIE_BYTES"
  shows "reachable getenv (s\<lparr>srv_relay :=
    fst (handle_packet h2 d2 src (fst (handle_packet h1 d1 src (srv_relay s))))\<rparr>)"
proof -
  let ?r1 = "fst (handle_packet h1 d1 src (srv_relay s))"
  let ?r2 = "fst (handle_packet h2 d2 src ?r1)"
  have "recv_packet d2 src (recv_packet d1 src s) = s\<lparr>srv_queue := [(d1, src), (d2, src)]\<rparr>" (is "_ = ?s")
    using q buf d by (simp add: recv_packet_def)
  then have "reachable getenv ?s"
    using reachable.step [OF reachable.step [OF s server_step.recv, of d1 src] server_step.recv, of d2 src] by simp
  moreover have "server_step ?s (snd (handle_packet h1 d1 src (srv_relay s)))
      (?s\<lparr>srv_relay := ?r1, srv_queue := [(d2, src)]\<rparr>)" (is "server_step _ _ ?t")
    using h by (intro server_step.handle) simp_all
  ultimately have "reachable getenv ?t" by (rule reachable.step)
  moreover have "server_step ?t (snd (handle_packet h2 d2 src ?r1)) (?t\<lparr>srv_relay := ?r2, srv_queue := []\<rparr>)"
    using h by (intro server_step.handle) simp_all
  ultimately have "reachable getenv (?t\<lparr>srv_relay := ?r2, srv_queue := []\<rparr>)" by (rule reachable.step)
  then show ?thesis using q by (cases s) simp
qed

end
