(* ===== verification/Relay_Auth.thy ===== *)
theory Relay_Auth
  imports Relay_Steps
begin

text \<open>
  Who gets into a room and who hears from it. A client is admitted only by a REG from its own
  address that returns the unexpired cookie the relay keeps for that address and room; a
  datagram leaves the relay only towards the source of the datagram being handled or, carrying a
  message, towards the other admitted clients of the sender's room.
\<close>

section \<open>Clients of a room\<close>

definition clients :: "relay \<Rightarrow> string \<Rightarrow> socket_addr set" where
  "clients r room = (case get_room r room of None \<Rightarrow> {} | Some e \<Rightarrow> set (hm_keys (udp_clients e)))"

text \<open>The cookie the relay waits for, wherever it is kept: the global store is asked first.\<close>

definition waiting_cookie :: "relay \<Rightarrow> string \<Rightarrow> socket_addr \<Rightarrow> pending_reg option" where
  "waiting_cookie r room src =
     (case get_pending_reg r room src of
        Some p \<Rightarrow> Some p
      | None \<Rightarrow> (case get_room r room of None \<Rightarrow> None | Some e \<Rightarrow> hm_get (pending e) src))"

definition no_new :: "relay \<Rightarrow> relay \<Rightarrow> bool" where
  "no_new r r' \<longleftrightarrow> (\<forall>room. clients r' room \<subseteq> clients r room)"

definition only_new :: "string \<Rightarrow> socket_addr \<Rightarrow> relay \<Rightarrow> relay \<Rightarrow> bool" where
  "only_new room src r r' \<longleftrightarrow> (\<forall>room'. clients r' room' \<subseteq> clients r room' \<union> (if room' = room then {src} else {}))"

lemma no_new_refl [simp]: "no_new r r"
  by (simp add: no_new_def)

lemma no_new_trans: "no_new r s \<Longrightarrow> no_new s t \<Longrightarrow> no_new r t"
  unfolding no_new_def by blast

lemma no_new_same: "get_room r' = get_room r \<Longrightarrow> no_new r r'"
  by (simp add: no_new_def clients_def)

lemma no_new_core: "same_core r r' \<Longrightarrow> no_new r r'"
  by (rule no_new_same) (simp add: fun_eq_iff get_room_core)

lemma no_new_only: "no_new r r' \<Longrightarrow> only_new room src r r'"
  unfolding only_new_def no_new_def by blast

lemma only_new_trans: "only_new room src r s \<Longrightarrow> no_new s t \<Longrightarrow> only_new room src r t"
  unfolding only_new_def no_new_def by blast

lemma no_only_new_trans: "no_new r s \<Longrightarrow> only_new room src s t \<Longrightarrow> only_new room src r t"
  unfolding only_new_def no_new_def by blast

lemma no_new_put_room:
  assumes "rooms_wf r" "set (hm_keys (udp_clients e)) \<subseteq> clients r room"
  shows "no_new r (put_room room e r)"
  using assms by (auto simp: no_new_def clients_def get_room_put_room split: option.splits)

lemma only_new_put_room:
  assumes "rooms_wf r" "set (hm_keys (udp_clients e)) \<subseteq> insert src (clients r room)"
  shows "only_new room src r (put_room room e r)"
  using assms by (auto simp: only_new_def clients_def get_room_put_room split: option.splits if_splits)

lemma no_new_unlink [simp]: "no_new r (unlink_all un r)"
  by (rule no_new_same) simp

lemma no_new_sweep_room:
  assumes ok: "relay_ok r" and e: "get_room r room = Some e"
    and sw: "remove_stale_clients room t ttl e = (e', un)"
  shows "no_new r (unlink_all un (put_room room e' r))"
proof (rule no_new_trans [OF no_new_put_room no_new_unlink])
  have "room_ok e" using relay_ok_entry [OF ok e] by (simp add: entry_ok_def)
  then show "set (hm_keys (udp_clients e')) \<subseteq> clients r room"
    using sw sweep_keys_subset [of e _ room t ttl] e by (auto simp: clients_def)
qed (rule relay_okD(2) [OF ok])

lemma no_new_evict_shard:
  assumes "rooms_wf r" "i < NUM_SHARDS"
  shows "no_new r (evict_shard t ttl i r)"
proof -
  have "set (hm_keys (udp_clients (fst (remove_stale_clients room t ttl e)))) \<subseteq> set (hm_keys (udp_clients e))"
    if "get_room r room = Some e" for room e
  proof -
    from that assms(1) have "room_ok e" by (auto simp: rooms_wf_def entry_ok_def)
    then show ?thesis using sweep_keys_subset by blast
  qed
  then show ?thesis
    by (auto simp: no_new_def clients_def get_room_evict_shard [OF assms] split: option.splits if_splits)
qed

lemma get_room_minus_rooms [simp]: "get_room (minus_rooms n r) = get_room r"
  by (simp add: minus_rooms_def)

lemma rooms_wf_unlink_all [simp]: "rooms_wf (unlink_all un r) = rooms_wf r"
proof (induction un arbitrary: r)
  case (Cons x un)
  then show ?case by (cases x) simp
qed simp

lemma no_new_evict_shards:
  assumes "rooms_wf r" "\<forall>i \<in> set is. i < NUM_SHARDS"
  shows "no_new r (fst (evict_shards t ttl is r))"
  using assms
proof (induction "is" arbitrary: r)
  case (Cons i "is")
  let ?r = "unlink_all (unlinked_in t ttl i r) (evict_shard t ttl i r)"
  have "no_new r ?r" using Cons.prems by (intro no_new_trans [OF no_new_evict_shard no_new_unlink]) auto
  moreover have "no_new ?r (fst (evict_shards t ttl is ?r))"
    using Cons.prems by (intro Cons.IH) (auto simp: rooms_wf_evict_shard)
  ultimately show ?case
    unfolding evict_shards_Cons Let_def fst_conv by (rule no_new_trans)
qed simp

lemma no_new_evict_all:
  assumes "relay_ok r"
  shows "no_new r (fst (evict_stale_rooms_all t r))"
proof -
  have len: "length (shards r) = NUM_SHARDS" using assms by (simp add: relay_ok_def rooms_wf_def sh_ok_def)
  have "no_new r (fst (evict_shards t (reg_ttl r) [0..<length (shards r)] r))"
    using assms by (intro no_new_evict_shards) (auto simp: relay_okD len)
  then show ?thesis
    by (auto simp: evict_stale_rooms_all_def case_prod_beta Let_def no_new_def clients_def)
qed

lemma no_new_create_sweep:
  assumes "relay_ok r"
  shows "no_new r (create_sweep t room r)"
proof -
  have "no_new r (evict_shard t (reg_ttl r) (room_idx room) r)"
    using assms by (simp add: no_new_evict_shard relay_okD by_room.idx_less)
  then show ?thesis by (auto simp: create_sweep_alt no_new_def clients_def)
qed


section \<open>Who is admitted\<close>

lemma no_new_drop [simp]: "no_new r (drop_packet t src r)"
  by (rule no_new_core) simp

lemma no_new_drop_after: "no_new r s \<Longrightarrow> no_new r (drop_packet t src s)"
  by (rule no_new_trans [OF _ no_new_drop])

lemma only_new_drop_after: "no_new r s \<Longrightarrow> only_new room src r (drop_packet t src s)"
  by (rule no_new_only [OF no_new_drop_after])

lemma no_new_challenge_after: "no_new r s \<Longrightarrow> no_new r (fst (send_reg_challenge h room c src s))"
  by (rule no_new_trans [OF _ no_new_core [OF core_send_reg_challenge]])

lemma no_new_regd_after: "no_new r s \<Longrightarrow> no_new r (fst (send_regd h room src s))"
  by (rule no_new_trans [OF _ no_new_core [OF core_send_regd]])

lemma only_new_admit:
  assumes ok: "relay_ok r" and keys: "set (hm_keys (udp_clients e)) \<subseteq> clients r room"
  shows "only_new room src r (count_reg ((if b then add_ip_room ip room else id)
    (put_room room (admit_client t src e) r)))"
proof -
  have "only_new room src r (put_room room (admit_client t src e) r)"
    using keys by (intro only_new_put_room) (auto simp: relay_okD [OF ok])
  then show ?thesis
    by (rule only_new_trans) (cases b; simp add: no_new_same)
qed

lemma only_new_reg_admit_existing:
  assumes ok: "relay_ok r" and e: "get_room r room = Some e"
  shows "only_new room src r (fst (reg_admit_existing h room src src e r))"
proof -
  obtain e1 un where sw: "remove_stale_clients room (now h) (reg_ttl r) e = (e1, un)" by fastforce
  define r1 where "r1 = unlink_all un (put_room room e1 r)"
  have r1: "relay_ok r1" unfolding r1_def by (rule relay_ok_sweep_room [OF ok e sw])
  have e1: "get_room r1 room = Some e1" unfolding r1_def using ok by (rule get_room_sweep)
  have nn: "no_new r r1" unfolding r1_def by (rule no_new_sweep_room [OF ok e sw])
  have adm: "only_new room src r1 (count_reg ((if b then add_ip_room ip room else id)
    (put_room room (admit_client (now h) src e1) r1)))" for b ip
    using r1 e1 by (intro only_new_admit) (auto simp: clients_def)
  show ?thesis
    unfolding reg_admit_existing_def sw Let_def split_conv r1_def [symmetric]
      admit_client_def [of "now h" src e1, symmetric]
    using adm [of True "ip_key src"] adm [of False "ip_key src"] nn
    by (auto intro: no_new_only only_new_drop_after no_only_new_trans)
qed

lemma only_new_reg_create_room:
  assumes ok: "relay_ok r" and new: "get_room r room = None"
  shows "only_new room src r (fst (reg_create_room h room src src r))"
proof -
  define r1 where "r1 = create_sweep (now h) room r"
  have r1: "relay_ok r1" "no_new r r1"
    unfolding r1_def using ok by (simp_all add: relay_ok_create_sweep no_new_create_sweep)
  let ?e = "admit_client (now h) src (room_entry_new (now h))"
  have "only_new room src r1 (put_room room ?e r1)"
    by (intro only_new_put_room)
      (auto simp: relay_okD [OF r1(1)] admit_client_def room_entry_new_def hm_keys_def)
  then have "only_new room src r1 (count_reg (add_ip_room (ip_key src) room
       ((put_room room ?e r1)\<lparr>total_room_count := total_room_count r1 + 1\<rparr>)))"
    by (rule only_new_trans) (simp add: no_new_same)
  with r1 show ?thesis
    unfolding reg_create_room_def Let_def create_sweep_def [unfolded Let_def, symmetric] r1_def [symmetric]
      admit_client_def [symmetric] limits_frame
    by (auto intro: no_new_only only_new_drop_after no_only_new_trans)
qed

lemma only_new_reg_cookie_create_or_admit:
  assumes ok: "relay_ok r"
  shows "only_new room src r (fst (reg_cookie_create_or_admit h room src src r))"
proof -
  define r1 where "r1 = (if total_rooms r \<ge> max_rooms r then fst (evict_stale_rooms_all (now h) r) else r)"
  have r1: "relay_ok r1" "no_new r r1"
    using ok by (simp_all add: r1_def relay_ok_evict_stale_rooms_all no_new_evict_all)
  then have "only_new room src r1 (fst (case get_room r1 room of
      None \<Rightarrow> reg_create_room h room src src r1 | Some e \<Rightarrow> reg_admit_existing h room src src e r1))"
    by (simp add: only_new_reg_create_room only_new_reg_admit_existing split: option.splits)
  with r1 show ?thesis
    unfolding reg_cookie_create_or_admit_def Let_def r1_def [symmetric] by (blast intro: no_only_new_trans)
qed

lemma only_new_reg_cookie_in_room:
  assumes ok: "relay_ok r" and e: "get_room r room = Some e"
  shows "only_new room src r (fst (reg_cookie_in_room h room cb src e r))"
    and "\<not> no_new r (fst (reg_cookie_in_room h room cb src e r)) \<Longrightarrow>
      \<exists>p. hm_get (pending e) src = Some p \<and> cookie p = cb \<and> \<not> cookie_expired (now h) p"
proof -
  have rw: "rooms_wf r" by (rule relay_okD(2) [OF ok])
  have rem: "no_new r (drop_packet (now h) src (put_room room (fst (remove_pending src e)) r))"
    by (intro no_new_trans [OF no_new_put_room [OF rw] no_new_drop]) (simp add: clients_def e)
  then show "\<exists>p. hm_get (pending e) src = Some p \<and> cookie p = cb \<and> \<not> cookie_expired (now h) p"
    if "\<not> no_new r (fst (reg_cookie_in_room h room cb src e r))"
    using that unfolding reg_cookie_in_room_def Let_def
    by (cases "hm_get (pending e) src"; cases "cookie (the (hm_get (pending e) src)) = cb";
        cases "cookie_expired (now h) (the (hm_get (pending e) src))") simp_all
  obtain e1 un where sw: "remove_stale_clients room (now h) (reg_ttl r) e = (e1, un)" by fastforce
  define r1 where "r1 = unlink_all un (put_room room e1 r)"
  have r1: "relay_ok r1" unfolding r1_def by (rule relay_ok_sweep_room [OF ok e sw])
  have e1: "get_room r1 room = Some e1" unfolding r1_def using ok by (rule get_room_sweep)
  have nn: "no_new r r1" unfolding r1_def by (rule no_new_sweep_room [OF ok e sw])
  define e2 where "e2 = fst (remove_pending src e1)"
  have adm: "only_new room src r1 (count_reg ((if b then add_ip_room ip room else id)
    (put_room room (admit_client (now h) src e2) r1)))" for b ip
    using r1 e1 by (intro only_new_admit) (auto simp: clients_def e2_def)
  have res: "p_resolved_addr p = src" if "hm_get (pending e) src = Some p" for p
    using that relay_ok_entry [OF ok e] room_okD(6) unfolding entry_ok_def by blast
  show "only_new room src r (fst (reg_cookie_in_room h room cb src e r))"
  proof (cases "hm_get (pending e) src")
    case None
    then show ?thesis by (simp add: reg_cookie_in_room_def no_new_only)
  next
    case (Some p)
    show ?thesis
      unfolding reg_cookie_in_room_def Some option.case Let_def sw split_conv res [OF Some] r1_def [symmetric]
        e2_def [symmetric] admit_client_def [of "now h" src e2, symmetric]
      using adm [of True "ip_key src"] adm [of False "ip_key src"] nn rem
      by (auto intro: no_new_only only_new_drop_after no_only_new_trans)
  qed
qed


lemma no_new_delete_pending_reg [simp]: "no_new r (delete_pending_reg room src r)"
  by (rule no_new_same)
    (auto simp: delete_pending_reg_def Let_def remove_pending_ip_def get_room_def fun_eq_iff split: option.splits)

lemma no_new_reg_store_challenge [simp]: "no_new r (fst (reg_store_challenge h room src r))"
proof -
  have "no_new r (fst (store_pending_reg room src p r))" for p
    by (rule no_new_same)
      (auto simp: store_pending_reg_def Let_def add_pending_ip_def get_room_def fun_eq_iff)
  then show ?thesis
    by (auto simp: reg_store_challenge_def Let_def case_prod_beta
        intro: no_new_drop_after no_new_challenge_after)
qed

lemma no_new_send_if_regd: "no_new (fst x) (fst (send_if_regd h room src x))"
  by (cases x) (auto simp: send_if_regd_def intro: no_new_core)

lemma only_new_send_if_regd:
  "only_new room src r (fst x) \<Longrightarrow> only_new room src r (fst (send_if_regd h room src x))"
  by (rule only_new_trans [OF _ no_new_send_if_regd])

text \<open>What a REG with a cookie may add, and what it must have carried when it does.\<close>

lemma handle_reg_cookie_admits:
  assumes ok: "relay_ok r"
  shows "only_new room src r (fst (handle_reg_cookie h room c src r))"
    and "\<not> no_new r (fst (handle_reg_cookie h room c src r)) \<Longrightarrow>
      \<exists>p. waiting_cookie r room src = Some p \<and> hex_decode c = Some (cookie p) \<and> \<not> cookie_expired (now h) p"
proof -
  have res: "p_resolved_addr p = src" if "get_pending_reg r room src = Some p" for p
    using that ok by (auto simp: relay_ok_def waiting_wf_def)
  have del: "relay_ok (delete_pending_reg room src r)" using ok by (rule relay_ok_delete_pending_reg)
  have stored: "only_new room src r (fst (send_if_regd h room src (reg_cookie_create_or_admit h room src src
      (delete_pending_reg room src r))))"
    by (rule only_new_send_if_regd, rule no_only_new_trans [OF no_new_delete_pending_reg])
      (rule only_new_reg_cookie_create_or_admit [OF del])
  have in_room: "only_new room src r (fst (send_if_regd h room src (reg_cookie_in_room h room cb src e r)))"
    if "get_room r room = Some e" for cb e
    by (rule only_new_send_if_regd) (rule only_new_reg_cookie_in_room(1) [OF ok that])
  have gone: "no_new r (drop_packet (now h) src (delete_pending_reg room src r))"
    by (rule no_new_drop_after) simp
  show "only_new room src r (fst (handle_reg_cookie h room c src r))"
    unfolding handle_reg_cookie_def
    using stored in_room gone by (auto simp: res intro: no_new_only split: option.splits)
  have in_room': "\<exists>p. hm_get (pending e) src = Some p \<and> cookie p = cb \<and> \<not> cookie_expired (now h) p"
    if "get_room r room = Some e"
      "\<not> no_new r (fst (send_if_regd h room src (reg_cookie_in_room h room cb src e r)))" for cb e
    using that no_new_trans [OF _ no_new_send_if_regd] by (blast intro: only_new_reg_cookie_in_room(2) [OF ok])
  show "\<exists>p. waiting_cookie r room src = Some p \<and> hex_decode c = Some (cookie p) \<and> \<not> cookie_expired (now h) p"
    if "\<not> no_new r (fst (handle_reg_cookie h room c src r))"
    using that gone in_room' unfolding handle_reg_cookie_def waiting_cookie_def relay_hex_decode_eq
    by (auto split: option.splits if_splits)
qed


lemma no_new_reg_initial_in_room:
  assumes ok: "relay_ok r" and e: "get_room r room = Some e"
  shows "no_new r (fst (reg_initial_in_room h room src e r))"
proof -
  obtain e1 un where sw: "remove_stale_clients room (now h) (reg_ttl r) e = (e1, un)" by fastforce
  define r1 where "r1 = unlink_all un (put_room room e1 r)"
  have r1: "relay_ok r1" unfolding r1_def by (rule relay_ok_sweep_room [OF ok e sw])
  have e1: "get_room r1 room = Some e1" unfolding r1_def using ok by (rule get_room_sweep)
  have nn: "no_new r r1" unfolding r1_def by (rule no_new_sweep_room [OF ok e sw])
  have put: "no_new r (put_room room e' r1)"
    if "set (hm_keys (udp_clients e')) \<subseteq> set (hm_keys (udp_clients e1))" for e'
    using that e1 by (intro no_new_trans [OF nn] no_new_put_room relay_okD(2) [OF r1]) (simp add: clients_def)
  have cl: "no_new r (count_reg (put_room room (e1\<lparr>udp_clients := hm_insert src c (udp_clients e1)\<rparr>) r1))"
    if "hm_get (udp_clients e1) src = Some info" for c info
  proof (rule no_new_trans [OF put no_new_core [OF core_count_reg]])
    have "src \<in> set (hm_keys (udp_clients e1))"
      using that by (simp add: hm_contains_keys [symmetric] hm_contains_def)
    then show "set (hm_keys (udp_clients (e1\<lparr>udp_clients := hm_insert src c (udp_clients e1)\<rparr>)))
        \<subseteq> set (hm_keys (udp_clients e1))"
      by (simp add: hm_keys_insert)
  qed
  have ap: "no_new r (put_room room (fst (add_pending src p n e1)) r1)" for p n
    by (rule put) (simp add: add_pending_def Let_def)
  show ?thesis
    unfolding reg_initial_in_room_def Let_def sw split_conv r1_def [symmetric]
    using cl put ap nn by (auto simp: case_prod_beta intro: no_new_drop_after split: option.splits)
qed

lemma no_new_handle_reg_initial:
  assumes ok: "relay_ok r"
  shows "no_new r (fst (handle_reg_initial h room src r))"
proof -
  have "no_new r r'" if "get_room r room = Some e" "reg_initial_in_room h room src e r = (r', a)" for e r' a
    using no_new_reg_initial_in_room [OF ok that(1), of h src] that(2) by simp
  then show ?thesis
    unfolding handle_reg_initial_def
    by (auto intro: no_new_regd_after no_new_challenge_after
        split: option.splits prod.splits reg_action.splits)
qed

lemma no_new_relay_msg:
  assumes ok: "relay_ok r"
  shows "no_new r (fst (relay_msg h room phase body src r))"
proof -
  have put: "no_new r (put_room room (e\<lparr>udp_clients := hm_insert src c (udp_clients e)\<rparr>) r)"
    if "get_room r room = Some e" "hm_get (udp_clients e) src = Some info" for e c info
  proof (rule no_new_put_room [OF relay_okD(2) [OF ok]])
    have "src \<in> set (hm_keys (udp_clients e))"
      using that(2) by (simp add: hm_contains_keys [symmetric] hm_contains_def)
    then show "set (hm_keys (udp_clients (e\<lparr>udp_clients := hm_insert src c (udp_clients e)\<rparr>))) \<subseteq> clients r room"
      using that(1) by (simp add: hm_keys_insert clients_def)
  qed
  have wr: "no_new r (fst (write_targets ws i m ts s))" if "no_new r s" for ws i m ts s
    by (rule no_new_trans [OF that no_new_core [OF core_write_targets]])
  have "no_new r (s\<lparr>stat_msgs := n\<rparr>)" if "no_new r s" for s n
    using that by (simp add: no_new_def clients_def get_room_def)
  with put wr show ?thesis
    unfolding relay_msg_def Let_def case_prod_beta
    by (auto intro: no_new_drop_after split: option.splits)
qed

lemma no_new_handle_msg: "relay_ok r \<Longrightarrow> no_new r (fst (handle_msg h payload src r))"
  unfolding handle_msg_def by (auto simp: no_new_relay_msg split: list.splits)

text \<open>The REG branch of the dispatch.\<close>

definition is_reg :: "string \<Rightarrow> string \<Rightarrow> string \<Rightarrow> bool" where
  "is_reg data room c \<longleftrightarrow>
     (let trimmed = trim_ascii_space data
      in starts_with trimmed ''REG '' \<and> reg_args (trim_ascii_space (drop CMD_PREFIX_LEN trimmed)) = (room, c))"

lemma handle_packet_cases:
  obtains (drop) "handle_packet h data src r = (drop_packet (now h) src r, [])"
  | (reg) room c where "is_reg data room c" "valid_room_name room"
      "handle_packet h data src r = handle_reg h room c src r"
  | (msg) payload where "starts_with (trim_ascii_space data) ''MSG ''"
      "payload = drop CMD_PREFIX_LEN (trim_ascii_space data)"
      "handle_packet h data src r = handle_msg h payload src r"
proof (cases "handle_packet h data src r = (drop_packet (now h) src r, [])")
  case False
  obtain room c where rc: "reg_args (trim_ascii_space (drop CMD_PREFIX_LEN (trim_ascii_space data))) = (room, c)"
    by fastforce
  from False have "is_reg data room c \<and> valid_room_name room \<and>
        handle_packet h data src r = handle_reg h room c src r \<or>
      starts_with (trim_ascii_space data) ''MSG '' \<and>
        handle_packet h data src r = handle_msg h (drop CMD_PREFIX_LEN (trim_ascii_space data)) src r"
    by (auto simp: handle_packet_def Let_def rc is_reg_def split: if_splits)
  with reg msg show ?thesis by blast
qed (rule drop)

lemma waiting_cookie_core: "same_core r r' \<Longrightarrow> waiting_cookie r' room src = waiting_cookie r room src"
  by (auto simp: waiting_cookie_def get_room_def get_pending_reg_def same_core_def split: option.splits)

lemma clients_core: "same_core r r' \<Longrightarrow> clients r' room = clients r room"
  by (simp add: clients_def get_room_core)

lemma handle_reg_admits:
  assumes ok: "relay_ok r" and new: "a \<in> clients (fst (handle_reg h room c src r)) room'" "a \<notin> clients r room'"
  shows "a = src \<and> room' = room \<and> (\<exists>p. waiting_cookie r room src = Some p \<and> hex_decode c = Some (cookie p)
    \<and> \<not> cookie_expired (now h) p)"
proof -
  obtain r1 lim where lim: "is_reg_rate_limited (ip_str (ip_key src)) (now h) r = (r1, lim)" by fastforce
  have core: "same_core r r1" using core_is_reg_rate_limited [of r "ip_str (ip_key src)" "now h"] lim by simp
  have ok1: "relay_ok r1" using core ok by (rule relay_ok_core)
  have new1: "a \<in> clients (fst (handle_reg h room c src r)) room'" "a \<notin> clients r1 room'"
    using new core by (simp_all add: clients_core)
  then have "\<not> no_new r1 (fst (handle_reg h room c src r))" by (auto simp: no_new_def)
  moreover have "no_new r1 (drop_packet (now h) src r1)" "no_new r1 (fst (handle_reg_initial h room src r1))"
    using no_new_handle_reg_initial [OF ok1] by simp_all
  ultimately have "handle_reg h room c src r = handle_reg_cookie h room c src r1"
    by (auto simp: handle_reg_def lim split: if_splits)
  with new1 handle_reg_cookie_admits [OF ok1, where room = room and src = src and h = h and c = c] \<open>\<not> no_new r1 _\<close> core show ?thesis
    by (auto simp: only_new_def waiting_cookie_core split: if_splits)
qed


text \<open>
  C6. Admission needs the cookie: when handling a datagram makes an address a client of a room,
  then the datagram came from that address, it is a REG for that room, and it carries in hex the
  cookie the relay was keeping for this address and room, which had not expired. So nobody is
  admitted who cannot receive at the address he claims.
\<close>

theorem admission_needs_cookie:
  assumes "relay_ok r" "a \<in> clients (fst (handle_packet h data src r)) room" "a \<notin> clients r room"
  shows "a = src \<and> (\<exists>c p. is_reg data room c \<and> waiting_cookie r room src = Some p
    \<and> hex_decode c = Some (cookie p) \<and> \<not> cookie_expired (now h) p)"
proof (cases rule: handle_packet_cases [of h data src r])
  case drop
  with assms show ?thesis by (simp add: clients_core [OF core_drop_packet])
next
  case (reg room' c)
  with assms handle_reg_admits [of r a h room' c src room] show ?thesis by auto
next
  case (msg payload)
  with assms no_new_handle_msg [of r h payload src] show ?thesis by (auto simp: no_new_def)
qed

end
