(* ===== verification/Relay_Out.thy ===== *)
theory Relay_Out
  imports Relay_Auth
begin

text \<open>
  What the relay sends, and to whom. The three kinds of datagram are told apart, and each is tied
  to the state: REGD OK names a client that is admitted, a challenge carries a cookie that the
  relay keeps for the address it goes to, MSGD goes from a client to the others of its room.
\<close>

definition keeps_cookie :: "relay \<Rightarrow> string \<Rightarrow> socket_addr \<Rightarrow> byte list \<Rightarrow> bool" where
  "keeps_cookie r room src c \<longleftrightarrow>
     (\<exists>p. get_pending_reg r room src = Some p \<and> cookie p = c) \<or>
     (\<exists>e p. get_room r room = Some e \<and> hm_get (pending e) src = Some p \<and> cookie p = c)"

lemma keeps_cookie_core: "same_core r r' \<Longrightarrow> keeps_cookie r' room src c = keeps_cookie r room src c"
  by (simp add: keeps_cookie_def get_room_def get_pending_reg_def same_core_def)

lemma out_write_relay: "set (fst (snd (write_relay we m a r))) \<subseteq> {(m, a)}"
  by (simp add: write_relay_def)

lemma out_send_regd: "set (snd (send_regd h room src r)) \<subseteq> {(regd_ok_msg room src, src)}"
  by (simp add: send_regd_def write_relay_def Let_def)

lemma out_send_reg_challenge: "set (snd (send_reg_challenge h room c src r)) \<subseteq> {(challenge_msg room c, src)}"
  by (simp add: send_reg_challenge_def write_relay_def Let_def)

lemma out_write_targets: "set (snd (write_targets ws i m ts r)) \<subseteq> {m} \<times> set ts"
proof (induction ts arbitrary: i r)
  case (Cons t ts)
  then show ?case
    using out_write_relay [of "ws i" m t r] by (fastforce simp: case_prod_beta Let_def)
qed simp

section \<open>Confirmed registrations\<close>

lemma clients_admit:
  "rooms_wf r \<Longrightarrow> src \<in> clients (put_room room (admit_client t src e) r) room"
  by (simp add: clients_def get_room_put_room)

lemma clients_frame [simp]:
  "clients (add_ip_room ip room r) = clients r"
  "clients (count_reg r) = clients r"
  "clients (r\<lparr>total_room_count := n\<rparr>) = clients r"
  by (simp_all add: fun_eq_iff clients_def)

lemma regd_reg_admit_existing:
  assumes ok: "relay_ok r" and e: "get_room r room = Some e"
    and regd: "snd (reg_admit_existing h room src src e r) = Regd"
  shows "src \<in> clients (fst (reg_admit_existing h room src src e r)) room"
proof -
  obtain e1 un where sw: "remove_stale_clients room (now h) (reg_ttl r) e = (e1, un)" by fastforce
  define r1 where "r1 = unlink_all un (put_room room e1 r)"
  have r1: "rooms_wf r1" unfolding r1_def by (rule relay_okD(2) [OF relay_ok_sweep_room [OF ok e sw]])
  from regd clients_admit [OF r1, of src room "now h" e1] show ?thesis
    unfolding reg_admit_existing_def sw Let_def split_conv r1_def [symmetric]
      admit_client_def [of "now h" src e1, symmetric]
    by (auto split: if_splits)
qed

lemma regd_reg_create_room:
  assumes ok: "relay_ok r" and regd: "snd (reg_create_room h room src src r) = Regd"
  shows "src \<in> clients (fst (reg_create_room h room src src r)) room"
proof -
  define r1 where "r1 = create_sweep (now h) room r"
  have r1: "rooms_wf r1" unfolding r1_def by (rule relay_okD(2) [OF relay_ok_create_sweep [OF ok]])
  from regd clients_admit [OF r1, of src room "now h" "room_entry_new (now h)"] show ?thesis
    unfolding reg_create_room_def Let_def create_sweep_def [unfolded Let_def, symmetric] r1_def [symmetric]
      admit_client_def [symmetric]
    by (auto split: if_splits)
qed

lemma regd_reg_cookie_create_or_admit:
  assumes ok: "relay_ok r" and regd: "snd (reg_cookie_create_or_admit h room src src r) = Regd"
  shows "src \<in> clients (fst (reg_cookie_create_or_admit h room src src r)) room"
proof -
  define r1 where "r1 = (if total_rooms r \<ge> max_rooms r then fst (evict_stale_rooms_all (now h) r) else r)"
  have r1: "relay_ok r1" using ok by (simp add: r1_def relay_ok_evict_stale_rooms_all)
  from regd show ?thesis
    unfolding reg_cookie_create_or_admit_def Let_def r1_def [symmetric]
    using regd_reg_create_room [OF r1] regd_reg_admit_existing [OF r1] by (auto split: option.splits)
qed

lemma regd_reg_cookie_in_room:
  assumes ok: "relay_ok r" and e: "get_room r room = Some e"
    and regd: "snd (reg_cookie_in_room h room cb src e r) = Regd"
  shows "src \<in> clients (fst (reg_cookie_in_room h room cb src e r)) room"
proof (cases "hm_get (pending e) src")
  case (Some p)
  have "room_ok e" using relay_ok_entry [OF ok e] by (simp add: entry_ok_def)
  then have res: "p_resolved_addr p = src" using Some by (rule room_okD(6))
  obtain e1 un where sw: "remove_stale_clients room (now h) (reg_ttl r) e = (e1, un)" by fastforce
  define r1 where "r1 = unlink_all un (put_room room e1 r)"
  have r1: "rooms_wf r1" unfolding r1_def by (rule relay_okD(2) [OF relay_ok_sweep_room [OF ok e sw]])
  from regd clients_admit [OF r1, of src room "now h" "fst (remove_pending src e1)"] show ?thesis
    unfolding reg_cookie_in_room_def Some option.case Let_def sw split_conv res r1_def [symmetric]
      admit_client_def [symmetric]
    by (auto split: if_splits)
qed (use regd in \<open>simp add: reg_cookie_in_room_def\<close>)

lemma out_send_if_regd:
  assumes "(m, a) \<in> set (snd (send_if_regd h room src x))"
  shows "snd x = Regd \<and> m = regd_ok_msg room src \<and> a = src
    \<and> clients (fst (send_if_regd h room src x)) room = clients (fst x) room"
  using assms out_send_regd clients_core [OF core_send_regd]
  by (cases x) (fastforce simp: send_if_regd_def split: if_splits)

section \<open>Challenges\<close>

lemma store_pending_reg_get:
  assumes "relay_ok r" "snd (store_pending_reg room src p r)"
  shows "get_pending_reg (fst (store_pending_reg room src p r)) room src = Some p"
  using assms
  by (auto simp: store_pending_reg_def Let_def get_pending_reg_def add_pending_ip_def relay_ok_def waiting_wf_def
      by_room.ns_get_put split: if_splits)

lemma out_reg_store_challenge:
  assumes ok: "relay_ok r" and out: "(m, a) \<in> set (snd (reg_store_challenge h room src r))"
  shows "a = src \<and> m = challenge_msg room (rnd_cookie h)
    \<and> keeps_cookie (fst (reg_store_challenge h room src r)) room src (rnd_cookie h)"
proof -
  let ?st = "store_pending_reg room src \<lparr>cookie = rnd_cookie h, created_at = now h, p_resolved_addr = src\<rparr> r"
  from out have eq: "reg_store_challenge h room src r = send_reg_challenge h room (rnd_cookie h) src (fst ?st)"
    and st: "snd ?st"
    by (auto simp: reg_store_challenge_def Let_def case_prod_beta split: if_splits)
  have "keeps_cookie (fst ?st) room src (rnd_cookie h)"
    using store_pending_reg_get [OF ok st] by (simp add: keeps_cookie_def)
  with out show ?thesis
    unfolding eq by (auto simp: keeps_cookie_core [OF core_send_reg_challenge]
        dest!: subsetD [OF out_send_reg_challenge])
qed


lemma out_reg_initial_in_room:
  assumes ok: "relay_ok r" and e: "get_room r room = Some e"
  shows "snd (reg_initial_in_room h room src e r) = Challenge c \<Longrightarrow>
      keeps_cookie (fst (reg_initial_in_room h room src e r)) room src c"
    and "snd (reg_initial_in_room h room src e r) = Regd \<Longrightarrow>
      src \<in> clients (fst (reg_initial_in_room h room src e r)) room"
proof -
  obtain e1 un where sw: "remove_stale_clients room (now h) (reg_ttl r) e = (e1, un)" by fastforce
  define r1 where "r1 = unlink_all un (put_room room e1 r)"
  have r1: "rooms_wf r1" unfolding r1_def by (rule relay_okD(2) [OF relay_ok_sweep_room [OF ok e sw]])
  have keeps: "keeps_cookie (put_room room e' r1) room src (cookie p)"
    if "hm_get (pending e') src = Some p" for e' p
    using that by (simp add: keeps_cookie_def get_room_put_room [OF r1])
  have old: "keeps_cookie (put_room room (e1\<lparr>pending := hm_insert src
      (p\<lparr>created_at := now h, p_resolved_addr := src\<rparr>) (pending e1)\<rparr>) r1) room src (cookie p)" for p
    using keeps [of _ "p\<lparr>created_at := now h, p_resolved_addr := src\<rparr>"] by (simp add: hm_get_insert)
  have new: "keeps_cookie (put_room room (fst (add_pending src p n e1)) r1) room src (cookie p)"
    if "snd (add_pending src p n e1)" for p n
    using that by (intro keeps) (auto simp: add_pending_def Let_def hm_get_insert split: if_splits)
  note new' = new [of "\<lparr>cookie = rnd_cookie h, created_at = now h, p_resolved_addr = src\<rparr>", simplified]
  have cl: "src \<in> clients (put_room room (e1\<lparr>udp_clients := hm_insert src i (udp_clients e1)\<rparr>) r1) room" for i
    by (simp add: clients_def get_room_put_room [OF r1] hm_keys_insert)
  show "keeps_cookie (fst (reg_initial_in_room h room src e r)) room src c"
    if "snd (reg_initial_in_room h room src e r) = Challenge c"
    using that unfolding reg_initial_in_room_def Let_def sw split_conv r1_def [symmetric]
    by (auto simp: old new' case_prod_beta split: option.splits if_splits)
  show "src \<in> clients (fst (reg_initial_in_room h room src e r)) room"
    if "snd (reg_initial_in_room h room src e r) = Regd"
    using that unfolding reg_initial_in_room_def Let_def sw split_conv r1_def [symmetric]
    by (auto simp: cl case_prod_beta split: option.splits if_splits)
qed

section \<open>All datagrams\<close>

text \<open>The two answers to a REG.\<close>

definition reg_answer :: "relay \<Rightarrow> socket_addr \<Rightarrow> string \<Rightarrow> bool" where
  "reg_answer r src m \<longleftrightarrow>
     (\<exists>room. src \<in> clients r room \<and> m = regd_ok_msg room src) \<or>
     (\<exists>room c. keeps_cookie r room src c \<and> m = challenge_msg room c)"

lemma reg_answer_store_challenge:
  "relay_ok r \<Longrightarrow> (m, a) \<in> set (snd (reg_store_challenge h room src r)) \<Longrightarrow>
     a = src \<and> reg_answer (fst (reg_store_challenge h room src r)) src m"
  using out_reg_store_challenge unfolding reg_answer_def by blast

lemma reg_answer_send_if_regd:
  assumes "(m, a) \<in> set (snd (send_if_regd h room src x))" "snd x = Regd \<Longrightarrow> src \<in> clients (fst x) room"
  shows "a = src \<and> reg_answer (fst (send_if_regd h room src x)) src m"
  using out_send_if_regd [OF assms(1)] assms(2) unfolding reg_answer_def by blast

lemma reg_answer_handle_reg_cookie:
  assumes ok: "relay_ok r" and out: "(m, a) \<in> set (snd (handle_reg_cookie h room c src r))"
  shows "a = src \<and> reg_answer (fst (handle_reg_cookie h room c src r)) src m"
proof -
  have res: "p_resolved_addr p = src" if "get_pending_reg r room src = Some p" for p
    using that ok by (auto simp: relay_ok_def waiting_wf_def)
  have del: "relay_ok (delete_pending_reg room src r)" using ok by (rule relay_ok_delete_pending_reg)
  show ?thesis
    using out unfolding handle_reg_cookie_def
    by (auto simp: res ok split: option.splits if_splits
        dest!: reg_answer_send_if_regd reg_answer_store_challenge [OF ok]
        intro: regd_reg_cookie_create_or_admit [OF del] regd_reg_cookie_in_room [OF ok])
qed

lemma reg_answer_handle_reg_initial:
  assumes ok: "relay_ok r" and out: "(m, a) \<in> set (snd (handle_reg_initial h room src r))"
  shows "a = src \<and> reg_answer (fst (handle_reg_initial h room src r)) src m"
proof (cases "get_room r room")
  case None
  with out reg_answer_store_challenge [OF ok] show ?thesis
    by (auto simp: handle_reg_initial_def split: if_splits)
next
  case (Some e)
  obtain r1 act where act: "reg_initial_in_room h room src e r = (r1, act)" by fastforce
  note facts = out_reg_initial_in_room [OF ok Some, of h src] act
  show ?thesis
  proof (cases act)
    case Regd
    with out Some act have "a = src \<and> m = regd_ok_msg room src"
      by (auto simp: handle_reg_initial_def dest!: subsetD [OF out_send_regd] split: if_splits)
    moreover have "src \<in> clients (fst (handle_reg_initial h room src r)) room"
      using facts Regd Some out by (auto simp: handle_reg_initial_def clients_core [OF core_send_regd] split: if_splits)
    ultimately show ?thesis unfolding reg_answer_def by blast
  next
    case (Challenge c)
    with out Some act have "a = src \<and> m = challenge_msg room c"
      by (auto simp: handle_reg_initial_def dest!: subsetD [OF out_send_reg_challenge] split: if_splits)
    moreover have "keeps_cookie (fst (handle_reg_initial h room src r)) room src c"
      using facts Challenge Some out
      by (auto simp: handle_reg_initial_def keeps_cookie_core [OF core_send_reg_challenge] split: if_splits)
    ultimately show ?thesis unfolding reg_answer_def by blast
  next
    case NoReply
    with out Some act show ?thesis by (auto simp: handle_reg_initial_def split: if_splits)
  qed
qed


lemma reg_answer_handle_reg:
  assumes ok: "relay_ok r" and out: "(m, a) \<in> set (snd (handle_reg h room c src r))"
  shows "a = src \<and> reg_answer (fst (handle_reg h room c src r)) src m"
proof -
  obtain r1 lim where lim: "is_reg_rate_limited (ip_str (ip_key src)) (now h) r = (r1, lim)" by fastforce
  have "same_core r r1" using core_is_reg_rate_limited [of r "ip_str (ip_key src)" "now h"] lim by simp
  then have ok1: "relay_ok r1" using ok by (rule relay_ok_core)
  from out show ?thesis
    unfolding handle_reg_def lim Let_def split_conv
    by (auto split: if_splits dest: reg_answer_handle_reg_cookie [OF ok1] reg_answer_handle_reg_initial [OF ok1])
qed

lemma msg_targets_clients:
  "room_ok e \<Longrightarrow> t \<in> set (msg_targets e src) \<longleftrightarrow> t \<in> set (hm_keys (udp_clients e)) \<and> t \<noteq> src"
proof -
  assume ok: "room_ok e"
  have res: "c_resolved_addr c = Some a" if "(a, c) \<in> set (udp_clients e)" for a c
    using that room_okD(1,5) [OF ok] by (simp add: hm_get_in)
  show ?thesis
    by (force simp: msg_targets_def hm_keys_def res)
qed

lemma room_ok_limiter:
  "room_ok e \<Longrightarrow> hm_get (udp_clients e) src = Some info \<Longrightarrow>
     room_ok (e\<lparr>udp_clients := hm_insert src (info\<lparr>c_rate_limiter := rl\<rparr>) (udp_clients e)\<rparr>)"
  using room_okD(5) [of e src info] by (simp add: room_ok_def hm_ok_insert hm_get_insert)

lemma out_relay_msg:
  assumes ok: "relay_ok r" and out: "(m, a) \<in> set (snd (relay_msg h room phase body src r))"
  shows "m = msgd_msg phase body \<and> src \<in> clients r room \<and> a \<in> clients r room \<and> a \<noteq> src"
proof -
  from out obtain e info where e: "get_room r room = Some e" and info: "hm_get (udp_clients e) src = Some info"
    by (auto simp: relay_msg_def split: option.splits)
  define rl where "rl = fst (is_limited (now h) (rate_window r) (max_msg_rate r) (c_rate_limiter info))"
  define e1 where "e1 = e\<lparr>udp_clients := hm_insert src (info\<lparr>c_rate_limiter := rl\<rparr>) (udp_clients e)\<rparr>"
  have src: "src \<in> set (hm_keys (udp_clients e))" using info by (simp add: hm_contains_keys [symmetric] hm_contains_def)
  have e1: "room_ok e1"
    unfolding e1_def using relay_ok_entry [OF ok e] info by (simp add: entry_ok_def room_ok_limiter)
  from out have "m = msgd_msg phase body \<and> a \<in> set (msg_targets e1 src)"
    by (auto simp: relay_msg_def e info Let_def case_prod_beta e1_def rl_def
        dest!: subsetD [OF out_write_targets] split: if_splits)
  moreover have "set (hm_keys (udp_clients e1)) = set (hm_keys (udp_clients e))"
    using src by (auto simp: e1_def hm_keys_insert)
  ultimately show ?thesis using src by (simp add: msg_targets_clients [OF e1] clients_def e)
qed

text \<open>
  The relay neither reflects nor leaks: every datagram it sends while handling one either
  answers the source, confirming a registration that holds or handing out a cookie the relay
  keeps for that source, or it is a message of an admitted client that goes to another admitted
  client of the same room, with a valid phase and a hex body of at most 1024 digits.
\<close>

theorem sends_are_authorized:
  assumes "relay_ok r" "(m, a) \<in> set (snd (handle_packet h data src r))"
  shows "a = src \<and> reg_answer (fst (handle_packet h data src r)) src m \<or>
    (\<exists>room phase body. src \<in> clients r room \<and> a \<in> clients r room \<and> a \<noteq> src
      \<and> m = msgd_msg phase body \<and> phase \<in> {''spake2'', ''confirm''}
      \<and> is_valid_hex body \<and> length body \<le> MAX_MSG_BODY_LEN)"
proof (cases rule: handle_packet_cases [of h data src r])
  case drop
  with assms show ?thesis by simp
next
  case (reg room c)
  with assms reg_answer_handle_reg [of r m a h room c src] show ?thesis by simp
next
  case (msg payload)
  with assms(2) obtain room phase body where "phase \<in> {''spake2'', ''confirm''}" "is_valid_hex body"
    "length body \<le> MAX_MSG_BODY_LEN" "(m, a) \<in> set (snd (relay_msg h room phase body src r))"
    by (auto simp: handle_msg_def not_less split: list.splits if_splits)
  with out_relay_msg [OF assms(1), of m a h room phase body src] show ?thesis by blast
qed

end
