(* ===== verification/Relay_Live.thy ===== *)
theory Relay_Live
  imports Relay_Out
begin

text \<open>
  What the relay does for a well-behaved client: the two datagrams of a registration get the two
  answers the protocol promises and leave the client admitted; a message reaches every other
  client of the room. The datagrams are written out as they are on the wire.
\<close>

section \<open>Wire format\<close>

definition reg_wire :: "string \<Rightarrow> string" where
  "reg_wire room = ''REG '' @ room @ NL"

definition reg_cookie_wire :: "string \<Rightarrow> byte list \<Rightarrow> string" where
  "reg_cookie_wire room c = ''REG '' @ room @ '' '' @ to_hex_lower c @ NL"

definition msg_wire :: "string \<Rightarrow> string \<Rightarrow> string \<Rightarrow> string" where
  "msg_wire room phase body = ''MSG '' @ room @ '' '' @ phase @ '' '' @ body @ NL"

definition printable :: "char \<Rightarrow> bool" where
  "printable c \<longleftrightarrow> 33 \<le> (of_char c :: nat) \<and> (of_char c :: nat) \<le> 126"

lemma printable_not_ws: "printable c \<Longrightarrow> c \<notin> set ws_bytes"
  by (auto simp: printable_def ws_bytes_of_char)

lemma printable_not_space: "printable c \<Longrightarrow> c \<noteq> CHR '' ''"
  by (auto simp: printable_def)

lemma NL_ws: "CHR 10 \<in> set ws_bytes"
  by (simp add: ws_bytes_of_char)

lemma valid_room_name_iff:
  "valid_room_name room \<longleftrightarrow> room \<noteq> [] \<and> length room \<le> MAX_ROOM_NAME_LEN \<and> (\<forall>c \<in> set room. printable c)"
  by (auto simp: valid_room_name_def printable_def list_all_iff)

lemma hexdigit_printable: "is_ascii_hexdigit c \<Longrightarrow> printable c"
  by (auto simp: is_ascii_hexdigit_def printable_def Let_def)

lemma trim_ended:
  assumes "s \<noteq> []" "hd s \<notin> set ws_bytes" "last s \<notin> set ws_bytes"
  shows "trim_ascii_space (s @ NL) = s" "trim_ascii_space s = s"
proof -
  have "rev (dropWhile (\<lambda>c. c \<in> set ws_bytes) (rev s)) = s"
    using assms(1,3) by (cases s rule: rev_cases) auto
  moreover have "dropWhile (\<lambda>c. c \<in> set ws_bytes) s = s"
    using assms(1,2) by (cases s) auto
  moreover have "dropWhile (\<lambda>c. c \<in> set ws_bytes) (s @ NL) = s @ NL"
    using assms(1,2) by (cases s) auto
  ultimately show "trim_ascii_space (s @ NL) = s" "trim_ascii_space s = s"
    by (simp_all add: trim_ascii_space_spec trim_spec_def NL_def NL_ws)
qed

lemma printable_ends:
  "s \<noteq> [] \<Longrightarrow> (\<forall>c \<in> set s. printable c) \<Longrightarrow> hd s \<notin> set ws_bytes \<and> last s \<notin> set ws_bytes"
  by (simp add: printable_not_ws)

lemma R_not_ws: "CHR ''R'' \<notin> set ws_bytes" "CHR ''M'' \<notin> set ws_bytes"
  by (simp_all add: ws_bytes_of_char)

text \<open>Dispatch of a well-formed REG and MSG.\<close>

lemma handle_packet_reg:
  assumes room: "valid_room_name room" and last: "rest \<noteq> []" "last rest \<notin> set ws_bytes" "hd rest \<notin> set ws_bytes"
    and len: "length rest + 5 \<le> MAX_DATAGRAM_LEN" and args: "reg_args rest = (room, c)"
  shows "handle_packet h (''REG '' @ rest @ NL) src r = handle_reg h room c src r"
proof -
  have "trim_ascii_space ((''REG '' @ rest) @ NL) = ''REG '' @ rest"
    using last R_not_ws by (intro trim_ended) simp_all
  then have t: "trim_ascii_space (''REG '' @ rest @ NL) = ''REG '' @ rest" by simp
  have t2: "trim_ascii_space rest = rest" using last by (intro trim_ended)
  from room have "room \<noteq> []" by (simp add: valid_room_name_iff)
  with room len args show ?thesis
    unfolding handle_packet_def t
    by (simp add: CMD_PREFIX_LEN_def starts_with_def t2 NL_def)
qed

lemma handle_packet_msg:
  assumes "rest \<noteq> []" "last rest \<notin> set ws_bytes" "length rest + 5 \<le> MAX_DATAGRAM_LEN"
  shows "handle_packet h (''MSG '' @ rest @ NL) src r = handle_msg h rest src r"
proof -
  have "trim_ascii_space ((''MSG '' @ rest) @ NL) = ''MSG '' @ rest"
    using assms R_not_ws by (intro trim_ended) simp_all
  then have t: "trim_ascii_space (''MSG '' @ rest @ NL) = ''MSG '' @ rest" by simp
  with assms show ?thesis
    unfolding handle_packet_def t by (simp add: CMD_PREFIX_LEN_def starts_with_def NL_def)
qed

lemma splitn_2: "splitn 2 c s = (case split_first c s of None \<Rightarrow> [s] | Some (a, b) \<Rightarrow> [a, b])"
  by (simp add: numeral_2_eq_2 split: option.splits)

lemma splitn_3:
  "c \<notin> set a \<Longrightarrow> c \<notin> set b \<Longrightarrow> splitn 3 c (a @ c # b @ c # d) = [a, b, d]"
  by (simp add: numeral_3_eq_3)

lemma room_no_space: "valid_room_name room \<Longrightarrow> CHR '' '' \<notin> set room"
  by (auto simp: valid_room_name_iff dest: printable_not_space)


lemma handle_packet_reg_wire:
  assumes "valid_room_name room"
  shows "handle_packet h (reg_wire room) src r = handle_reg h room [] src r"
proof -
  from assms have room: "room \<noteq> []" "length room \<le> 64" "\<forall>c \<in> set room. printable c"
    by (simp_all add: valid_room_name_iff room_consts)
  have "split_first (CHR '' '') room = None" using room_no_space [OF assms] by (simp add: split_first_None)
  then have "reg_args room = (room, [])" by (simp add: reg_args_def splitn_2)
  with room printable_ends [of room] show ?thesis
    unfolding reg_wire_def by (intro handle_packet_reg [OF assms]) (simp_all add: room_consts)
qed

lemma handle_packet_reg_cookie_wire:
  assumes "valid_room_name room" "length c = PENDING_COOKIE_BYTES"
  shows "handle_packet h (reg_cookie_wire room c) src r = handle_reg h room (to_hex_lower c) src r"
proof -
  from assms have room: "room \<noteq> []" "length room \<le> 64" "\<forall>c \<in> set room. printable c"
    by (simp_all add: valid_room_name_iff room_consts)
  let ?x = "to_hex_lower c"
  have len: "length ?x = 32" using assms(2) by (simp add: room_consts)
  then have x: "?x \<noteq> []" by (metis list.size(3) zero_neq_numeral)
  have pr: "\<forall>c \<in> set ?x. printable c" using to_hex_lower_digits hexdigit_printable by blast
  note ends = printable_ends [OF x pr]
  have "reg_args (room @ '' '' @ ?x) = (room, ?x)"
    using room_no_space [OF assms(1)] trim_ended(2) [OF x] ends by (simp add: reg_args_def splitn_2)
  moreover have "last (room @ '' '' @ ?x) \<notin> set ws_bytes" "hd (room @ '' '' @ ?x) \<notin> set ws_bytes"
    using ends x room printable_ends [of room] by simp_all
  ultimately have "handle_packet h (''REG '' @ (room @ '' '' @ ?x) @ NL) src r = handle_reg h room ?x src r"
    using room len by (intro handle_packet_reg [OF assms(1)]) (simp_all add: room_consts)
  then show ?thesis by (simp add: reg_cookie_wire_def)
qed

section \<open>The registration limiter lets a new source through\<close>

definition reg_key :: "socket_addr \<Rightarrow> string" where
  "reg_key src = ip_str (ip_key src)"

definition limiter_clear :: "socket_addr \<Rightarrow> relay \<Rightarrow> bool" where
  "limiter_clear src r \<longleftrightarrow>
     (let sh = reg_shards r ! shard_idx (reg_key src) NUM_REG_SHARDS
      in hm_get (times sh) (reg_key src) = None \<and> length (times sh) < MAX_REG_SHARD_ENTRIES)
     \<and> 2 \<le> max_reg_rate r"

text \<open>The state after the first REG of a source, as far as the limiter is concerned.\<close>

definition limiter_once :: "socket_addr \<Rightarrow> relay \<Rightarrow> bool" where
  "limiter_once src r \<longleftrightarrow>
     (let sh = reg_shards r ! shard_idx (reg_key src) NUM_REG_SHARDS
      in hm_get (times sh) (reg_key src) \<noteq> None \<and> hm_get (sent sh) (reg_key src) = Some 1)
     \<and> 2 \<le> max_reg_rate r"

lemma limiter_first:
  assumes "limiter_clear src r" "length (reg_shards r) = NUM_REG_SHARDS"
  shows "\<not> snd (is_reg_rate_limited (reg_key src) t r)"
    and "limiter_once src (fst (is_reg_rate_limited (reg_key src) t r))"
  using assms shard_idx_16(2) [of "reg_key src"]
  by (auto simp: limiter_clear_def limiter_once_def is_reg_rate_limited_def reg_is_limited_def Let_def
      hm_get_insert limit_defs)

lemma limiter_second:
  assumes "limiter_once src r"
  shows "\<not> snd (is_reg_rate_limited (reg_key src) t r)"
  using assms
  by (auto simp: limiter_once_def is_reg_rate_limited_def reg_is_limited_def Let_def word_le_nat_alt
      case_prod_beta split: if_splits)

section \<open>A registration from start to finish\<close>

definition may_write :: "henv \<Rightarrow> relay \<Rightarrow> bool" where
  "may_write h r \<longleftrightarrow> write_pool r = None \<or> fst (writes h 0)"

lemma send_regd_out: "may_write h r \<Longrightarrow> snd (send_regd h room src r) = [(regd_ok_msg room src, src)]"
  by (auto simp: send_regd_def may_write_def write_relay_def)

lemma send_reg_challenge_out:
  "may_write h r \<Longrightarrow> snd (send_reg_challenge h room c src r) = [(challenge_msg room c, src)]"
  by (auto simp: send_reg_challenge_def may_write_def write_relay_def)


definition same_gate :: "relay \<Rightarrow> relay \<Rightarrow> bool" where
  "same_gate r r' \<longleftrightarrow> reg_shards r' = reg_shards r \<and> write_pool r' = write_pool r
     \<and> r_max_reg_rate r' = r_max_reg_rate r"

lemma gate_send_reg_challenge: "same_gate r (fst (send_reg_challenge h room c src r))"
  by (simp add: same_gate_def send_reg_challenge_def write_relay_def log_write_error_def)

lemma gate_store: "same_gate r (fst (store_pending_reg room src p r))"
  by (simp add: same_gate_def store_pending_reg_def Let_def add_pending_ip_def)

lemma limiter_once_gate: "same_gate r r' \<Longrightarrow> limiter_once src r \<Longrightarrow> limiter_once src r'"
  by (simp add: limiter_once_def same_gate_def limit_defs)

lemma may_write_gate: "write_pool r' = write_pool r \<Longrightarrow> may_write h r' = may_write h r"
  by (simp add: may_write_def)

lemma write_pool_limited [simp]: "write_pool (fst (is_reg_rate_limited k t r)) = write_pool r"
  by (simp add: is_reg_rate_limited_def Let_def case_prod_beta)

text \<open>Room for one more: what the two steps need of the state.\<close>

definition room_for :: "string \<Rightarrow> socket_addr \<Rightarrow> relay \<Rightarrow> bool" where
  "room_for room src r \<longleftrightarrow> get_room r room = None
     \<and> count_ip_rooms r (ip_key src) < max_rooms_per_ip r \<and> total_rooms r < max_rooms r"

lemma room_for_core: "same_core r r' \<Longrightarrow> room_for room src r' = room_for room src r"
  by (simp add: room_for_def same_core_def get_room_def count_ip_rooms_def limit_defs)

lemma room_for_store: "room_for room src (fst (store_pending_reg room' src' p r)) = room_for room src r"
  by (simp add: room_for_def store_pending_reg_def Let_def add_pending_ip_def get_room_def
      count_ip_rooms_def limit_defs)

lemma room_for_delete: "room_for room src (delete_pending_reg room' src' r) = room_for room src r"
  by (simp add: room_for_def delete_pending_reg_def Let_def remove_pending_ip_def get_room_def
      count_ip_rooms_def limit_defs split: option.splits)

lemma first_reg:
  assumes ok: "relay_ok r" and rf: "room_for room src r"
    and new: "get_pending_reg r room src = None"
    and pend: "pending_count_for_ip r (ip_key src) < max_pending_per_ip r" "pending_total r < max_pending_global r"
    and wr: "may_write h r"
  defines "res \<equiv> handle_reg_initial h room src r"
  shows "snd res = [(challenge_msg room (rnd_cookie h), src)]"
    and "get_pending_reg (fst res) room src = Some \<lparr>cookie = rnd_cookie h, created_at = now h, p_resolved_addr = src\<rparr>"
    and "room_for room src (fst res)" "same_gate r (fst res)" "relay_ok (fst res)"
proof -
  let ?p = "\<lparr>cookie = rnd_cookie h, created_at = now h, p_resolved_addr = src\<rparr>"
  let ?st = "store_pending_reg room src ?p r"
  have st: "snd ?st"
    using new pend(2) by (simp add: store_pending_reg_def stored_iff Let_def not_le)
  have eq: "res = send_reg_challenge h room (rnd_cookie h) src (fst ?st)"
    using rf pend(1) st
    by (simp add: res_def handle_reg_initial_def room_for_def reg_store_challenge_def not_le Let_def case_prod_beta)
  have core: "same_core (fst ?st) (fst res)" unfolding eq by simp
  have "may_write h (fst ?st)" using wr gate_store by (simp add: may_write_def same_gate_def)
  then show "snd res = [(challenge_msg room (rnd_cookie h), src)]" unfolding eq by (rule send_reg_challenge_out)
  show "get_pending_reg (fst res) room src = Some ?p"
    using store_pending_reg_get [OF ok st] core by (simp add: get_pending_reg_def same_core_def)
  show "room_for room src (fst res)" using rf core by (simp add: room_for_core room_for_store)
  show "same_gate r (fst res)"
    using gate_store gate_send_reg_challenge unfolding eq same_gate_def by metis
  show "relay_ok (fst res)" unfolding res_def using ok by (rule relay_ok_handle_reg_initial)
qed

lemma cookie_not_empty: "length c = PENDING_COOKIE_BYTES \<Longrightarrow> to_hex_lower c \<noteq> []"
  by (metis length_to_hex_lower list.size(3) mult_eq_0_iff PENDING_COOKIE_BYTES_def zero_neq_numeral)

lemma cookie_is_hex:
  assumes "length c = PENDING_COOKIE_BYTES"
  shows "is_valid_hex (to_hex_lower c)" "length (to_hex_lower c) = PENDING_COOKIE_BYTES * 2"
proof -
  have "length (to_hex_lower c) = 32" using assms by (simp add: room_consts)
  moreover from this have "to_hex_lower c \<noteq> []" by (metis list.size(3) zero_neq_numeral)
  ultimately show "is_valid_hex (to_hex_lower c)" "length (to_hex_lower c) = PENDING_COOKIE_BYTES * 2"
    using hex_decode_iff [of "to_hex_lower c"] by (simp_all add: is_valid_hex_def hex_decode_encode room_consts)
qed

lemma second_reg:
  assumes ok: "relay_ok r" and rf: "room_for room src r"
    and p: "get_pending_reg r room src = Some p" "cookie p = c" "length c = PENDING_COOKIE_BYTES"
    and fresh: "\<not> cookie_expired (now h) p" and wr: "may_write h r"
  shows "snd (handle_reg_cookie h room (to_hex_lower c) src r) = [(regd_ok_msg room src, src)]"
    and "clients (fst (handle_reg_cookie h room (to_hex_lower c) src r)) room = {src}"
proof -
  let ?d = "delete_pending_reg room src r"
  have res: "p_resolved_addr p = src" using ok p(1) by (auto simp: relay_ok_def waiting_wf_def)
  have d: "relay_ok ?d" "room_for room src ?d"
    using ok rf by (simp_all add: relay_ok_delete_pending_reg room_for_delete)
  note hex = cookie_is_hex [OF p(3)]
  define e where "e = admit_client (now h) src (room_entry_new (now h))"
  define r2 where "r2 = count_reg (add_ip_room (ip_key src) room
    ((put_room room e ?d)\<lparr>total_room_count := total_room_count ?d + 1\<rparr>))"
  have create: "reg_cookie_create_or_admit h room src src ?d = (r2, Regd)"
  proof -
    from d(2) have free: "\<not> max_rooms ?d \<le> total_rooms ?d" "\<not> max_rooms_per_ip ?d \<le> count_ip_rooms ?d (ip_key src)"
      "get_room ?d room = None"
      by (simp_all add: room_for_def not_le)
    show ?thesis
      unfolding reg_cookie_create_or_admit_def reg_create_room_def Let_def r2_def e_def admit_client_def
      by (simp add: free)
  qed
  have eq: "handle_reg_cookie h room (to_hex_lower c) src r = send_regd h room src r2"
    using hex p fresh create
    by (simp add: handle_reg_cookie_def relay_hex_decode_eq hex_decode_encode res send_if_regd_def)
  have "write_pool r2 = write_pool r"
    by (simp add: r2_def count_reg_def add_ip_room_def put_room_def delete_pending_reg_def Let_def
        remove_pending_ip_def split: option.splits)
  then show "snd (handle_reg_cookie h room (to_hex_lower c) src r) = [(regd_ok_msg room src, src)]"
    unfolding eq using wr by (intro send_regd_out) (simp add: may_write_def)
  have "clients r2 room = {src}"
    by (simp add: r2_def clients_def get_room_put_room relay_okD(2) [OF d(1)] e_def)
      (simp add: room_entry_new_def hm_keys_def)
  then show "clients (fst (handle_reg_cookie h room (to_hex_lower c) src r)) room = {src}"
    unfolding eq by (simp add: clients_core [OF core_send_regd])
qed


text \<open>The two steps in a row.\<close>

lemma registration_run:
  assumes ok: "relay_ok r" and room: "valid_room_name room" and rf: "room_for room src r"
    and new: "get_pending_reg r room src = None" and lim: "limiter_clear src r"
    and pend: "pending_count_for_ip r (ip_key src) < max_pending_per_ip r" "pending_total r < max_pending_global r"
    and cookie: "length (rnd_cookie h1) = PENDING_COOKIE_BYTES"
    and time: "now h2 \<le> now h1 + from_millis PENDING_REG_TTL_MS"
    and wr: "may_write h1 r" "may_write h2 r"
  defines "res1 \<equiv> handle_packet h1 (reg_wire room) src r"
  defines "res2 \<equiv> handle_packet h2 (reg_cookie_wire room (rnd_cookie h1)) src (fst res1)"
  shows "snd res1 = [(challenge_msg room (rnd_cookie h1), src)] \<and> snd res2 = [(regd_ok_msg room src, src)]
    \<and> clients (fst res2) room = {src} \<and> relay_ok (fst res2)"
proof -
  have len: "length (reg_shards r) = NUM_REG_SHARDS" using ok by (simp add: relay_ok_def limits_ok_def)
  define r0 where "r0 = fst (is_reg_rate_limited (reg_key src) (now h1) r)"
  have core0: "same_core r r0" unfolding r0_def by simp
  have eq1: "res1 = handle_reg_initial h1 room src r0"
    unfolding res1_def handle_packet_reg_wire [OF room] handle_reg_def r0_def
    using limiter_first(1) [OF lim len, of "now h1"] by (simp add: case_prod_beta Let_def reg_key_def)
  have wr0: "may_write h1 r0" using wr by (simp add: may_write_def r0_def)
  have r0: "relay_ok r0" "room_for room src r0" "get_pending_reg r0 room src = None"
    "pending_count_for_ip r0 (ip_key src) < max_pending_per_ip r0" "pending_total r0 < max_pending_global r0"
    using relay_ok_core [OF core0 ok] rf new pend core0
    by (simp_all add: room_for_core) (simp_all add: same_core_def get_pending_reg_def pending_count_for_ip_def limit_defs)
  note f = first_reg [OF r0 wr0, folded eq1]
  have once: "limiter_once src (fst res1)"
    by (rule limiter_once_gate [OF f(4)]) (simp add: r0_def limiter_first(2) [OF lim len])
  define q where "q = fst (is_reg_rate_limited (reg_key src) (now h2) (fst res1))"
  have coreq: "same_core (fst res1) q" unfolding q_def by simp
  note x = cookie_not_empty [OF cookie]
  have eq2: "res2 = handle_reg_cookie h2 room (to_hex_lower (rnd_cookie h1)) src q"
    unfolding res2_def handle_packet_reg_cookie_wire [OF room cookie] handle_reg_def q_def
    using limiter_second [OF once, of "now h2"] x by (simp add: case_prod_beta Let_def reg_key_def)
  have wrq: "may_write h2 q" using wr(2) f(4) by (simp add: q_def may_write_def same_gate_def r0_def)
  have pq: "get_pending_reg q room src = Some \<lparr>cookie = rnd_cookie h1, created_at = now h1, p_resolved_addr = src\<rparr>"
    using f(2) coreq by (simp add: get_pending_reg_def same_core_def)
  have fresh: "\<not> cookie_expired (now h2) \<lparr>cookie = rnd_cookie h1, created_at = now h1, p_resolved_addr = src\<rparr>"
    using time by (simp add: cookie_expired_def duration_since_def)
  have rfq: "room_for room src q" using f(3) coreq by (simp add: room_for_core)
  have okq: "relay_ok q" by (rule relay_ok_core [OF coreq f(5)])
  note g = second_reg [OF okq rfq pq _ cookie fresh wrq]
  have "relay_ok (fst res2)" unfolding eq2 using okq by (rule relay_ok_handle_reg_cookie)
  with f(1) g show ?thesis unfolding eq2 by simp
qed


text \<open>
  C12. A registration completes: a client whose source the limiter does not know yet, for a room
  that does not exist, with every cap not yet reached, gets the challenge for its REG, and when it
  returns the cookie within the life time of a waiting registration it is confirmed, is the only
  client of the new room, and the state is well formed.
\<close>

theorem registration_completes:
  assumes ok: "relay_ok r" and room: "valid_room_name room" and rf: "room_for room src r"
    and new: "get_pending_reg r room src = None" and lim: "limiter_clear src r"
    and pend: "pending_count_for_ip r (ip_key src) < max_pending_per_ip r" "pending_total r < max_pending_global r"
    and cookie: "length (rnd_cookie h1) = PENDING_COOKIE_BYTES"
    and time: "now h2 \<le> now h1 + from_millis PENDING_REG_TTL_MS"
    and wr: "may_write h1 r" "may_write h2 r"
  defines "res1 \<equiv> handle_packet h1 (reg_wire room) src r"
  defines "res2 \<equiv> handle_packet h2 (reg_cookie_wire room (rnd_cookie h1)) src (fst res1)"
  shows "snd res1 = [(challenge_msg room (rnd_cookie h1), src)] \<and> snd res2 = [(regd_ok_msg room src, src)]
    \<and> clients (fst res2) room = {src} \<and> relay_ok (fst res2)"
  unfolding res1_def res2_def
  by (rule registration_run [OF ok room rf new lim pend cookie time wr])

text \<open>A relay that just started, with no variable set.\<close>

lemma config_no_env: "config_from_env (\<lambda>_. None) = config_defaults"
  by (simp add: config_from_env_def config_defaults_def env_int_def env_int_from_def env_duration_ms_def
      env_duration_ms_from_def as_millis_def from_millis_def)

lemma fresh_tables:
  "get_room (with_config t c) room = None"
  "get_pending_reg (with_config t c) room src = None"
  "count_ip_rooms (with_config t c) ip = 0"
  "pending_count_for_ip (with_config t c) ip = 0"
  using by_room.idx_less [of room] by_ip.idx_less [of ip]
  by (simp_all add: with_config_def get_room_def get_pending_reg_def count_ip_rooms_def
      pending_count_for_ip_def sh_get_def ns_get_def sctr_get_def ctr_get_def)

definition fresh_relay :: relay where
  "fresh_relay = relay_new (\<lambda>_. None) 0"

lemma fresh_relay_config: "fresh_relay = with_config 0 config_defaults"
  by (simp add: fresh_relay_def relay_new_def config_no_env)

lemma fresh_relay_ok: "relay_ok fresh_relay"
  by (simp add: fresh_relay_def relay_ok_new)

lemma fresh_room_for: "room_for room src fresh_relay"
  by (simp add: room_for_def fresh_relay_config fresh_tables)
    (simp add: with_config_def config_defaults_def limit_defs)

lemma fresh_limiter_clear: "limiter_clear src fresh_relay"
  using shard_idx_16(2) [of "reg_key src"]
  by (simp add: limiter_clear_def fresh_relay_config with_config_def config_defaults_def limit_defs
      reg_shard_default_def room_consts)

definition demo_env :: "instant \<Rightarrow> henv" where
  "demo_env t = \<lparr>now = t, rnd_cookie = replicate 16 7, writes = (\<lambda>_. (True, SendOk))\<rparr>"

definition demo_addr :: "u16 \<Rightarrow> socket_addr" where
  "demo_addr port = SockV4 0x7F000001 port"

theorem registration_completes_witness:
  "let res1 = handle_packet (demo_env 0) (reg_wire ''lobby'') (demo_addr 5000) fresh_relay;
       res2 = handle_packet (demo_env 1000) (reg_cookie_wire ''lobby'' (replicate 16 7)) (demo_addr 5000) (fst res1)
   in snd res1 = [(challenge_msg ''lobby'' (replicate 16 7), demo_addr 5000)]
     \<and> snd res2 = [(regd_ok_msg ''lobby'' (demo_addr 5000), demo_addr 5000)]
     \<and> clients (fst res2) ''lobby'' = {demo_addr 5000} \<and> relay_ok (fst res2)"
proof -
  have "valid_room_name ''lobby''" by (simp add: valid_room_name_def room_consts)
  moreover have "pending_count_for_ip fresh_relay ip < max_pending_per_ip fresh_relay"
    "pending_total fresh_relay < max_pending_global fresh_relay" for ip
    by (simp_all add: fresh_relay_config fresh_tables)
      (simp_all add: with_config_def config_defaults_def limit_defs)
  moreover have "get_pending_reg fresh_relay ''lobby'' (demo_addr 5000) = None"
    by (simp add: fresh_relay_config fresh_tables)
  ultimately show ?thesis
    using registration_completes [of fresh_relay "''lobby''" "demo_addr 5000" "demo_env 0" "demo_env 1000"]
    by (simp add: fresh_relay_ok fresh_room_for fresh_limiter_clear demo_env_def room_consts may_write_def from_millis_def)
qed


section \<open>A message reaches the room\<close>

definition msg_allowed :: "henv \<Rightarrow> relay \<Rightarrow> string \<Rightarrow> socket_addr \<Rightarrow> bool" where
  "msg_allowed h r room src =
     (case get_room r room of None \<Rightarrow> False
      | Some e \<Rightarrow> (case hm_get (udp_clients e) src of None \<Rightarrow> False
        | Some info \<Rightarrow> \<not> snd (is_limited (now h) (rate_window r) (max_msg_rate r) (c_rate_limiter info))))"

lemma msg_targets_distinct: "room_ok e \<Longrightarrow> distinct (msg_targets e src)"
proof -
  assume ok: "room_ok e"
  have "c_resolved_addr c = Some a" if "(a, c) \<in> set (udp_clients e)" for a c
    using that room_okD(1,5) [OF ok] by (simp add: hm_get_in)
  then have "msg_targets e src = map fst (filter (\<lambda>(a, ci). a \<noteq> src \<and> c_resolved_addr ci \<noteq> None) (udp_clients e))"
    by (force simp: msg_targets_def)
  with room_okD(1) [OF ok] show ?thesis by (simp add: hm_ok_def distinct_map_filter)
qed

lemma write_targets_out:
  assumes "write_pool r = None \<or> (\<forall>i. fst (ws i))"
  shows "snd (write_targets ws i m ts r) = map (\<lambda>t. (m, t)) ts"
  using assms
proof (induction ts arbitrary: i r)
  case (Cons t ts)
  have "write_relay (ws i) m t r = (r, [(m, t)], snd (ws i) = SendOk)"
    using Cons.prems by (auto simp: write_relay_def)
  with Cons show ?case by (simp add: case_prod_beta Let_def)
qed simp

lemma handle_packet_msg_wire:
  assumes "valid_room_name room" "phase \<in> {''spake2'', ''confirm''}" "is_valid_hex body"
    "length body \<le> MAX_MSG_BODY_LEN"
  shows "handle_packet h (msg_wire room phase body) src r = relay_msg h room phase body src r"
proof -
  have body: "body \<noteq> []" "\<forall>c \<in> set body. printable c"
    using assms(3) by (auto simp: is_valid_hex_def list_all_iff hexdigit_printable split: if_splits)
  have ph: "CHR '' '' \<notin> set phase" "length phase \<le> 7" using assms(2) by auto
  have len: "length room \<le> 64" "length body \<le> 1024"
    using assms by (simp_all add: valid_room_name_iff room_consts MAX_MSG_BODY_LEN_def)
  let ?rest = "room @ CHR '' '' # phase @ CHR '' '' # body"
  have "last ?rest \<notin> set ws_bytes" using printable_ends [OF body] body by simp
  then have "handle_packet h (''MSG '' @ ?rest @ NL) src r = handle_msg h ?rest src r"
    using len ph by (intro handle_packet_msg) (simp_all add: room_consts)
  also have "\<dots> = relay_msg h room phase body src r"
    unfolding handle_msg_def splitn_3 [OF room_no_space [OF assms(1)] ph(1)]
    using assms by auto
  finally show ?thesis by (simp add: msg_wire_def)
qed

text \<open>
  C13. A message reaches the room: a well-formed MSG of an admitted client whose limiter has not
  run out is sent, unchanged apart from the command word, to every other client of the room,
  once each, and to nobody else.
\<close>

theorem message_delivered:
  assumes ok: "relay_ok r" and wf: "valid_room_name room" "phase \<in> {''spake2'', ''confirm''}"
      "is_valid_hex body" "length body \<le> MAX_MSG_BODY_LEN"
    and allowed: "msg_allowed h r room src" and wr: "write_pool r = None \<or> (\<forall>i. fst (writes h i))"
  shows "\<exists>ts. snd (handle_packet h (msg_wire room phase body) src r) = map (\<lambda>t. (msgd_msg phase body, t)) ts
    \<and> distinct ts \<and> set ts = clients r room - {src}"
proof -
  from allowed obtain e info where e: "get_room r room = Some e" and info: "hm_get (udp_clients e) src = Some info"
    and lim: "\<not> snd (is_limited (now h) (rate_window r) (max_msg_rate r) (c_rate_limiter info))"
    by (auto simp: msg_allowed_def split: option.splits)
  define rl where "rl = fst (is_limited (now h) (rate_window r) (max_msg_rate r) (c_rate_limiter info))"
  define e1 where "e1 = e\<lparr>udp_clients := hm_insert src (info\<lparr>c_rate_limiter := rl\<rparr>) (udp_clients e)\<rparr>"
  have rok: "room_ok e" using relay_ok_entry [OF ok e] by (simp add: entry_ok_def)
  moreover from this have "c_resolved_addr info = Some src" using info by (rule room_okD(5))
  ultimately have e1: "room_ok e1" by (simp add: e1_def room_ok_def hm_ok_insert hm_get_insert)
  have src: "src \<in> set (hm_keys (udp_clients e))" using info by (simp add: hm_contains_keys [symmetric] hm_contains_def)
  have "write_pool (put_room room e1 r) = None \<or> (\<forall>i. fst (writes h i))" using wr by (simp add: put_room_def)
  from write_targets_out [OF this, of 0]
  have "snd (relay_msg h room phase body src r) = map (\<lambda>t. (msgd_msg phase body, t)) (msg_targets e1 src)"
    using lim by (simp add: relay_msg_def e info Let_def case_prod_beta e1_def rl_def)
  moreover have keys: "set (hm_keys (udp_clients e1)) = set (hm_keys (udp_clients e))"
    using src by (auto simp: e1_def hm_keys_insert)
  moreover have "set (msg_targets e1 src) = clients r room - {src}"
    by (auto simp: msg_targets_clients [OF e1] keys clients_def e)
  ultimately show ?thesis
    using msg_targets_distinct [OF e1, of src] by (auto simp: handle_packet_msg_wire [OF wf])
qed


section \<open>Concrete runs\<close>

text \<open>A relay that waits for one cookie, and the datagram that returns it.\<close>

definition demo_pending :: pending_reg where
  "demo_pending = \<lparr>cookie = replicate 16 7, created_at = 0, p_resolved_addr = demo_addr 5000\<rparr>"

definition demo_waiting :: relay where
  "demo_waiting = fst (store_pending_reg ''lobby'' (demo_addr 5000) demo_pending fresh_relay)"

lemma fresh_pending:
  "pending_count_for_ip fresh_relay ip < max_pending_per_ip fresh_relay"
  "pending_total fresh_relay < max_pending_global fresh_relay"
  by (simp_all add: fresh_relay_config fresh_tables)
    (simp_all add: with_config_def config_defaults_def limit_defs)

lemma lobby_valid: "valid_room_name ''lobby''"
  by (simp add: valid_room_name_def room_consts)

lemma demo_waiting_ok: "relay_ok demo_waiting"
  unfolding demo_waiting_def
  by (rule relay_ok_store_pending_reg) (simp_all add: fresh_relay_ok demo_pending_def fresh_pending)

lemma demo_waiting_cookie: "get_pending_reg demo_waiting ''lobby'' (demo_addr 5000) = Some demo_pending"
  unfolding demo_waiting_def
proof (rule store_pending_reg_get [OF fresh_relay_ok])
  show "snd (store_pending_reg ''lobby'' (demo_addr 5000) demo_pending fresh_relay)"
    using fresh_pending(2)
    by (simp add: store_pending_reg_def stored_iff Let_def not_le fresh_relay_config fresh_tables)
qed

lemma demo_waiting_room: "room_for ''lobby'' (demo_addr 5000) demo_waiting"
  unfolding demo_waiting_def room_for_store by (rule fresh_room_for)

lemma demo_waiting_clients: "clients demo_waiting room = {}"
  by (simp add: clients_def demo_waiting_def store_pending_reg_def Let_def add_pending_ip_def
      fresh_relay_config fresh_tables get_room_def [of "r\<lparr>pending_shards := x\<rparr>" for r x]
      get_room_def [symmetric])
    (simp add: get_room_def with_config_def sh_get_def by_room.idx_less split: option.splits)

lemma demo_completion:
  defines "res \<equiv> handle_packet (demo_env 1000) (reg_cookie_wire ''lobby'' (replicate 16 7)) (demo_addr 5000) demo_waiting"
  shows "snd res = [(regd_ok_msg ''lobby'' (demo_addr 5000), demo_addr 5000)]" "clients (fst res) ''lobby'' = {demo_addr 5000}"
proof -
  let ?src = "demo_addr 5000" and ?h = "demo_env 1000" and ?c = "replicate 16 7 :: byte list"
  have gate: "same_gate fresh_relay demo_waiting" unfolding demo_waiting_def by (rule gate_store)
  then have clear: "limiter_clear ?src demo_waiting"
    using fresh_limiter_clear [of ?src] by (simp add: limiter_clear_def same_gate_def limit_defs)
  have len: "length (reg_shards demo_waiting) = NUM_REG_SHARDS"
    using demo_waiting_ok by (simp add: relay_ok_def limits_ok_def)
  define q where "q = fst (is_reg_rate_limited (reg_key ?src) (now ?h) demo_waiting)"
  have core: "same_core demo_waiting q" unfolding q_def by simp
  have x: "to_hex_lower ?c \<noteq> []"
    by (metis length_replicate length_to_hex_lower list.size(3) mult_eq_0_iff zero_neq_numeral)
  have eq: "res = handle_reg_cookie ?h ''lobby'' (to_hex_lower ?c) ?src q"
    unfolding res_def handle_packet_reg_cookie_wire [OF lobby_valid, of ?c, simplified room_consts, simplified] handle_reg_def q_def
    using limiter_first(1) [OF clear len, of "now ?h"] x by (simp add: case_prod_beta Let_def reg_key_def)
  have q: "relay_ok q" "room_for ''lobby'' ?src q" "get_pending_reg q ''lobby'' ?src = Some demo_pending"
    using relay_ok_core [OF core demo_waiting_ok] demo_waiting_room demo_waiting_cookie core
    by (simp_all add: room_for_core) (simp add: get_pending_reg_def same_core_def)
  have more: "cookie demo_pending = ?c" "length ?c = PENDING_COOKIE_BYTES" "\<not> cookie_expired (now ?h) demo_pending"
    "may_write ?h q"
    by (simp_all add: demo_pending_def room_consts cookie_expired_def demo_env_def duration_since_def from_millis_def
        may_write_def)
  from second_reg [OF q more]
  show "snd res = [(regd_ok_msg ''lobby'' ?src, ?src)]" "clients (fst res) ''lobby'' = {?src}"
    unfolding eq by simp_all
qed

theorem admission_needs_cookie_witness:
  "\<exists>c p. is_reg (reg_cookie_wire ''lobby'' (replicate 16 7)) ''lobby'' c
     \<and> waiting_cookie demo_waiting ''lobby'' (demo_addr 5000) = Some p
     \<and> hex_decode c = Some (cookie p) \<and> \<not> cookie_expired (now (demo_env 1000)) p"
  using admission_needs_cookie [OF demo_waiting_ok, of "demo_addr 5000" "demo_env 1000"
      "reg_cookie_wire ''lobby'' (replicate 16 7)" "demo_addr 5000" "''lobby''"]
  by (simp add: demo_completion demo_waiting_clients)

theorem sends_are_authorized_witness:
  "reg_answer (fst (handle_packet (demo_env 1000) (reg_cookie_wire ''lobby'' (replicate 16 7)) (demo_addr 5000) demo_waiting))
     (demo_addr 5000) (regd_ok_msg ''lobby'' (demo_addr 5000))"
  using sends_are_authorized [OF demo_waiting_ok, of "regd_ok_msg ''lobby'' (demo_addr 5000)" "demo_addr 5000"
      "demo_env 1000" "reg_cookie_wire ''lobby'' (replicate 16 7)" "demo_addr 5000"]
  by (auto simp: demo_completion)


text \<open>A room with two clients behind the same address.\<close>

definition demo_one :: relay where
  "demo_one = add_ip_room (ip_key (demo_addr 5000)) ''lobby''
     ((put_room ''lobby'' (admit_client 0 (demo_addr 5000) (room_entry_new 0)) fresh_relay)
        \<lparr>total_room_count := total_room_count fresh_relay + 1\<rparr>)"

definition demo_two :: relay where
  "demo_two = put_room ''lobby'' (admit_client 0 (demo_addr 6000) (admit_client 0 (demo_addr 5000) (room_entry_new 0)))
     demo_one"

lemma demo_one_ok: "relay_ok demo_one"
  unfolding demo_one_def
  using fresh_room_for [of "''lobby''" "demo_addr 5000"] fresh_relay_ok
  by (intro relay_ok_create) (simp_all add: room_for_def)

lemma demo_one_room: "get_room demo_one ''lobby'' = Some (admit_client 0 (demo_addr 5000) (room_entry_new 0))"
  by (simp add: demo_one_def get_room_put_room relay_okD(2) [OF fresh_relay_ok])

lemma demo_one_limits: "max_clients_hard demo_one = 20" "max_clients_per_prefix_per_room demo_one = 4"
  "max_msg_rate demo_one = 10"
  by (simp_all add: demo_one_def fresh_relay_config with_config_def config_defaults_def limit_defs add_ip_room_def
      put_room_def)

lemma demo_two_ok: "relay_ok demo_two"
proof -
  let ?e = "admit_client 0 (demo_addr 5000) (room_entry_new 0)"
  have "ip_in_room ?e (ip_key (demo_addr 6000))" by (simp add: ip_in_room_def demo_addr_def)
  then have "linked demo_one (ip_key (demo_addr 6000)) ''lobby''"
    by (rule linked_if_ip_in_room [OF demo_one_ok demo_one_room])
  moreover have "length (udp_clients ?e) < max_clients_hard demo_one"
    "count_prefix_clients ?e (ip_key (demo_addr 6000)) < max_clients_per_prefix_per_room demo_one"
    by (simp_all add: demo_one_limits admit_client_def room_entry_new_def count_prefix_clients_def hm_keys_def)
  ultimately show ?thesis
    using relay_ok_admit [OF demo_one_ok demo_one_room relay_ok_entry [OF demo_one_ok demo_one_room] refl,
        of "demo_addr 6000" True 0]
    by (simp add: demo_two_def)
qed

lemma demo_two_room:
  "get_room demo_two ''lobby'' = Some (admit_client 0 (demo_addr 6000) (admit_client 0 (demo_addr 5000) (room_entry_new 0)))"
  by (simp add: demo_two_def get_room_put_room relay_okD(2) [OF demo_one_ok])

lemma demo_two_clients: "clients demo_two ''lobby'' = {demo_addr 6000, demo_addr 5000}"
  by (simp add: clients_def demo_two_room) (simp add: room_entry_new_def hm_keys_def)

theorem message_delivered_witness:
  "snd (handle_packet (demo_env 0) (msg_wire ''lobby'' ''spake2'' ''0a0b'') (demo_addr 5000) demo_two)
     = [(msgd_msg ''spake2'' ''0a0b'', demo_addr 6000)]"
proof -
  have "demo_addr 6000 \<noteq> demo_addr 5000" by (simp add: demo_addr_def)
  then have "{demo_addr 6000, demo_addr 5000} - {demo_addr 5000} = {demo_addr 6000}" by auto
  moreover have "msg_allowed (demo_env 0) demo_two ''lobby'' (demo_addr 5000)"
    by (simp add: msg_allowed_def demo_two_room admit_client_def hm_get_insert demo_addr_def udp_client_new_def
        rate_limiter_new_def is_limited_def demo_env_def duration_since_def)
      (simp add: demo_two_def put_room_def demo_one_def add_ip_room_def fresh_relay_config with_config_def
        config_defaults_def limit_defs)
  moreover have "is_valid_hex ''0a0b''" by (simp add: is_valid_hex_def is_ascii_hexdigit_def)
  ultimately obtain ts where out: "snd (handle_packet (demo_env 0) (msg_wire ''lobby'' ''spake2'' ''0a0b'') (demo_addr 5000) demo_two)
      = map (\<lambda>t. (msgd_msg ''spake2'' ''0a0b'', t)) ts" and ts: "distinct ts" "set ts = {demo_addr 6000}"
    using message_delivered [OF demo_two_ok lobby_valid, of "''spake2''" "''0a0b''" "demo_env 0" "demo_addr 5000"]
    by (auto simp: MAX_MSG_BODY_LEN_def demo_env_def demo_two_clients)
  from ts have "ts = [demo_addr 6000]"
    by (cases ts) (auto simp: subset_singleton_iff)
  with out show ?thesis by simp
qed


section \<open>A reachable server with a client\<close>

definition demo_server :: server where
  "demo_server = (let s = serve_start fresh_relay;
      r1 = fst (handle_packet (demo_env 0) (reg_wire ''lobby'') (demo_addr 5000) (srv_relay s));
      r2 = fst (handle_packet (demo_env 1000) (reg_cookie_wire ''lobby'' (replicate 16 7)) (demo_addr 5000) r1)
    in s\<lparr>srv_relay := r2\<rparr>)"

lemma demo_server_reachable: "reachable (\<lambda>_. None) demo_server"
proof -
  have start: "reachable (\<lambda>_. None) (serve_start fresh_relay)"
    unfolding fresh_relay_def by (rule reachable.start)
  have "srv_queue (serve_start fresh_relay) = []" "2 \<le> unat (cfg_pkt_chan_buf (cfg (srv_relay (serve_start fresh_relay))))"
    by (simp_all add: serve_start_def fresh_relay_config with_config_def config_defaults_def)
  from reachable_two_packets [OF start this, of "reg_wire ''lobby''" "reg_cookie_wire ''lobby'' (replicate 16 7)"
      "demo_env 0" "demo_env 1000" "demo_addr 5000"]
  show ?thesis
    by (simp add: demo_server_def Let_def demo_env_def room_consts READ_BUF_SIZE_def reg_wire_def
        reg_cookie_wire_def NL_def)
qed

lemma demo_server_run:
  defines "res1 \<equiv> handle_packet (demo_env 0) (reg_wire ''lobby'') (demo_addr 5000) (srv_relay (serve_start fresh_relay))"
  defines "res2 \<equiv> handle_packet (demo_env 1000) (reg_cookie_wire ''lobby'' (replicate 16 7)) (demo_addr 5000) (fst res1)"
  shows "snd res1 = [(challenge_msg ''lobby'' (replicate 16 7), demo_addr 5000)]
    \<and> snd res2 = [(regd_ok_msg ''lobby'' (demo_addr 5000), demo_addr 5000)]
    \<and> clients (srv_relay demo_server) ''lobby'' = {demo_addr 5000}"
proof -
  let ?r = "srv_relay (serve_start fresh_relay)" and ?src = "demo_addr 5000"
  have core: "same_core fresh_relay ?r" by (simp add: serve_start_def Let_def same_core_def)
  have ok: "relay_ok ?r" by (rule relay_ok_core [OF core fresh_relay_ok])
  have rf: "room_for ''lobby'' ?src ?r" using fresh_room_for by (simp add: room_for_core [OF core])
  have new: "get_pending_reg ?r ''lobby'' ?src = None"
    "pending_count_for_ip ?r (ip_key ?src) < max_pending_per_ip ?r" "pending_total ?r < max_pending_global ?r"
    using core fresh_pending fresh_tables(2) [of 0 config_defaults]
    by (simp_all add: same_core_def get_pending_reg_def pending_count_for_ip_def limit_defs fresh_relay_config)
  have clear: "limiter_clear ?src ?r"
    using fresh_limiter_clear [of ?src] by (simp add: limiter_clear_def serve_start_def Let_def limit_defs)
  have h: "length (rnd_cookie (demo_env 0)) = PENDING_COOKIE_BYTES"
    "now (demo_env 1000) \<le> now (demo_env 0) + from_millis PENDING_REG_TTL_MS"
    "may_write (demo_env 0) ?r" "may_write (demo_env 1000) ?r"
    by (simp_all add: demo_env_def room_consts from_millis_def may_write_def)
  have c: "rnd_cookie (demo_env 0) = replicate 16 7" by (simp add: demo_env_def)
  from registration_run [OF ok lobby_valid rf new(1) clear new(2,3) h] show ?thesis
    by (simp add: demo_server_def c Let_def res1_def res2_def)
qed

lemma demo_server_clients: "clients (srv_relay demo_server) ''lobby'' = {demo_addr 5000}"
  using demo_server_run by blast


section \<open>Registrations that are turned away\<close>

lemma hex_cookie_valid:
  assumes "length c = PENDING_COOKIE_BYTES"
  shows "is_valid_hex (to_hex_lower c)" "length (to_hex_lower c) = PENDING_COOKIE_BYTES * 2" "to_hex_lower c \<noteq> []"
proof -
  have len: "length (to_hex_lower c) = 32" using assms by (simp add: room_consts)
  then show "to_hex_lower c \<noteq> []" by (metis list.size(3) zero_neq_numeral)
  with len show "is_valid_hex (to_hex_lower c)" "length (to_hex_lower c) = PENDING_COOKIE_BYTES * 2"
    using hex_decode_iff [of "to_hex_lower c"] by (simp_all add: is_valid_hex_def hex_decode_encode room_consts)
qed

lemma handle_reg_dropped:
  assumes "\<And>q. same_core r q \<Longrightarrow> handle_reg_cookie h room c src q = (drop_packet (now h) src q, [])" "c \<noteq> []"
  shows "snd (handle_reg h room c src r) = [] \<and> same_core r (fst (handle_reg h room c src r))"
proof -
  obtain q lim where lim: "is_reg_rate_limited (ip_str (ip_key src)) (now h) r = (q, lim)" by fastforce
  have core: "same_core r q" using core_is_reg_rate_limited [of r "ip_str (ip_key src)" "now h"] lim by simp
  have "same_core r (drop_packet (now h) src q)" by (rule same_core_trans [OF core]) simp
  with assms(1) [OF core] assms(2) show ?thesis by (simp add: handle_reg_def lim)
qed

text \<open>
  C40. A client cannot refresh with its cookie: the REG that an admitted client repeats with the
  cookie it was admitted with is dropped. Nothing of the room changes, so the client is not seen
  as alive and goes stale although it keeps registering.
\<close>

theorem cookie_refresh_dropped:
  assumes "valid_room_name room" "length c = PENDING_COOKIE_BYTES"
    and "get_pending_reg r room src = None" "get_room r room = Some e" "hm_get (pending e) src = None"
    and "src \<in> clients r room"
  shows "snd (handle_packet h (reg_cookie_wire room c) src r) = []
    \<and> get_room (fst (handle_packet h (reg_cookie_wire room c) src r)) room = Some e"
proof -
  have turned: "handle_reg_cookie h room (to_hex_lower c) src q = (drop_packet (now h) src q, [])"
    if core: "same_core r q" for q
  proof -
    have "get_pending_reg q room src = None" "get_room q room = Some e"
      using assms(3,4) get_room_core [OF core] core by (simp_all add: get_pending_reg_def same_core_def)
    with assms(5) hex_cookie_valid [OF assms(2)] show ?thesis
      by (simp add: handle_reg_cookie_def relay_hex_decode_eq hex_decode_encode reg_cookie_in_room_def send_if_regd_def)
  qed
  have "snd (handle_reg h room (to_hex_lower c) src r) = [] \<and> same_core r (fst (handle_reg h room (to_hex_lower c) src r))"
    by (rule handle_reg_dropped [OF turned hex_cookie_valid(3) [OF assms(2)]])
  with assms(4) get_room_core [of r "fst (handle_reg h room (to_hex_lower c) src r)" room] show ?thesis
    by (simp add: handle_packet_reg_cookie_wire [OF assms(1,2)])
qed

theorem cookie_refresh_dropped_witness:
  "snd (handle_packet (demo_env 30000000000) (reg_cookie_wire ''lobby'' (replicate 16 7)) (demo_addr 5000) demo_two) = []"
proof -
  let ?e = "admit_client 0 (demo_addr 6000) (admit_client 0 (demo_addr 5000) (room_entry_new 0))"
  have "get_pending_reg demo_two ''lobby'' (demo_addr 5000) = None"
    using fresh_tables(2) [of 0 config_defaults]
    by (simp add: demo_two_def demo_one_def put_room_def add_ip_room_def get_pending_reg_def fresh_relay_config)
  moreover have "hm_get (pending ?e) (demo_addr 5000) = None" by (simp add: admit_client_def room_entry_new_def)
  ultimately show ?thesis
    using cookie_refresh_dropped [OF lobby_valid _ _ demo_two_room, of "replicate 16 7" "demo_addr 5000" "demo_env 30000000000"]
    by (simp add: room_consts demo_two_clients)
qed

text \<open>
  An old cookie shadows a new one: while the global store still holds a registration of a
  source for a room, the cookie that the room itself has issued to that source since is refused.
\<close>

theorem stored_cookie_shadows_room:
  assumes "valid_room_name room" "length c = PENDING_COOKIE_BYTES"
    and "get_pending_reg r room src = Some p" "cookie p \<noteq> c"
    and "get_room r room = Some e" "hm_get (pending e) src = Some q" "cookie q = c"
  shows "snd (handle_packet h (reg_cookie_wire room c) src r) = []
    \<and> get_room (fst (handle_packet h (reg_cookie_wire room c) src r)) room = Some e"
proof -
  have turned: "handle_reg_cookie h room (to_hex_lower c) src q = (drop_packet (now h) src q, [])"
    if core: "same_core r q" for q
  proof -
    have "get_pending_reg q room src = Some p" using assms(3) core by (simp add: get_pending_reg_def same_core_def)
    with assms(4) hex_cookie_valid [OF assms(2)] show ?thesis
      by (simp add: handle_reg_cookie_def relay_hex_decode_eq hex_decode_encode)
  qed
  have "snd (handle_reg h room (to_hex_lower c) src r) = [] \<and> same_core r (fst (handle_reg h room (to_hex_lower c) src r))"
    by (rule handle_reg_dropped [OF turned hex_cookie_valid(3) [OF assms(2)]])
  with assms(5) get_room_core [of r "fst (handle_reg h room (to_hex_lower c) src r)" room] show ?thesis
    by (simp add: handle_packet_reg_cookie_wire [OF assms(1,2)])
qed

definition demo_shadow_entry :: room_entry where
  "demo_shadow_entry = (room_entry_new 0)\<lparr>pending := [(demo_addr 5000,
     \<lparr>cookie = replicate 16 9, created_at = 0, p_resolved_addr = demo_addr 5000\<rparr>)]\<rparr>"

theorem stored_cookie_shadows_room_witness:
  "snd (handle_packet (demo_env 0) (reg_cookie_wire ''lobby'' (replicate 16 9)) (demo_addr 5000)
     (put_room ''lobby'' demo_shadow_entry demo_waiting)) = []"
proof -
  let ?r = "put_room ''lobby'' demo_shadow_entry demo_waiting"
  have "get_pending_reg ?r ''lobby'' (demo_addr 5000) = Some demo_pending"
    using demo_waiting_cookie by (simp add: put_room_def get_pending_reg_def)
  moreover have "get_room ?r ''lobby'' = Some demo_shadow_entry"
    by (simp add: get_room_put_room relay_okD(2) [OF demo_waiting_ok])
  moreover have "cookie demo_pending \<noteq> replicate 16 9" by (simp add: demo_pending_def)
  ultimately show ?thesis
    using stored_cookie_shadows_room [OF lobby_valid, of "replicate 16 9" ?r "demo_addr 5000" demo_pending demo_shadow_entry]
    by (simp add: demo_shadow_entry_def room_consts)
qed

end
