(* ===== verification/Exchange_Loop.thy ===== *)
theory Exchange_Loop
  imports Exchange_Agree Relay_Live
begin

text \<open>
  The registration loop: an invariant of its state (bounded tables, candidates that come from
  processed payloads, confirmations that were received), what a run that ends well has checked,
  the bound on inbound work, and that the loop and the relay understand each other's datagrams.
\<close>

section \<open>Inbound work\<close>

definition inbound_step :: "unit \<Rightarrow> instant \<Rightarrow> exchange_state \<Rightarrow> exchange_state \<times> bool" where
  "inbound_step _ tm st =
     (let st = count_inbound tm st in (st, inbound_count st > MAX_INBOUND_MSGD_PER_SECOND))"

definition inbound_win :: "exchange_state \<Rightarrow> unit \<Rightarrow> (instant \<times> nat) option" where
  "inbound_win st _ = map_option (\<lambda>t. (t, min (inbound_count st) MAX_INBOUND_MSGD_PER_SECOND)) (inbound_window st)"

interpretation inbound: window_limiter inbound_step inbound_win "\<lambda>_. True"
  "from_secs 1 - 1" MAX_INBOUND_MSGD_PER_SECOND
proof (unfold_locales, goal_cases)
  case (3 s k tm)
  have "case inbound_window s of None \<Rightarrow> True | Some t \<Rightarrow> from_secs 1 \<le> duration_since tm t"
  proof (cases "inbound_window s")
    case (Some t)
    with 3(2) [of t "min (inbound_count s) MAX_INBOUND_MSGD_PER_SECOND"] show ?thesis
      by (auto simp: inbound_win_def duration_since_def from_secs_def)
  qed simp
  then show ?case
    by (simp add: inbound_step_def inbound_win_def count_inbound_def Let_def MAX_INBOUND_MSGD_PER_SECOND_def)
next
  case (4 s k t c tm)
  then have "inbound_window s = Some t" "c = min (inbound_count s) MAX_INBOUND_MSGD_PER_SECOND"
    "\<not> from_secs 1 \<le> duration_since tm t"
    by (auto simp: inbound_win_def duration_since_def from_secs_def)
  then show ?case
    by (auto simp: inbound_step_def inbound_win_def count_inbound_def Let_def MAX_INBOUND_MSGD_PER_SECOND_def)
qed simp_all

section \<open>The invariant\<close>

text \<open>
  \<open>lines\<close> is the set of lines received. A candidate was computed from a payload among them, with
  this peer's own state, and each buffered confirmation is one of them.
\<close>

definition spake2_line :: "string \<Rightarrow> string" where
  "spake2_line body = ''MSGD spake2 '' @ body"

definition confirm_line :: "string \<Rightarrow> string" where
  "confirm_line body = ''MSGD confirm '' @ body"

definition candidate_ok :: "'p crypto \<Rightarrow> exchange_params \<Rightarrow> string set \<Rightarrow> peer_candidate \<Rightarrow> bool" where
  "candidate_ok c p lines cand \<longleftrightarrow>
     (\<exists>body pr cp. spake2_line body \<in> lines
        \<and> process_spake_msg c body (ep_state p) (ep_point_m p) (ep_point_n p) (ep_fingerprint p) = Some (Inr pr)
        \<and> cand = candidate_of pr cp)"

definition exchange_ok :: "'p crypto \<Rightarrow> exchange_params \<Rightarrow> string set \<Rightarrow> exchange_state \<Rightarrow> bool" where
  "exchange_ok c p lines st \<longleftrightarrow>
     hm_ok (candidates st) \<and> length (candidates st) \<le> MAX_CANDIDATES
   \<and> hm_ok (confirm_last_sent st) \<and> set (hm_keys (confirm_last_sent st)) \<subseteq> set (hm_keys (candidates st))
   \<and> length (buffered_confirms st) \<le> MAX_BUFFERED_CONFIRMS
   \<and> (\<forall>body \<in> set (buffered_confirms st). confirm_line body \<in> lines)
   \<and> (\<forall>(k, cand) \<in> set (candidates st). candidate_ok c p lines cand)"

lemma candidate_ok_mono: "candidate_ok c p A cand \<Longrightarrow> A \<subseteq> B \<Longrightarrow> candidate_ok c p B cand"
  by (auto simp: candidate_ok_def)

lemma exchange_ok_mono: "exchange_ok c p A st \<Longrightarrow> A \<subseteq> B \<Longrightarrow> exchange_ok c p B st"
  by (auto simp: exchange_ok_def intro!: candidate_ok_mono [of c p A _ B])

text \<open>Everything the invariant reads is in these four fields.\<close>

lemma exchange_ok_cong:
  "candidates st' = candidates st \<Longrightarrow> confirm_last_sent st' = confirm_last_sent st \<Longrightarrow>
   buffered_confirms st' = buffered_confirms st \<Longrightarrow> exchange_ok c p A st' = exchange_ok c p A st"
  by (simp add: exchange_ok_def)

lemma foldl_insert_keys:
  "hm_ok m \<Longrightarrow> hm_ok (foldl (\<lambda>m (k, _). hm_insert k tm m) m rs)
     \<and> set (hm_keys (foldl (\<lambda>m (k, _). hm_insert k tm m) m rs)) = set (hm_keys m) \<union> fst ` set rs"
  by (induction rs arbitrary: m) (auto simp: hm_keys_insert hm_ok_insert split: prod.splits)

lemma exchange_send_ok:
  assumes "exchange_ok c p A st"
  shows "exchange_ok c p A (fst (exchange_send p tm st))"
proof -
  have confirms: "exchange_ok c p A (fst (send_confirms p tm s))" if s: "exchange_ok c p A s" for s
  proof -
    define rs where "rs = filter (\<lambda>(k, _). is_due tm (ep_confirm_resend p) (hm_get (confirm_last_sent s) k)) (candidates s)"
    have rs: "fst ` set rs \<subseteq> set (hm_keys (candidates s))" by (auto simp: rs_def hm_keys_def)
    from s have "hm_ok (confirm_last_sent s)" by (simp add: exchange_ok_def)
    from foldl_insert_keys [OF this, where rs = rs and tm = tm] s rs show ?thesis
      unfolding exchange_ok_def send_confirms_def rs_def [symmetric] Let_def by simp
  qed
  have "exchange_ok c p A (fst (send_spake2 p tm (fst (send_reg p tm st))))"
    using assms by (simp add: send_spake2_def send_reg_def exchange_ok_def)
  from confirms [OF this] show ?thesis
    by (simp add: exchange_send_def case_prod_beta)
qed

lemma min_by_key_in: "min_by_key f ks = Some k \<Longrightarrow> k \<in> set ks"
  by (induction ks arbitrary: k) (auto split: option.splits if_splits)

lemma min_by_key_None: "min_by_key f ks = None \<longleftrightarrow> ks = []"
  by (cases ks) (auto split: option.splits)

lemma hm_len_remove_less: "k \<in> set (hm_keys m) \<Longrightarrow> length (hm_remove k m) < length m"
proof (induction m)
  case (Cons x m)
  then show ?case using hm_len_remove_le [of k m] by (cases x) (auto simp: hm_keys_def hm_remove_Cons)
qed (simp add: hm_keys_def)

lemma set_hm_remove: "set (hm_remove k m) \<subseteq> set m"
  by (auto simp: AList.delete_eq)

lemma set_hm_insert: "set (hm_insert k v m) \<subseteq> insert (k, v) (set m)"
  by (induction m) (auto split: if_splits)

lemma evict_candidate_ok:
  assumes "exchange_ok c p A st"
  shows "exchange_ok c p A (evict_candidate st) \<and> length (candidates (evict_candidate st)) < MAX_CANDIDATES
    \<and> buffered_confirms (evict_candidate st) = buffered_confirms st"
proof (cases "length (candidates st) \<ge> MAX_CANDIDATES")
  case True
  then have "hm_keys (candidates st) \<noteq> []" by (auto simp: hm_keys_def MAX_CANDIDATES_def)
  then obtain k where k: "min_by_key (hm_get (confirm_last_sent st)) (hm_keys (candidates st)) = Some k"
    using min_by_key_None by (metis not_None_eq)
  from hm_len_remove_less [OF min_by_key_in [OF this]] assms True k show ?thesis
    by (auto simp: evict_candidate_def exchange_ok_def hm_ok_remove hm_keys_remove
        dest!: subsetD [OF set_hm_remove])
next
  case False
  with assms show ?thesis by (simp add: evict_candidate_def)
qed

lemma first_ok_Some: "first_ok f xs = Some (Some (x, y)) \<Longrightarrow> x \<in> set xs \<and> f x = Some (Inr y)"
  by (induction xs) (auto split: option.splits sum.splits)

text \<open>What a run that ends well has established about its result.\<close>

definition authenticated :: "'p crypto \<Rightarrow> exchange_params \<Rightarrow> string set \<Rightarrow> exchange_ok \<Rightarrow> bool" where
  "authenticated c p lines = (\<lambda>(pa, fp, server).
     \<exists>body pr confirm. spake2_line body \<in> lines \<and> confirm_line confirm \<in> lines
       \<and> process_spake_msg c body (ep_state p) (ep_point_m p) (ep_point_n p) (ep_fingerprint p) = Some (Inr pr)
       \<and> process_confirm_msg c confirm (confirm_key pr) (enc_key pr) (effective_my_point pr)
           (effective_peer_point pr) (ep_fingerprint p) (peer_fingerprint pr) = Some (Inr pa)
       \<and> fp = peer_fingerprint pr \<and> server = is_server pr)"

fun step_ok :: "'p crypto \<Rightarrow> exchange_params \<Rightarrow> string set \<Rightarrow> exchange_step \<Rightarrow> bool" where
  "step_ok c p lines (Continue st _) = exchange_ok c p lines st"
| "step_ok c p lines (Finished r _) = authenticated c p lines r"
| "step_ok c p lines (Failed _) = True"


lemma recv_spake2_ok:
  assumes ok: "exchange_ok c p A st" and body: "spake2_line body \<in> A"
    and step: "recv_spake2 c p rnd tm body st = Some s"
  shows "step_ok c p A s"
proof (cases "s = Continue st []")
  case True
  with ok show ?thesis by simp
next
  case False
  with step obtain payload pr cp where
    pr: "process_spake_msg c body (ep_state p) (ep_point_m p) (ep_point_n p) (ep_fingerprint p) = Some (Inr pr)"
    and run: "(let st = evict_candidate st; cand = candidate_of pr cp;
            key = to_hex_lower (take SPAKE2_PAYLOAD_LEN payload);
            st = st\<lparr>candidates := hm_insert key cand (candidates st),
                    confirm_last_sent := hm_insert key tm (confirm_last_sent st)\<rparr>
        in case first_ok (check_confirm c (ep_fingerprint p) cand) (buffered_confirms st) of
             None \<Rightarrow> None
           | Some None \<Rightarrow> Some (Continue st [confirm_msg (ep_room p) cp])
           | Some (Some (_, pa)) \<Rightarrow> Some (Finished (pa, peer_fingerprint pr, is_server pr) [confirm_msg (ep_room p) cp]))
        = Some s"
    unfolding recv_spake2_def by (auto simp: Let_def split: option.splits sum.splits if_splits)
  define key where "key = to_hex_lower (take SPAKE2_PAYLOAD_LEN payload)"
  define cand where "cand = candidate_of pr cp"
  define st' where "st' = (evict_candidate st)\<lparr>candidates := hm_insert key cand (candidates (evict_candidate st)),
      confirm_last_sent := hm_insert key tm (confirm_last_sent (evict_candidate st))\<rparr>"
  note ev = evict_candidate_ok [OF ok]
  have cand: "candidate_ok c p A cand" unfolding candidate_ok_def cand_def using body pr by blast
  have ok': "exchange_ok c p A st'"
    using ev cand
    by (auto simp: st'_def exchange_ok_def hm_ok_insert hm_keys_insert hm_len_insert
        dest!: subsetD [OF set_hm_insert] split: if_splits)
  from run ev have "s = Continue st' [confirm_msg (ep_room p) cp]
      \<or> (\<exists>conf pa. first_ok (check_confirm c (ep_fingerprint p) cand) (buffered_confirms st) = Some (Some (conf, pa))
            \<and> s = Finished (pa, peer_fingerprint pr, is_server pr) [confirm_msg (ep_room p) cp])"
    by (auto simp: Let_def st'_def cand_def key_def split: option.splits)
  then show ?thesis
  proof (elim disjE exE conjE)
    assume "s = Continue st' [confirm_msg (ep_room p) cp]"
    with ok' show ?thesis by simp
  next
    fix conf pa
    assume f: "first_ok (check_confirm c (ep_fingerprint p) cand) (buffered_confirms st) = Some (Some (conf, pa))"
      and s: "s = Finished (pa, peer_fingerprint pr, is_server pr) [confirm_msg (ep_room p) cp]"
    from first_ok_Some [OF f] ok have "confirm_line conf \<in> A"
      "process_confirm_msg c conf (confirm_key pr) (enc_key pr) (effective_my_point pr)
         (effective_peer_point pr) (ep_fingerprint p) (peer_fingerprint pr) = Some (Inr pa)"
      by (auto simp: exchange_ok_def check_confirm_def cand_def candidate_of_def)
    with body pr s show ?thesis by (auto simp: authenticated_def)
  qed
qed

lemma recv_confirm_ok:
  assumes ok: "exchange_ok c p A st" and body: "confirm_line body \<in> A"
    and step: "recv_confirm c p body st = Some s"
  shows "step_ok c p A s"
proof -
  let ?f = "\<lambda>(_, cand). check_confirm c (ep_fingerprint p) cand body"
  from step consider "s = Continue (if length (buffered_confirms st) < MAX_BUFFERED_CONFIRMS
        then st\<lparr>buffered_confirms := buffered_confirms st @ [body]\<rparr> else st) []"
    | k cand pa where "first_ok ?f (candidates st) = Some (Some ((k, cand), pa))"
        "s = Finished (pa, cand_fingerprint cand, cand_is_server cand) []"
    unfolding recv_confirm_def by (auto split: option.splits)
  then show ?thesis
  proof cases
    case 1
    with ok body show ?thesis by (auto simp: exchange_ok_def)
  next
    case 2
    from first_ok_Some [OF 2(1)] have in_c: "(k, cand) \<in> set (candidates st)"
      and chk: "check_confirm c (ep_fingerprint p) cand body = Some (Inr pa)" by simp_all
    from ok in_c have "candidate_ok c p A cand" by (auto simp: exchange_ok_def)
    then obtain sb pr cp where "spake2_line sb \<in> A" "cand = candidate_of pr cp"
      "process_spake_msg c sb (ep_state p) (ep_point_m p) (ep_point_n p) (ep_fingerprint p) = Some (Inr pr)"
      by (auto simp: candidate_ok_def)
    with chk body 2(2) show ?thesis
      by (auto simp: authenticated_def check_confirm_def candidate_of_def)
  qed
qed

text \<open>The line of a turn: what is read, cut at the buffer and trimmed.\<close>

definition turn_lines :: "turn_input \<Rightarrow> string set" where
  "turn_lines i = (case ti_read i of Datagram d \<Rightarrow> set_option (trim_ascii (take READ_BUFFER_SIZE d)) | _ \<Rightarrow> {})"

lemma recv_regd_frame:
  "recv_regd p rest st = Some st' \<Longrightarrow> candidates st' = candidates st
     \<and> confirm_last_sent st' = confirm_last_sent st \<and> buffered_confirms st' = buffered_confirms st"
  unfolding recv_regd_def
  by (auto simp: Let_def Option.bind_eq_Some_conv split: option.splits if_splits prod.splits)

lemma recv_regd_ok:
  "exchange_ok c p A st \<Longrightarrow> recv_regd p rest st = Some st' \<Longrightarrow> exchange_ok c p A st'"
  using recv_regd_frame [of p rest st st'] exchange_ok_cong [of st' st c p A] by simp

lemma count_inbound_ok: "exchange_ok c p A (count_inbound tm st) = exchange_ok c p A st"
  by (rule exchange_ok_cong) (simp_all add: count_inbound_def Let_def)

lemma exchange_recv_ok:
  assumes ok: "exchange_ok c p A st" and line: "trim_ascii (take READ_BUFFER_SIZE d) = Some l" "l \<in> A"
    and step: "exchange_recv c p rnd tm d st = Some s"
  shows "step_ok c p A s"
proof -
  define st1 where "st1 = (if starts_with l ''MSGD '' then count_inbound tm st else st)"
  have ok1: "exchange_ok c p A st1" using ok by (simp add: st1_def count_inbound_ok)
  have eq: "exchange_recv c p rnd tm d st =
      (if starts_with l ''MSGD '' \<and> inbound_count st1 > MAX_INBOUND_MSGD_PER_SECOND then Some (Continue st1 [])
       else case strip_prefix ''REGD '' l of
              Some rest \<Rightarrow> map_option (\<lambda>st. Continue st []) (recv_regd p rest st1)
            | None \<Rightarrow>
                (case strip_prefix ''MSGD spake2 '' l of
                   Some body \<Rightarrow> if utf8_valid body then recv_spake2 c p rnd tm body st1 else Some (Continue st1 [])
                 | None \<Rightarrow>
                     (case strip_prefix ''MSGD confirm '' l of
                        Some body \<Rightarrow> if utf8_valid body then recv_confirm c p body st1 else Some (Continue st1 [])
                      | None \<Rightarrow> Some (Continue st1 []))))"
    unfolding exchange_recv_def line(1) st1_def by (simp only: Option.bind.simps Let_def)
  note spake = recv_spake2_ok [OF ok1] and conf = recv_confirm_ok [OF ok1] and regd = recv_regd_ok [OF ok1]
  have here: "step_ok c p A (Continue st1 [])" using ok1 by simp
  have sl: "strip_prefix ''MSGD spake2 '' l = Some body \<Longrightarrow> spake2_line body \<in> A"
    and cl: "strip_prefix ''MSGD confirm '' l = Some body \<Longrightarrow> confirm_line body \<in> A" for body
    using line(2) unfolding strip_prefix_Some spake2_line_def confirm_line_def by blast+
  show ?thesis
  proof (cases "starts_with l ''MSGD '' \<and> inbound_count st1 > MAX_INBOUND_MSGD_PER_SECOND")
    case True
    with step eq here show ?thesis by (metis option.inject)
  next
    case False
    note eq2 = eq [unfolded if_not_P [OF False]]
    consider rest where "strip_prefix ''REGD '' l = Some rest"
      | body where "strip_prefix ''REGD '' l = None" "strip_prefix ''MSGD spake2 '' l = Some body"
      | body where "strip_prefix ''REGD '' l = None" "strip_prefix ''MSGD spake2 '' l = None"
          "strip_prefix ''MSGD confirm '' l = Some body"
      | "strip_prefix ''REGD '' l = None" "strip_prefix ''MSGD spake2 '' l = None" "strip_prefix ''MSGD confirm '' l = None"
      by (meson not_None_eq)
    then show ?thesis
    proof cases
      case 1
      with eq2 step obtain st' where "recv_regd p rest st1 = Some st'" "s = Continue st' []"
        by (cases "recv_regd p rest st1") auto
      with regd show ?thesis by simp
    next
      case 2
      with eq2 step spake [OF sl [OF 2(2)]] here show ?thesis by (simp split: if_splits)
    next
      case 3
      with eq2 step conf [OF cl [OF 3(3)]] here show ?thesis by (simp split: if_splits)
    next
      case 4
      with eq2 step here show ?thesis by simp
    qed
  qed
qed

lemma exchange_turn_ok:
  assumes "exchange_ok c p A st" "exchange_turn c p i st = Some (s, out)" "turn_lines i \<subseteq> A"
  shows "step_ok c p A s"
proof -
  let ?st = "fst (exchange_send p (ti_now i) st)"
  have ok: "exchange_ok c p A ?st" by (rule exchange_send_ok [OF assms(1)])
  from assms(2) consider e where "s = Failed e" | "s = Continue ?st []"
    | d where "ti_read i = Datagram d" "exchange_recv c p (ti_rand i) (ti_read_at i) d ?st = Some s"
    unfolding exchange_turn_def by (auto simp: case_prod_beta split: if_splits read_result.splits)
  then show ?thesis
  proof cases
    case 3
    then obtain l where "trim_ascii (take READ_BUFFER_SIZE d) = Some l"
      by (cases "trim_ascii (take READ_BUFFER_SIZE d)") (auto simp: exchange_recv_def)
    with exchange_recv_ok [OF ok this _ 3(2)] assms(3) 3(1) show ?thesis by (auto simp: turn_lines_def)
  qed (use ok in simp_all)
qed

lemma exchange_run_ok:
  assumes "exchange_ok c p A st" "exchange_run c p is st = Some (r, st', out)" "\<Union> (turn_lines ` set is) \<subseteq> A"
  shows "exchange_ok c p A st' \<and> (\<forall>v. r = Some (Inr v) \<longrightarrow> authenticated c p A v)"
  using assms
proof (induction "is" arbitrary: st r st' out)
  case Nil
  then show ?case by simp
next
  case (Cons i "is")
  then obtain s o1 where turn: "exchange_turn c p i st = Some (s, o1)" by (auto split: option.splits)
  have s: "step_ok c p A s" using exchange_turn_ok [OF Cons.prems(1) turn] Cons.prems(3) by simp
  show ?case
  proof (cases s)
    case (Continue st1 o2)
    with Cons.prems turn obtain r1 o3 where "exchange_run c p is st1 = Some (r, st', o3)" by auto
    with Cons.IH [OF _ this] s Continue Cons.prems(3) show ?thesis by simp
  next
    case (Finished v o2)
    with Cons.prems turn s show ?thesis by auto
  next
    case (Failed e)
    with Cons.prems turn show ?thesis by auto
  qed
qed

lemma exchange_start_ok:
  "exchange_start c getenv priv_m priv_n loc tm room code my_fp pc = Some (p, st) \<Longrightarrow> exchange_ok c p A st"
  by (auto simp: exchange_start_def exchange_ok_def hm_keys_def Option.bind_eq_Some_conv)

section \<open>Datagrams of the relay as the loop reads them\<close>

lemma trim_line:
  assumes "l \<noteq> []" "hd l \<notin> set ws_bytes" "last l \<notin> set ws_bytes" "length l < READ_BUFFER_SIZE"
  shows "trim_ascii (take READ_BUFFER_SIZE (l @ NL)) = Some l"
proof -
  from assms(1,2) have "\<not> (\<forall>c \<in> set (l @ NL). c \<in> set ws_bytes)" by (auto simp: NL_def)
  moreover have "take READ_BUFFER_SIZE (l @ NL) = l @ NL" using assms(4) by (simp add: NL_def)
  ultimately show ?thesis
    using trim_ended(1) [OF assms(1-3)] unfolding trim_ascii_space_spec by (simp add: trim_ascii_eq)
qed

definition hex_text :: "string \<Rightarrow> bool" where
  "hex_text b \<longleftrightarrow> b \<noteq> [] \<and> length b \<le> 1000 \<and> (\<forall>c \<in> set b. is_ascii_hexdigit c)"

lemma hex_text_utf8: "hex_text b \<Longrightarrow> utf8_valid b"
  by (intro utf8_valid_ascii) (auto simp: hex_text_def is_ascii_hexdigit_def Let_def)

lemma hex_text_last: "hex_text b \<Longrightarrow> last b \<notin> set ws_bytes"
  using printable_not_ws hexdigit_printable by (auto simp: hex_text_def)

lemma exchange_recv_msgd:
  assumes b: "hex_text b" and n: "inbound_count (count_inbound tm st) \<le> MAX_INBOUND_MSGD_PER_SECOND"
  shows "exchange_recv c p rnd tm (msgd_msg ''spake2'' b) st = recv_spake2 c p rnd tm b (count_inbound tm st)"
    and "exchange_recv c p rnd tm (msgd_msg ''confirm'' b) st = recv_confirm c p b (count_inbound tm st)"
proof -
  have line: "trim_ascii (take READ_BUFFER_SIZE (msgd_msg ph b)) = Some (''MSGD '' @ ph @ '' '' @ b)"
    if "length ph \<le> 7" for ph
  proof -
    have "last (''MSGD '' @ ph @ '' '' @ b) = last b" "length (''MSGD '' @ ph @ '' '' @ b) < READ_BUFFER_SIZE"
      using b that by (simp_all add: hex_text_def READ_BUFFER_SIZE_def)
    with trim_line [of "''MSGD '' @ ph @ '' '' @ b"] hex_text_last [OF b] R_not_ws(2) show ?thesis
      by (simp add: msgd_msg_def)
  qed
  show "exchange_recv c p rnd tm (msgd_msg ''spake2'' b) st = recv_spake2 c p rnd tm b (count_inbound tm st)"
    "exchange_recv c p rnd tm (msgd_msg ''confirm'' b) st = recv_confirm c p b (count_inbound tm st)"
    using n hex_text_utf8 [OF b]
    by (simp_all add: exchange_recv_def line starts_with_def strip_prefix_def)
qed

section \<open>What an accepted message says\<close>

lemma process_confirm_verified:
  assumes "process_confirm_msg c confirm ck ek my peer my_fp peer_fp = Some (Inr addr)"
  shows "\<exists>payload. hex_decode confirm = Some payload
    \<and> compute_confirm c ck peer my (take CONFIRM_NONCE_SIZE payload) peer_fp my_fp
        = Some (Inr (take CONFIRM_HMAC_SIZE (drop CONFIRM_NONCE_SIZE payload)))"
proof -
  from assms obtain payload where "hex_decode confirm = Some payload"
    "verify_confirm c ck my peer (take CONFIRM_NONCE_SIZE payload) my_fp peer_fp
       (take CONFIRM_HMAC_SIZE (drop CONFIRM_NONCE_SIZE payload)) = Some True"
    by (auto simp: process_confirm_msg_def Let_def split: option.splits if_splits bool.splits)
  then show ?thesis by (auto simp: verify_confirm_iff)
qed

lemma process_spake_fingerprint:
  "process_spake_msg c body st m n my_fp = Some (Inr pr) \<Longrightarrow> peer_fingerprint pr \<noteq> my_fp"
  by (auto simp: process_spake_msg_def Let_def split: option.splits if_splits sum.splits)

section \<open>A run that completes\<close>

definition fresh_exchange :: "exchange_state \<Rightarrow> bool" where
  "fresh_exchange st \<longleftrightarrow> candidates st = [] \<and> confirm_last_sent st = [] \<and> buffered_confirms st = []
     \<and> inbound_window st = None"

lemma count_inbound_simps [simp]:
  "candidates (count_inbound tm st) = candidates st"
  "confirm_last_sent (count_inbound tm st) = confirm_last_sent st"
  "buffered_confirms (count_inbound tm st) = buffered_confirms st"
  "my_addr (count_inbound tm st) = my_addr st"
  "last_reg_sent (count_inbound tm st) = last_reg_sent st"
  "received_regd (count_inbound tm st) = received_regd st"
  by (simp_all add: count_inbound_def Let_def)

lemma recv_spake2_fresh:
  assumes st: "candidates st = []" "confirm_last_sent st = []" "buffered_confirms st = []"
    and pr: "process_spake_msg c body (ep_state p) (ep_point_m p) (ep_point_n p) (ep_fingerprint p) = Some (Inr pr)"
    and cp: "build_confirm_payload c rnd (confirm_key pr) (enc_key pr) (effective_my_point pr)
        (effective_peer_point pr) (ep_fingerprint p) (peer_fingerprint pr) (my_addr st) = Some (Inr cp)"
  shows "\<exists>key. recv_spake2 c p rnd tm body st =
    Some (Continue (st\<lparr>candidates := [(key, candidate_of pr cp)], confirm_last_sent := [(key, tm)]\<rparr>)
            [confirm_msg (ep_room p) cp])"
proof -
  from pr obtain payload where "hex_decode body = Some payload" "\<not> length payload < SPAKE2_PAYLOAD_LEN"
    by (auto simp: process_spake_msg_def split: option.splits if_splits)
  with assms show ?thesis
    by (intro exI [of _ "to_hex_lower (take SPAKE2_PAYLOAD_LEN payload)"])
      (simp add: recv_spake2_def Let_def hm_contains_def evict_candidate_def MAX_CANDIDATES_def)
qed

lemma recv_confirm_single:
  assumes "candidates st = [(key, candidate_of pr cp)]"
    and "process_confirm_msg c body (confirm_key pr) (enc_key pr) (effective_my_point pr)
      (effective_peer_point pr) (ep_fingerprint p) (peer_fingerprint pr) = Some (Inr pa)"
  shows "recv_confirm c p body st = Some (Finished (pa, peer_fingerprint pr, is_server pr) [])"
  using assms by (simp add: recv_confirm_def check_confirm_def candidate_of_def)

text \<open>
  Both ends of one exchange. The two peers hold states made from the same code; each has been
  given the other's payload and the confirmation the other sends in answer.
\<close>

definition peer_params :: "exchange_params \<Rightarrow> bool" where
  "peer_params p \<longleftrightarrow> ep_point_m p = blinded_bytes_m (ep_state p) \<and> ep_point_n p = blinded_bytes_n (ep_state p)
     \<and> length (ep_fingerprint p) = 32"

lemma hex_text_hex: "bs \<noteq> [] \<Longrightarrow> length bs \<le> 500 \<Longrightarrow> hex_text (to_hex_lower bs)"
proof -
  assume "bs \<noteq> []" "length bs \<le> 500"
  moreover from this have "to_hex_lower bs \<noteq> []"
    by (metis length_0_conv length_to_hex_lower mult_is_0 zero_neq_numeral)
  ultimately show ?thesis using to_hex_lower_digits [of _ bs] by (simp add: hex_text_def)
qed

lemma count_inbound_small:
  "inbound_window st = None \<Longrightarrow> inbound_count (count_inbound tm st) = 1"
  "inbound_count st \<le> 1 \<Longrightarrow> inbound_count (count_inbound tm st) \<le> 2"
  by (simp_all add: count_inbound_def Let_def)

lemma exchange_answers:
  assumes c: "group_ok c" "kdf_ok c" "gcm_ok c" and n: "n_generator c = Some g"
    and p: "peer_params pa" "peer_params pb" and f: "ep_fingerprint pa \<noteq> ep_fingerprint pb"
    and st: "fresh_exchange sta" and rnd: "rand_ok rnd" and addr: "plain_addr (my_addr sta)"
    and pra: "process_spake_msg c (to_hex_lower (spake2_payload pb)) (ep_state pa) (ep_point_m pa)
        (ep_point_n pa) (ep_fingerprint pa) = Some (Inr pra)"
    and ag: "agreed pra prb (ep_fingerprint pa) (ep_fingerprint pb)"
  shows "\<exists>key cp sta'. exchange_recv c pa rnd tm (msgd_msg ''spake2'' (to_hex_lower (spake2_payload pb))) sta
        = Some (Continue sta' [confirm_msg (ep_room pa) cp])
      \<and> candidates sta' = [(key, candidate_of pra cp)] \<and> inbound_count sta' = 1 \<and> length cp = 160
      \<and> confirm_last_sent sta' = [(key, tm)] \<and> last_reg_sent sta' = last_reg_sent sta
      \<and> received_regd sta' = received_regd sta
      \<and> process_confirm_msg c (to_hex_lower cp) (confirm_key prb) (enc_key prb) (effective_my_point prb)
          (effective_peer_point prb) (ep_fingerprint pb) (peer_fingerprint prb) = Some (Inr (my_addr sta))"
proof -
  let ?st = "count_inbound tm sta"
  have f32: "length (ep_fingerprint pa) = 32" "length (ep_fingerprint pb) = 32" using p by (simp_all add: peer_params_def)
  have ek: "length (enc_key pra) = 32" using ag unfolding agreed_def by blast
  obtain cp where cp: "build_confirm_payload c rnd (confirm_key pra) (enc_key pra) (effective_my_point pra)
      (effective_peer_point pra) (ep_fingerprint pa) (ep_fingerprint pb) (my_addr sta) = Some (Inr cp)" "length cp = 160"
    "process_confirm_msg c (to_hex_lower cp) (confirm_key pra) (enc_key pra) (effective_peer_point pra)
      (effective_my_point pra) (ep_fingerprint pb) (ep_fingerprint pa) = Some (Inr (my_addr sta))"
    using confirm_roundtrip [OF c n f32 f ek rnd addr] by blast
  have ht: "hex_text (to_hex_lower (spake2_payload pb))"
    using p(2) by (intro hex_text_hex) (auto simp: spake2_payload_def peer_params_def)
  have st': "candidates ?st = []" "confirm_last_sent ?st = []" "buffered_confirms ?st = []" "inbound_count ?st = 1"
    using st by (simp_all add: fresh_exchange_def count_inbound_small(1))
  have fp: "peer_fingerprint pra = ep_fingerprint pb" "peer_fingerprint prb = ep_fingerprint pa"
    using ag by (simp_all add: agreed_def)
  obtain key where "recv_spake2 c pa rnd tm (to_hex_lower (spake2_payload pb)) ?st =
      Some (Continue (?st\<lparr>candidates := [(key, candidate_of pra cp)], confirm_last_sent := [(key, tm)]\<rparr>)
              [confirm_msg (ep_room pa) cp])"
    using recv_spake2_fresh [OF st'(1-3) pra, of rnd cp tm] cp(1) fp by auto
  with exchange_recv_msgd(1) [OF ht, where st = sta and tm = tm and c = c and p = pa and rnd = rnd] st'(4) cp(2,3) ag fp show ?thesis
    by (intro exI [of _ key] exI [of _ cp]) (auto simp: agreed_def MAX_INBOUND_MSGD_PER_SECOND_def)
qed

lemma exchange_pair:
  assumes c: "group_ok c" "kdf_ok c" "gcm_ok c"
    and p: "peer_params pa" "peer_params pb" "ep_fingerprint pa \<noteq> ep_fingerprint pb"
    and s: "state_from_scalars c iters code sm sn = Some (ep_state pa)"
      "state_from_scalars c iters code sm' sn' = Some (ep_state pb)"
    and nz: "\<not> ORDER_N dvd sm * sn'" "\<not> ORDER_N dvd sm' * sn" "ep_point_m pa \<noteq> ep_point_m pb"
    and st: "fresh_exchange sta" "fresh_exchange stb" "plain_addr (my_addr sta)" "plain_addr (my_addr stb)"
    and r: "rand_ok ra" "rand_ok rb"
    and x: "process_spake_msg c (to_hex_lower (spake2_payload pb)) (ep_state pa) (ep_point_m pa) (ep_point_n pa)
        (ep_fingerprint pa) \<noteq> Some (Inl (Spake2State SharedXZero))"
  shows "\<exists>cpa cpb sta' stb' server.
    exchange_recv c pa ra t (msgd_msg ''spake2'' (to_hex_lower (spake2_payload pb))) sta
      = Some (Continue sta' [confirm_msg (ep_room pa) cpa])
    \<and> exchange_recv c pb rb t (msgd_msg ''spake2'' (to_hex_lower (spake2_payload pa))) stb
      = Some (Continue stb' [confirm_msg (ep_room pb) cpb])
    \<and> exchange_recv c pa ra t' (msgd_msg ''confirm'' (to_hex_lower cpb)) sta'
      = Some (Finished (my_addr stb, ep_fingerprint pb, server) [])
    \<and> exchange_recv c pb rb t' (msgd_msg ''confirm'' (to_hex_lower cpa)) stb'
      = Some (Finished (my_addr sta, ep_fingerprint pa, \<not> server) [])
    \<and> length cpa = 160 \<and> length cpb = 160"
proof -
  have body: "to_hex_lower (spake2_payload q) = spake2_body (ep_state q) (ep_fingerprint q)" if "peer_params q" for q
    using that by (simp add: spake2_payload_def peer_params_def spake2_body_def)
  have f: "length (ep_fingerprint pa) = 32" "length (ep_fingerprint pb) = 32" using p by (simp_all add: peer_params_def)
  have pts: "blinded_bytes_m (ep_state pa) \<noteq> blinded_bytes_m (ep_state pb)" using p nz by (simp add: peer_params_def)
  obtain pra prb where pr: "process_spake_msg c (to_hex_lower (spake2_payload pb)) (ep_state pa) (ep_point_m pa) (ep_point_n pa)
        (ep_fingerprint pa) = Some (Inr pra)"
    "process_spake_msg c (to_hex_lower (spake2_payload pa)) (ep_state pb) (ep_point_m pb) (ep_point_n pb)
        (ep_fingerprint pb) = Some (Inr prb)"
    "agreed pra prb (ep_fingerprint pa) (ep_fingerprint pb)"
    using agreement_either [OF c(1,2) s nz(1,2) f p(3) pts] x p(1,2) unfolding body [OF p(1)] body [OF p(2)]
    by (auto simp: peer_params_def)
  obtain ng where ng: "n_generator c = Some ng" using state_from_scalarsD [OF s(1)] by metis
  obtain ka cpa sta' where a: "exchange_recv c pa ra t (msgd_msg ''spake2'' (to_hex_lower (spake2_payload pb))) sta
        = Some (Continue sta' [confirm_msg (ep_room pa) cpa])"
    "candidates sta' = [(ka, candidate_of pra cpa)]" "inbound_count sta' = 1" "length cpa = 160"
    "process_confirm_msg c (to_hex_lower cpa) (confirm_key prb) (enc_key prb) (effective_my_point prb)
        (effective_peer_point prb) (ep_fingerprint pb) (peer_fingerprint prb) = Some (Inr (my_addr sta))"
    using exchange_answers [OF c ng p st(1) r(1) st(3) pr(1,3)] by blast
  obtain kb cpb stb' where b: "exchange_recv c pb rb t (msgd_msg ''spake2'' (to_hex_lower (spake2_payload pa))) stb
        = Some (Continue stb' [confirm_msg (ep_room pb) cpb])"
    "candidates stb' = [(kb, candidate_of prb cpb)]" "inbound_count stb' = 1" "length cpb = 160"
    "process_confirm_msg c (to_hex_lower cpb) (confirm_key pra) (enc_key pra) (effective_my_point pra)
        (effective_peer_point pra) (ep_fingerprint pa) (peer_fingerprint pra) = Some (Inr (my_addr stb))"
    using exchange_answers [OF c ng p(2,1) p(3) [symmetric] st(2) r(2) st(4) pr(2) agreed_sym [OF pr(3)]] by blast
  have ta: "hex_text (to_hex_lower cpa)" and tb: "hex_text (to_hex_lower cpb)"
    using a(4) b(4) by (intro hex_text_hex; force)+
  have small: "inbound_count (count_inbound t' s) \<le> MAX_INBOUND_MSGD_PER_SECOND" if "inbound_count s = 1" for s
    using count_inbound_small(2) [of s t'] that by (simp add: MAX_INBOUND_MSGD_PER_SECOND_def)
  have "exchange_recv c pa ra t' (msgd_msg ''confirm'' (to_hex_lower cpb)) sta'
      = Some (Finished (my_addr stb, peer_fingerprint pra, is_server pra) [])"
    "exchange_recv c pb rb t' (msgd_msg ''confirm'' (to_hex_lower cpa)) stb'
      = Some (Finished (my_addr sta, peer_fingerprint prb, is_server prb) [])"
    unfolding exchange_recv_msgd(2) [OF tb small [OF a(3)]] exchange_recv_msgd(2) [OF ta small [OF b(3)]]
    using a(2) b(2) recv_confirm_single [of "count_inbound t' sta'" ka pra cpa, OF _ b(5)]
      recv_confirm_single [of "count_inbound t' stb'" kb prb cpb, OF _ a(5)]
    by simp_all
  with a(1,4) b(1,4) pr(3) show ?thesis unfolding agreed_def by fastforce
qed

section \<open>Properties\<close>


lemma exchange_evidence:
  assumes "exchange_start c getenv priv_m priv_n loc t room code my_fp pc = Some (p, st)"
    and "exchange_run c p is st = Some (Some (Inr (addr, fp, server)), st', out)"
  shows "\<exists>body pr confirm payload.
    {spake2_line body, confirm_line confirm} \<subseteq> \<Union> (turn_lines ` set is)
    \<and> process_spake_msg c body (ep_state p) (ep_point_m p) (ep_point_n p) my_fp = Some (Inr pr)
    \<and> hex_decode confirm = Some payload
    \<and> compute_confirm c (confirm_key pr) (effective_peer_point pr) (effective_my_point pr)
        (take CONFIRM_NONCE_SIZE payload) fp my_fp
        = Some (Inr (take CONFIRM_HMAC_SIZE (drop CONFIRM_NONCE_SIZE payload)))
    \<and> fp = peer_fingerprint pr \<and> server = is_server pr \<and> fp \<noteq> my_fp"
proof -
  have fp: "ep_fingerprint p = my_fp"
    using assms(1) by (auto simp: exchange_start_def Option.bind_eq_Some_conv)
  from exchange_run_ok [OF exchange_start_ok [OF assms(1)] assms(2) order.refl]
  obtain body pr confirm where b: "spake2_line body \<in> \<Union> (turn_lines ` set is)"
    "confirm_line confirm \<in> \<Union> (turn_lines ` set is)"
    "process_spake_msg c body (ep_state p) (ep_point_m p) (ep_point_n p) my_fp = Some (Inr pr)"
    "process_confirm_msg c confirm (confirm_key pr) (enc_key pr) (effective_my_point pr)
       (effective_peer_point pr) my_fp (peer_fingerprint pr) = Some (Inr addr)"
    "fp = peer_fingerprint pr" "server = is_server pr"
    unfolding authenticated_def fp by auto
  note v = process_confirm_verified [OF b(4)] and r = process_spake_fingerprint [OF b(3)]
  from v obtain payload where "hex_decode confirm = Some payload"
    "compute_confirm c (confirm_key pr) (effective_peer_point pr) (effective_my_point pr)
        (take CONFIRM_NONCE_SIZE payload) (peer_fingerprint pr) my_fp
        = Some (Inr (take CONFIRM_HMAC_SIZE (drop CONFIRM_NONCE_SIZE payload)))" by blast
  with b r show ?thesis by auto
qed

text \<open>
  C3. A run that ends with a peer's address, fingerprint and role has received a SPAKE2 payload
  with that fingerprint and a confirmation whose code is exactly the one computed with the key
  derived from that payload, over the nonce in it and with the peer as sender and this peer as
  receiver. The fingerprint is never this peer's own.
\<close>

theorem exchange_authenticates:
  assumes "exchange_start c getenv priv_m priv_n loc t room code my_fp pc = Some (p, st)"
    and "exchange_run c p is st = Some (Some (Inr (addr, fp, server)), st', out)"
  shows "\<exists>body pr confirm payload.
    {spake2_line body, confirm_line confirm} \<subseteq> \<Union> (turn_lines ` set is)
    \<and> process_spake_msg c body (ep_state p) (ep_point_m p) (ep_point_n p) my_fp = Some (Inr pr)
    \<and> hex_decode confirm = Some payload
    \<and> compute_confirm c (confirm_key pr) (effective_peer_point pr) (effective_my_point pr)
        (take CONFIRM_NONCE_SIZE payload) fp my_fp
        = Some (Inr (take CONFIRM_HMAC_SIZE (drop CONFIRM_NONCE_SIZE payload)))
    \<and> fp = peer_fingerprint pr \<and> server = is_server pr \<and> fp \<noteq> my_fp"
  by (rule exchange_evidence [OF assms])

text \<open>
  C25. The tables of the loop are bounded however long it runs and whatever it receives: at most 50
  candidates, no send time without its candidate, at most 200 buffered confirmations.
\<close>

theorem exchange_bounded:
  assumes "exchange_start c getenv priv_m priv_n loc t room code my_fp pc = Some (p, st)"
    and "exchange_run c p is st = Some (r, st', out)"
  shows "length (candidates st') \<le> MAX_CANDIDATES \<and> length (confirm_last_sent st') \<le> MAX_CANDIDATES
    \<and> length (buffered_confirms st') \<le> MAX_BUFFERED_CONFIRMS"
proof -
  have ok: "exchange_ok c p (\<Union> (turn_lines ` set is)) st'"
    using exchange_run_ok [OF exchange_start_ok [OF assms(1)] assms(2) order.refl] by blast
  then have "distinct (hm_keys (confirm_last_sent st'))"
    "set (hm_keys (confirm_last_sent st')) \<subseteq> set (hm_keys (candidates st'))"
    by (auto simp: exchange_ok_def hm_ok_def hm_keys_def)
  then have "length (hm_keys (confirm_last_sent st')) \<le> length (hm_keys (candidates st'))"
    by (metis card_length card_mono distinct_card finite_set le_trans)
  with ok show ?thesis by (simp add: exchange_ok_def)
qed

text \<open>
  In any stretch of less than a second the loop takes at most 1000 \<^verbatim>\<open>MSGD\<close> lines past the bound
  on inbound work.
\<close>

theorem inbound_rate_bound:
  assumes "sorted (map snd calls)" "\<forall>x \<in> set calls. t0 \<le> snd x \<and> snd x < t0 + from_secs 1"
  shows "admitted inbound_step () calls st \<le> 1000"
proof -
  have "\<forall>x \<in> set calls. t0 \<le> snd x \<and> snd x \<le> t0 + (from_secs 1 - 1)"
    using assms(2) by (auto simp: from_secs_def)
  from inbound.admitted_twice [OF TrueI assms(1) this, of "()" st] show ?thesis
    by (simp add: MAX_INBOUND_MSGD_PER_SECOND_def)
qed

section \<open>A concrete exchange\<close>

definition demo_cfg :: peer_config where
  "demo_cfg = \<lparr>pc_punch_timeout = None, pc_exchange_deadline = None, pc_spake2_resend = None,
     pc_confirm_resend = None, pc_read_deadline = None, pc_reg_interval = None, pc_max_streams = None,
     pc_forward_max_streams = None, pc_keep_alive_period = None, pc_idle_timeout = None,
     pc_handshake_timeout = None\<rparr>"

definition demo_params :: "spake_state \<Rightarrow> byte list \<Rightarrow> exchange_params" where
  "demo_params s fp = \<lparr>ep_room = ''00000000'', ep_fingerprint = fp, ep_state = s,
     ep_point_m = blinded_bytes_m s, ep_point_n = blinded_bytes_n s,
     ep_spake2_resend = spake2_resend (\<lambda>_. None) demo_cfg, ep_confirm_resend = confirm_resend (\<lambda>_. None) demo_cfg,
     ep_reg_interval = reg_interval (\<lambda>_. None) demo_cfg, ep_deadline = exchange_deadline (\<lambda>_. None) demo_cfg\<rparr>"

definition demo_state :: "socket_addr \<Rightarrow> exchange_state" where
  "demo_state loc = \<lparr>my_addr = detect_outbound_addr loc, candidates = [], confirm_last_sent = [],
     buffered_confirms = [], last_spake2_sent = None, last_reg_sent = None, received_regd = False,
     pending_cookie = [], inbound_window = None, inbound_count = 0\<rparr>"

definition host_a :: socket_addr where "host_a = SockV4 0x0A000001 4711"
definition host_b :: socket_addr where "host_b = SockV4 0x0A000002 4712"

lemma demo_start:
  "exchange_start toy_crypto (\<lambda>_. None) (nat_be 32 2) (nat_be 32 3) host_a 0 ''00000000'' ''codecode'' (nat_be 32 1) demo_cfg
     = Some (demo_params toy_alice (nat_be 32 1), demo_state host_a)"
proof -
  have "reduce_mod_n (nat_be 32 2) = Some 2" "reduce_mod_n (nat_be 32 3) = Some 3"
    by (simp_all add: reduce_mod_n_eq be_nat_nat_be ORDER_N_def)
  then have "new_state toy_crypto i (nat_be 32 2) (nat_be 32 3) ''codecode'' = Some toy_alice" for i
    by (simp add: new_state_def toy_state toy_alice_def ORDER_N_def)
  then show ?thesis by (simp add: exchange_start_def demo_params_def demo_state_def)
qed

lemma demo_states:
  "state_from_scalars toy_crypto 600000 ''codecode'' 2 3 = Some toy_alice"
  "state_from_scalars toy_crypto 600000 ''codecode'' 4 6 = Some toy_bob"
  by (simp_all add: toy_state toy_alice_def toy_bob_def ORDER_N_def)

lemma demo_points: "blinded_bytes_m toy_alice \<noteq> blinded_bytes_m toy_bob"
  unfolding blinded_bytes_m_def toy_alice_def toy_bob_def by (simp add: fe_to_bytes_neq MOD_P_def)

lemma demo_nz: "\<not> ORDER_N dvd 2 * 6" "\<not> ORDER_N dvd 4 * 3"
  by (simp_all add: ORDER_N_def)

lemma demo_fps: "nat_be 32 1 \<noteq> nat_be 32 2"
  by (rule nat_be_neq) simp

lemma demo_addr: "plain_addr (my_addr (demo_state host_a))" "plain_addr (my_addr (demo_state host_b))"
  by (simp_all add: plain_addr_def demo_state_def host_a_def host_b_def v4_str_def v4_octets_def radix_str.simps
      digit_char_def)

lemma demo_peers:
  "peer_params (demo_params s (nat_be 32 n))" "fresh_exchange (demo_state loc)"
  by (simp_all add: peer_params_def demo_params_def fresh_exchange_def demo_state_def)

lemma demo_secret: "secret_of toy_crypto (pt_mul toy_crypto 12 (zn_of 1)) = Some (Inr (fe_to_bytes 12))"
  using toy_affine [of 12] by (simp add: secret_of_def toy_crypto_def zn_mul_of ORDER_N_def)

lemma demo_spake:
  "process_spake_msg toy_crypto (to_hex_lower (spake2_payload (demo_params toy_bob (nat_be 32 2)))) toy_alice
     (blinded_bytes_m toy_alice) (blinded_bytes_n toy_alice) (nat_be 32 1) \<noteq> Some (Inl (Spake2State SharedXZero))"
proof -
  have "compute_shared toy_crypto toy_alice (blinded_bytes_n toy_bob) False = Some (Inr (fe_to_bytes 12))"
    "compute_shared toy_crypto toy_alice (blinded_bytes_m toy_bob) True = Some (Inr (fe_to_bytes 12))"
    using shared_agreement [OF toy_group_ok demo_states demo_nz(1)]
      shared_agreement [OF toy_group_ok demo_states(2,1) demo_nz(2)] toy_generators(1) demo_secret
    by (auto simp: mult.commute)
  moreover have "to_hex_lower (spake2_payload (demo_params toy_bob (nat_be 32 2))) = spake2_body toy_bob (nat_be 32 2)"
    by (simp add: spake2_payload_def demo_params_def spake2_body_def)
  ultimately show ?thesis
    using process_spake_body [where c = toy_crypto and me = toy_alice and peer = toy_bob, OF _ _ demo_fps demo_points refl]
    by (auto simp: session_of_def Let_def split: option.splits sum.splits if_splits)
qed


definition demo_turn :: "string \<Rightarrow> turn_input" where
  "demo_turn d = \<lparr>ti_cancelled = False, ti_now = 0, ti_read = Datagram d, ti_read_at = 0, ti_rand = toy_rand\<rparr>"

lemma send_idle:
  assumes "last_reg_sent st = Some 0" "\<not> received_regd st" "candidates st = [(k, cand)]" "confirm_last_sent st = [(k, 0)]"
  shows "exchange_send p 0 st = (st, [])"
  using assms by (simp add: exchange_send_def send_reg_def send_spake2_def send_confirms_def is_due_def duration_since_def)

lemma run_two:
  assumes "exchange_turn c p i1 st = Some (Continue st1 o1, o1')" "exchange_turn c p i2 st1 = Some (Finished v o2, o2')"
  shows "exchange_run c p [i1, i2] st = Some (Some (Inr v), st1, o1' @ o1 @ o2' @ o2)"
  using assms by simp

lemma demo_run:
  obtains "is" st' out server where
    "exchange_run toy_crypto (demo_params toy_alice (nat_be 32 1)) is (demo_state host_a)
       = Some (Some (Inr (my_addr (demo_state host_b), nat_be 32 2, server)), st', out)"
proof -
  let ?pa = "demo_params toy_alice (nat_be 32 1)" and ?pb = "demo_params toy_bob (nat_be 32 2)"
  let ?st = "demo_state host_a\<lparr>last_reg_sent := Some 0\<rparr>"
  have p: "ep_state (demo_params s f) = s" "ep_fingerprint (demo_params s f) = f"
    "ep_point_m (demo_params s f) = blinded_bytes_m s" "ep_point_n (demo_params s f) = blinded_bytes_n s" for s f
    by (simp_all add: demo_params_def)
  have body: "to_hex_lower (spake2_payload (demo_params s f)) = spake2_body s f" for s f
    by (simp add: spake2_payload_def demo_params_def spake2_body_def)
  obtain pra prb where pr:
    "process_spake_msg toy_crypto (spake2_body toy_bob (nat_be 32 2)) toy_alice (blinded_bytes_m toy_alice)
       (blinded_bytes_n toy_alice) (nat_be 32 1) = Some (Inr pra)"
    "process_spake_msg toy_crypto (spake2_body toy_alice (nat_be 32 1)) toy_bob (blinded_bytes_m toy_bob)
       (blinded_bytes_n toy_bob) (nat_be 32 2) = Some (Inr prb)"
    "agreed pra prb (nat_be 32 1) (nat_be 32 2)"
    using agreement_either [OF toy_group_ok toy_kdf_ok demo_states demo_nz _ _ demo_fps demo_points] demo_spake
    by (auto simp: body)
  note answer = exchange_answers [OF toy_group_ok toy_kdf_ok toy_gcm_ok toy_generators(3) _ _ _ _ toy_rand_ok,
      where tm = 0, unfolded p body]
  have "fresh_exchange ?st" "plain_addr (my_addr ?st)" using demo_addr(1) by (simp_all add: fresh_exchange_def demo_state_def)
  from answer [OF demo_peers(1) demo_peers(1) _ this, unfolded p, OF demo_fps, unfolded body, OF pr(1,3)]
  obtain key cpa sta where a: "exchange_recv toy_crypto ?pa toy_rand 0 (msgd_msg ''spake2'' (spake2_body toy_bob (nat_be 32 2))) ?st
      = Some (Continue sta [confirm_msg (ep_room ?pa) cpa])" "candidates sta = [(key, candidate_of pra cpa)]"
    "inbound_count sta = 1" "confirm_last_sent sta = [(key, 0)]" "last_reg_sent sta = Some 0" "\<not> received_regd sta"
    by (auto simp: demo_state_def)
  from answer [OF demo_peers(1) demo_peers(1) _ demo_peers(2) demo_addr(2), unfolded p, OF demo_fps [symmetric], unfolded body, OF pr(2) agreed_sym [OF pr(3)]]
  obtain cpb where b: "length cpb = 160" "process_confirm_msg toy_crypto (to_hex_lower cpb) (confirm_key pra) (enc_key pra)
      (effective_my_point pra) (effective_peer_point pra) (nat_be 32 1) (peer_fingerprint pra)
      = Some (Inr (my_addr (demo_state host_b)))"
    by auto
  have tb: "hex_text (to_hex_lower cpb)" using b(1) by (intro hex_text_hex) force+
  have small: "inbound_count (count_inbound 0 sta) \<le> MAX_INBOUND_MSGD_PER_SECOND"
    using count_inbound_small(2) [of sta 0] a(3) by (simp add: MAX_INBOUND_MSGD_PER_SECOND_def)
  have fin: "exchange_recv toy_crypto ?pa toy_rand 0 (msgd_msg ''confirm'' (to_hex_lower cpb)) sta
      = Some (Finished (my_addr (demo_state host_b), nat_be 32 2, is_server pra) [])"
    unfolding exchange_recv_msgd(2) [OF tb small]
    using recv_confirm_single [of "count_inbound 0 sta" key pra cpa toy_crypto "to_hex_lower cpb" ?pa] a(2) b(2) pr(3)
    by (simp add: p agreed_def)
  have "exchange_send ?pa 0 (demo_state host_a) = (?st, [''REG 00000000'' @ NL])"
    by (simp add: exchange_send_def send_reg_def send_spake2_def send_confirms_def is_due_def demo_state_def demo_params_def)
  with a(1) have t1: "exchange_turn toy_crypto ?pa (demo_turn (msgd_msg ''spake2'' (spake2_body toy_bob (nat_be 32 2)))) (demo_state host_a)
      = Some (Continue sta [confirm_msg (ep_room ?pa) cpa], [''REG 00000000'' @ NL])"
    by (simp add: exchange_turn_def demo_turn_def demo_params_def)
  have t2: "exchange_turn toy_crypto ?pa (demo_turn (msgd_msg ''confirm'' (to_hex_lower cpb))) sta
      = Some (Finished (my_addr (demo_state host_b), nat_be 32 2, is_server pra) [], [])"
    using fin send_idle [OF a(5,6,2,4)] by (simp add: exchange_turn_def demo_turn_def demo_params_def)
  show thesis by (rule that [OF run_two [OF t1 t2]])
qed

theorem exchange_authenticates_witness:
  "\<exists>is. \<exists>body pr confirm payload.
    {spake2_line body, confirm_line confirm} \<subseteq> \<Union> (turn_lines ` set is)
    \<and> process_spake_msg toy_crypto body (ep_state (demo_params toy_alice (nat_be 32 1)))
        (ep_point_m (demo_params toy_alice (nat_be 32 1))) (ep_point_n (demo_params toy_alice (nat_be 32 1)))
        (nat_be 32 1) = Some (Inr pr)
    \<and> hex_decode confirm = Some payload \<and> nat_be 32 2 = peer_fingerprint pr"
  using demo_run exchange_authenticates [OF demo_start] by metis

theorem exchange_bounded_witness:
  "\<exists>is r st' out. exchange_run toy_crypto (demo_params toy_alice (nat_be 32 1)) is (demo_state host_a) = Some (r, st', out)
     \<and> length (candidates st') \<le> MAX_CANDIDATES"
  using demo_run exchange_bounded [OF demo_start] by metis

theorem inbound_rate_bound_witness:
  "admitted inbound_step () [((), 0), ((), 7)] (demo_state host_a) \<le> 1000"
  by (rule inbound_rate_bound [of _ 0]) (simp_all add: from_secs_def)

end
