(* ===== verification/Handshake.thy ===== *)
theory Handshake
  imports Exchange_Loop
begin

text \<open>
  The relay and the loop of a peer together: what the relay sends is what the loop expects, and
  what the loop sends is what the relay expects, so that a peer that follows the loop is admitted.
\<close>

lemma digit_char_printable: "d < 10 \<Longrightarrow> printable (digit_char d)"
proof -
  have "list_all (\<lambda>d. printable (digit_char d)) [0..<10]"
    by (simp add: upt_rec digit_char_def printable_def)
  then show "d < 10 \<Longrightarrow> ?thesis" by (simp add: list_all_iff)
qed

lemma dec_str_printable: "c \<in> set (dec_str n) \<Longrightarrow> printable c"
  using dec_str_digits digit_char_printable by blast

lemma sock_str_v4_printable: "c \<in> set (sock_str (SockV4 ip p)) \<Longrightarrow> printable c"
proof -
  have "printable (CHR ''.'')" "printable (CHR '':'')" by (simp_all add: printable_def)
  then show "c \<in> set (sock_str (SockV4 ip p)) \<Longrightarrow> printable c"
    by (auto simp: v4_str_def v4_octets_def dest: dec_str_printable)
qed

lemma length_sock_str_v4: "length (sock_str (SockV4 ip p)) < 52"
proof -
  obtain a b c d where o: "v4_octets ip = [a, b, c, d]" by (simp add: v4_octets_def)
  have "length (dec_str n) \<le> 3" if "n < 256" for n using length_dec_str [of n 2] that by simp
  moreover have "length (dec_str (unat p)) \<le> 5"
    using length_dec_str [of "unat p" 4] unsigned_less [of p, where 'a = nat] by simp
  ultimately have "length (dec_str a) \<le> 3" "length (dec_str b) \<le> 3" "length (dec_str c) \<le> 3"
    "length (dec_str d) \<le> 3" "length (dec_str (unat p)) \<le> 5"
    using octets_unat [OF o] by auto
  then show ?thesis by (simp add: v4_str_def o)
qed

lemma trim_printable:
  assumes "s \<noteq> []" "\<forall>c \<in> set s. printable c"
  shows "trim_ascii s = Some s"
  using printable_ends [OF assms] trim_ended(2) [of s] assms(1) unfolding trim_ascii_space_spec
  by (auto simp: trim_ascii_eq)

lemma accepted_sock_str: "p \<noteq> 0 \<Longrightarrow> accepted_addr (sock_str (SockV4 ip p))"
  using sock_str_v4_printable [of _ ip p]
  by (auto simp: accepted_addr_def parse_sock_str_v4 list_all_iff printable_def simp del: sock_str.simps
      intro!: utf8_valid_ascii) fastforce+

text \<open>A \<^verbatim>\<open>REGD\<close> line of the loop's own room.\<close>

lemma exchange_recv_regd:
  assumes room: "valid_room_name (ep_room p)"
    and s: "s \<noteq> []" "last s \<notin> set ws_bytes" "hd s \<notin> set ws_bytes" "length s < 200"
  shows "exchange_recv c p rnd tm (''REGD '' @ ep_room p @ '' '' @ s @ NL) st =
    map_option (\<lambda>st. Continue st []) (recv_regd p (ep_room p @ '' '' @ s) st)"
    and "trim_ascii s = Some s"
    and "split_first (CHR '' '') (ep_room p @ '' '' @ s) = Some (ep_room p, s)"
proof -
  show "split_first (CHR '' '') (ep_room p @ '' '' @ s) = Some (ep_room p, s)"
    using room_no_space [OF room] by simp
  have "\<not> (\<forall>c \<in> set s. c \<in> set ws_bytes)" using s(1,3) by auto
  then show "trim_ascii s = Some s"
    using trim_ended(2) [OF s(1,3,2)] unfolding trim_ascii_space_spec by (simp add: trim_ascii_eq)
  have "length (''REGD '' @ ep_room p @ '' '' @ s) < READ_BUFFER_SIZE"
    using s(4) room by (simp add: valid_room_name_iff READ_BUFFER_SIZE_def MAX_ROOM_NAME_LEN_def)
  then have "trim_ascii (take READ_BUFFER_SIZE ((''REGD '' @ ep_room p @ '' '' @ s) @ NL))
      = Some (''REGD '' @ ep_room p @ '' '' @ s)"
    using s R_not_ws(1) by (intro trim_line) simp_all
  then show "exchange_recv c p rnd tm (''REGD '' @ ep_room p @ '' '' @ s @ NL) st =
      map_option (\<lambda>st. Continue st []) (recv_regd p (ep_room p @ '' '' @ s) st)"
    by (simp add: exchange_recv_def starts_with_def strip_prefix_def)
qed

lemma cookie_hex:
  assumes "length ck = PENDING_COOKIE_BYTES"
  shows "to_hex_lower ck \<noteq> []" "length (to_hex_lower ck) = 32" "\<forall>c \<in> set (to_hex_lower ck). printable c"
    "strip_prefix ''OK '' (to_hex_lower ck) = None" "utf8_valid (to_hex_lower ck)"
proof -
  show len: "length (to_hex_lower ck) = 32" using assms by (simp add: PENDING_COOKIE_BYTES_def)
  then show ne: "to_hex_lower ck \<noteq> []" by force
  show "\<forall>c \<in> set (to_hex_lower ck). printable c" using to_hex_lower_digits hexdigit_printable by blast
  have "CHR ''O'' \<notin> set (to_hex_lower ck)"
    using to_hex_lower_digits [of "CHR ''O''" ck] by (auto simp: is_ascii_hexdigit_def)
  then show "strip_prefix ''OK '' (to_hex_lower ck) = None"
    by (metis append_Cons list.set_intros(1) not_None_eq strip_prefix_Some)
  show "utf8_valid (to_hex_lower ck)"
    using to_hex_lower_digits [of _ ck] by (intro utf8_valid_ascii) (fastforce simp: is_ascii_hexdigit_def Let_def)
qed

text \<open>The loop's answers to the relay's two kinds of \<^verbatim>\<open>REGD\<close>.\<close>

lemma client_challenged:
  assumes room: "valid_room_name (ep_room p)" and ck: "length ck = PENDING_COOKIE_BYTES"
  shows "exchange_recv c p rnd t (challenge_msg (ep_room p) ck) st
    = Some (Continue (st\<lparr>pending_cookie := to_hex_lower ck, last_reg_sent := None\<rparr>) [])"
proof -
  note h = cookie_hex [OF ck]
  note ends = printable_ends [OF h(1,3)]
  note r = exchange_recv_regd [OF room h(1) ends [THEN conjunct2] ends [THEN conjunct1], unfolded h(2), simplified]
  show ?thesis using r h by (simp add: challenge_msg_def relay_to_hex_lower_eq recv_regd_def hex_decode_encode)
qed

lemma client_confirmed:
  assumes room: "valid_room_name (ep_room p)" and port: "port \<noteq> 0"
  shows "exchange_recv c p rnd t (regd_ok_msg (ep_room p) (SockV4 ip port)) st
    = Some (Continue (st\<lparr>received_regd := True, my_addr := sock_str (SockV4 ip port)\<rparr>) [])"
proof -
  let ?a = "sock_str (SockV4 ip port)"
  have a: "?a \<noteq> []" "\<forall>c \<in> set ?a. printable c" using sock_str_v4_printable by auto
  have len: "length ?a < 52" by (rule length_sock_str_v4)
  have ok: "last (''OK '' @ ?a) \<notin> set ws_bytes" "hd (''OK '' @ ?a) \<notin> set ws_bytes"
    using a printable_not_ws by (simp_all add: ws_bytes_of_char)
  show ?thesis
    using exchange_recv_regd [OF room _ ok] len trim_printable [OF a] accepted_sock_str [OF port]
    by (simp add: regd_ok_msg_def recv_regd_def strip_prefix_def starts_with_def del: sock_str.simps)
qed

lemma client_registers:
  "last_reg_sent st = None \<Longrightarrow> send_reg p t st =
     (st\<lparr>last_reg_sent := Some t\<rparr>,
      [if pending_cookie st = [] then reg_wire (ep_room p) else ''REG '' @ ep_room p @ '' '' @ pending_cookie st @ NL])"
  by (simp add: send_reg_def is_due_def reg_wire_def)

text \<open>
  The loop and the relay understand each other. The loop's first datagram is the plain
  registration of its room; on the relay's challenge it keeps the cookie and its next datagram is
  the registration with that cookie; on the relay's confirmation of an IPv4 address it counts as
  registered and advertises that address.
\<close>

theorem client_speaks_relay:
  assumes room: "valid_room_name (ep_room p)" and ck: "length ck = PENDING_COOKIE_BYTES" and port: "port \<noteq> 0"
    and new: "last_reg_sent st = None" "pending_cookie st = []"
  shows "snd (send_reg p t st) = [reg_wire (ep_room p)]
    \<and> (let st1 = st\<lparr>pending_cookie := to_hex_lower ck, last_reg_sent := None\<rparr> in
        exchange_recv c p rnd t (challenge_msg (ep_room p) ck) st = Some (Continue st1 [])
        \<and> snd (send_reg p t st1) = [reg_cookie_wire (ep_room p) ck])
    \<and> exchange_recv c p rnd t (regd_ok_msg (ep_room p) (SockV4 ip port)) st
      = Some (Continue (st\<lparr>received_regd := True, my_addr := sock_str (SockV4 ip port)\<rparr>) [])"
  using new cookie_hex(1) [OF ck]
  by (simp add: client_challenged [OF room ck] client_confirmed [OF room port] client_registers reg_cookie_wire_def Let_def
      del: sock_str.simps)

theorem client_speaks_relay_witness:
  "snd (send_reg (demo_params toy_alice (nat_be 32 1)) 0 (demo_state host_a)) = [reg_wire ''00000000'']
   \<and> exchange_recv toy_crypto (demo_params toy_alice (nat_be 32 1)) toy_rand 0 (regd_ok_msg ''00000000'' host_b) (demo_state host_a)
      = Some (Continue (demo_state host_a\<lparr>received_regd := True, my_addr := sock_str host_b\<rparr>) [])"
proof -
  have room: "ep_room (demo_params toy_alice (nat_be 32 1)) = ''00000000''" by (simp add: demo_params_def)
  have h: "valid_room_name ''00000000''" "length (nat_be 16 0) = PENDING_COOKIE_BYTES" "(4712 :: u16) \<noteq> 0"
    "last_reg_sent (demo_state host_a) = None" "pending_cookie (demo_state host_a) = []"
    by (simp_all add: valid_room_name_def MAX_ROOM_NAME_LEN_def PENDING_COOKIE_BYTES_def demo_state_def)
  from client_speaks_relay [where p = "demo_params toy_alice (nat_be 32 1)" and c = toy_crypto and rnd = toy_rand and t = 0
      and ip = "0x0A000002", unfolded room, OF h]
  show ?thesis by (simp add: host_b_def Let_def)
qed

end
