(* ===== verification/Relay_Join.thy ===== *)
theory Relay_Join
  imports Relay_Live
begin

text \<open>
  Two clients of one room. The second client of a room is registered in two datagrams as the first
  is, by the branches of \<^verbatim>\<open>handle_reg\<close> for a room that exists; from then on each message of one client
  goes to the other. What a pair of peers needs of a message service is the locale \<open>courier\<close>, and the
  relay provides it.
\<close>

section \<open>What a pair of peers relies on\<close>

text \<open>
  \<open>lane n room a b s\<close>: in state \<open>s\<close> the service still takes \<open>n\<close> messages of each of \<open>a\<close> and \<open>b\<close> for
  \<open>room\<close>. A message reaches the other one, alone and unchanged.
\<close>

locale courier =
  fixes carry :: "'h \<Rightarrow> string \<Rightarrow> socket_addr \<Rightarrow> 's \<Rightarrow> 's \<times> send list"
    and working :: "'h \<Rightarrow> bool"
    and lane :: "nat \<Rightarrow> string \<Rightarrow> socket_addr \<Rightarrow> socket_addr \<Rightarrow> 's \<Rightarrow> bool"
  assumes lane_sym: "lane n room a b s \<Longrightarrow> lane n room b a s"
    and carries: "lane (Suc n) room a b s \<Longrightarrow> working h \<Longrightarrow> phase \<in> {''spake2'', ''confirm''} \<Longrightarrow> is_valid_hex body \<Longrightarrow>
      length body \<le> MAX_MSG_BODY_LEN \<Longrightarrow> snd (carry h (msg_wire room phase body) a s) = [(msgd_msg phase body, b)]"
    and keeps_lane: "lane (Suc n) room a b s \<Longrightarrow> working h \<Longrightarrow> phase \<in> {''spake2'', ''confirm''} \<Longrightarrow> is_valid_hex body \<Longrightarrow>
      length body \<le> MAX_MSG_BODY_LEN \<Longrightarrow> lane n room a b (fst (carry h (msg_wire room phase body) a s))"
begin

text \<open>A message each way, in either order of arrival.\<close>

lemma both_ways:
  assumes "lane (Suc n) room a b s" "working h" "working h'"
    and "phase \<in> {''spake2'', ''confirm''}" "is_valid_hex body" "length body \<le> MAX_MSG_BODY_LEN"
    and "phase' \<in> {''spake2'', ''confirm''}" "is_valid_hex body'" "length body' \<le> MAX_MSG_BODY_LEN"
  shows "snd (carry h (msg_wire room phase body) a s) = [(msgd_msg phase body, b)]"
    and "n = Suc m \<Longrightarrow> snd (carry h' (msg_wire room phase' body') b (fst (carry h (msg_wire room phase body) a s))) = [(msgd_msg phase' body', a)]"
    and "n = Suc m \<Longrightarrow> lane m room a b (fst (carry h' (msg_wire room phase' body') b (fst (carry h (msg_wire room phase body) a s))))"
proof -
  note first = carries [OF assms(1,2,4-6)] keeps_lane [OF assms(1,2,4-6)]
  show "snd (carry h (msg_wire room phase body) a s) = [(msgd_msg phase body, b)]" by (rule first(1))
  assume "n = Suc m"
  with first(2) have l: "lane (Suc m) room b a (fst (carry h (msg_wire room phase body) a s))" by (blast intro: lane_sym)
  show "snd (carry h' (msg_wire room phase' body') b (fst (carry h (msg_wire room phase body) a s))) = [(msgd_msg phase' body', a)]"
    by (rule carries [OF l assms(3,7-9)])
  show "lane m room a b (fst (carry h' (msg_wire room phase' body') b (fst (carry h (msg_wire room phase body) a s))))"
    by (rule lane_sym [OF keeps_lane [OF l assms(3,7-9)]])
qed

end

section \<open>The relay carries messages\<close>

text \<open>The client has sent so few messages in its window that \<open>n\<close> more pass whenever they come.\<close>

definition msgs_left :: "nat \<Rightarrow> relay \<Rightarrow> room_entry \<Rightarrow> socket_addr \<Rightarrow> bool" where
  "msgs_left n r e src =
     (case hm_get (udp_clients e) src of
        None \<Rightarrow> False
      | Some info \<Rightarrow> unat (msg_count (c_rate_limiter info)) + n \<le> unat (max_msg_rate r))"

definition paired :: "nat \<Rightarrow> string \<Rightarrow> socket_addr \<Rightarrow> socket_addr \<Rightarrow> relay \<Rightarrow> bool" where
  "paired n room a b r \<longleftrightarrow> relay_ok r \<and> valid_room_name room \<and> a \<noteq> b
     \<and> (case get_room r room of
          None \<Rightarrow> False
        | Some e \<Rightarrow> set (hm_keys (udp_clients e)) = {a, b} \<and> msgs_left n r e a \<and> msgs_left n r e b)"

definition all_writable :: "henv \<Rightarrow> bool" where
  "all_writable h \<longleftrightarrow> (\<forall>i. fst (writes h i))"

lemma is_limited_left:
  assumes "unat (msg_count l) + Suc n \<le> unat m"
  shows "\<not> snd (is_limited t w m l)" "unat (msg_count (fst (is_limited t w m l))) + n \<le> unat m"
proof -
  have lt: "msg_count l < m" "0 < m" using assms by (simp_all add: word_less_nat_alt)
  moreover from lt(1) have "unat (msg_count l + 1) = Suc (unat (msg_count l))"
    by (intro unat_incr) (simp add: word_less_nat_alt)
  ultimately show "\<not> snd (is_limited t w m l)" "unat (msg_count (fst (is_limited t w m l))) + n \<le> unat m"
    using assms by (auto simp: is_limited_def Let_def not_le)
qed

lemma paired_message:
  assumes p: "paired (Suc n) room a b r" and h: "all_writable h"
    and wf: "phase \<in> {''spake2'', ''confirm''}" "is_valid_hex body" "length body \<le> MAX_MSG_BODY_LEN"
  shows "snd (handle_packet h (msg_wire room phase body) a r) = [(msgd_msg phase body, b)]"
    and "paired n room a b (fst (handle_packet h (msg_wire room phase body) a r))"
proof -
  from p obtain e ia ib where e: "get_room r room = Some e" "set (hm_keys (udp_clients e)) = {a, b}" "a \<noteq> b" "relay_ok r" "valid_room_name room"
    and ia: "hm_get (udp_clients e) a = Some ia" "unat (msg_count (c_rate_limiter ia)) + Suc n \<le> unat (max_msg_rate r)"
    and ib: "hm_get (udp_clients e) b = Some ib" "unat (msg_count (c_rate_limiter ib)) + Suc n \<le> unat (max_msg_rate r)"
    by (auto simp: paired_def msgs_left_def split: option.splits)
  note lim = is_limited_left [OF ia(2), of "now h" "rate_window r"]
  define rl where "rl = fst (is_limited (now h) (rate_window r) (max_msg_rate r) (c_rate_limiter ia))"
  define e1 where "e1 = e\<lparr>udp_clients := hm_insert a (ia\<lparr>c_rate_limiter := rl\<rparr>) (udp_clients e)\<rparr>"
  define r1 where "r1 = put_room room e1 r"
  have rok: "room_ok e" using relay_ok_entry [OF e(4,1)] by (simp add: entry_ok_def)
  with room_okD(5) [OF rok ia(1)] have e1: "room_ok e1" by (simp add: e1_def room_ok_def hm_ok_insert hm_get_insert)
  have keys: "set (hm_keys (udp_clients e1)) = {a, b}" using e(2) by (simp add: e1_def hm_keys_insert insert_commute)
  have "set (msg_targets e1 a) = {b}" using keys e(3) by (auto simp: msg_targets_clients [OF e1])
  moreover have "distinct (msg_targets e1 a)" using e1 by (rule msg_targets_distinct)
  ultimately have t: "msg_targets e1 a = [b]"
    by (metis distinct.simps(2) empty_iff empty_set insert_ident list.exhaust list.set(2) list.set_intros(1) set_empty singletonD)
  have eq: "handle_packet h (msg_wire room phase body) a r =
      (let (r, out) = write_targets (writes h) 0 (msgd_msg phase body) [b] r1 in (r\<lparr>stat_msgs := stat_msgs r + 1\<rparr>, out))"
    unfolding handle_packet_msg_wire [OF e(5) wf] using lim(1) t
    by (simp add: relay_msg_def e(1) ia(1) Let_def case_prod_beta e1_def rl_def r1_def)
  show "snd (handle_packet h (msg_wire room phase body) a r) = [(msgd_msg phase body, b)]"
    unfolding eq using write_targets_out [of r1 "writes h" 0 "msgd_msg phase body" "[b]"] h
    by (simp only: all_writable_def case_prod_beta Let_def snd_conv) simp
  have core: "same_core r1 (fst (handle_packet h (msg_wire room phase body) a r))"
    unfolding eq using core_write_targets [of r1 "writes h" 0 "msgd_msg phase body" "[b]"]
    by (simp only: case_prod_beta Let_def fst_conv) (simp add: same_core_def)
  have ok: "relay_ok (fst (handle_packet h (msg_wire room phase body) a r))" using e(4) by (rule relay_ok_handle_packet)
  have "get_room r1 room = Some e1" by (simp add: r1_def get_room_put_room relay_okD(2) [OF e(4)])
  then have g: "get_room (fst (handle_packet h (msg_wire room phase body) a r)) room = Some e1"
    using get_room_core [OF core] by simp
  have m: "max_msg_rate (fst (handle_packet h (msg_wire room phase body) a r)) = max_msg_rate r"
    using core by (simp add: same_core_def limit_defs r1_def put_room_def)
  have "msgs_left n r e1 a" "msgs_left n r e1 b"
    using lim(2) ib e(3) by (simp_all add: msgs_left_def e1_def hm_get_insert rl_def)
  then show "paired n room a b (fst (handle_packet h (msg_wire room phase body) a r))"
    using ok e(3,5) g keys m by (auto simp: paired_def msgs_left_def split: option.splits)
qed

lemma paired_sym: "paired n room a b r \<Longrightarrow> paired n room b a r"
  by (auto simp: paired_def split: option.splits)

interpretation relay_courier: courier handle_packet all_writable paired
  by unfold_locales (auto intro: paired_sym paired_message)

section \<open>A second client joins\<close>

lemma update_same: "map_of al k = Some v \<Longrightarrow> AList.update k v al = al"
  by (induction al) auto

lemma put_room_same: "get_room r room = Some e \<Longrightarrow> put_room room e r = r"
  by (simp add: get_room_def sh_get_def put_room_def sh_put_def update_same)

lemma sweep_idle:
  assumes "\<forall>(a, c) \<in> set (udp_clients e). duration_since t (last_seen c) \<le> ttl"
    and "\<forall>(a, p) \<in> set (pending e). \<not> cookie_expired t p"
  shows "remove_stale_clients room t ttl e = (e, [])"
proof -
  have "hm_retain (\<lambda>_ info. duration_since t (last_seen info) > ttl) (udp_clients e) = []"
    using assms(1) by (fastforce simp: hm_retain_empty)
  moreover have "hm_retain (\<lambda>_ p. duration_since t (created_at p) > from_millis PENDING_REG_TTL_MS) (pending e) = []"
    using assms(2) by (fastforce simp: hm_retain_empty cookie_expired_def)
  ultimately show ?thesis by (simp add: remove_stale_clients_def stale_clients_def expired_pending_def Let_def hm_keys_def)
qed

text \<open>
  Room for one more in a room that exists: nobody is being registered, no client has gone stale, and
  no cap is reached.
\<close>

definition may_join :: "instant \<Rightarrow> string \<Rightarrow> room_entry \<Rightarrow> socket_addr \<Rightarrow> relay \<Rightarrow> bool" where
  "may_join t room e src r \<longleftrightarrow> get_room r room = Some e \<and> get_pending_reg r room src = None
     \<and> pending e = [] \<and> hm_get (udp_clients e) src = None
     \<and> (\<forall>(a, c) \<in> set (udp_clients e). duration_since t (last_seen c) \<le> reg_ttl r)
     \<and> length (udp_clients e) < max_clients_hard r
     \<and> count_ip_rooms r (ip_key src) < max_rooms_per_ip r
     \<and> count_prefix_clients e (ip_key src) < max_clients_per_prefix_per_room r
     \<and> pending_count_for_ip r (ip_key src) < max_pending_per_ip r \<and> 0 < max_pending_per_room r"

text \<open>What handling a registration leaves of the tables and limits that \<open>may_join\<close> reads.\<close>

lemma may_join_core:
  "same_core r r' \<Longrightarrow> reg_ttl_ms r' = reg_ttl_ms r \<Longrightarrow> may_join t room e src r' = may_join t room e src r"
  by (simp add: may_join_def same_core_def get_room_def get_pending_reg_def count_ip_rooms_def
      pending_count_for_ip_def limit_defs)

definition waiting_entry :: "instant \<Rightarrow> byte list \<Rightarrow> socket_addr \<Rightarrow> room_entry \<Rightarrow> room_entry" where
  "waiting_entry t ck src e =
     e\<lparr>pending := [(src, \<lparr>cookie = ck, created_at = t, p_resolved_addr = src\<rparr>)], pending_by_ip := ctr_incr (ip_key src) (pending_by_ip e)\<rparr>"

lemma join_initial:
  assumes ok: "relay_ok r" and j: "may_join (now h) room e src r" and wr: "may_write h r"
  defines "res \<equiv> handle_reg_initial h room src r"
  shows "snd res = [(challenge_msg room (rnd_cookie h), src)]"
    and "fst res = fst (send_reg_challenge h room (rnd_cookie h) src (put_room room (waiting_entry (now h) (rnd_cookie h) src e) r))"
proof -
  have rok: "room_ok e" using relay_ok_entry [OF ok, of room e] j by (simp add: entry_ok_def may_join_def)
  have sweep: "remove_stale_clients room (now h) (reg_ttl r) e = (e, [])"
    using j by (intro sweep_idle) (simp_all add: may_join_def)
  have zero: "entry_pending_count_for_ip e (ip_key src) = 0"
    using rok j by (simp add: entry_pending_count_for_ip_def room_ok_def may_join_def)
  have put: "put_room room e r = r" using j by (simp add: may_join_def put_room_same)
  have "reg_initial_in_room h room src e r = (put_room room (waiting_entry (now h) (rnd_cookie h) src e) r, Challenge (rnd_cookie h))"
    using j zero
    by (simp add: reg_initial_in_room_def sweep may_join_def Let_def not_le put add_pending_def waiting_entry_def hm_contains_def)
  then have eq: "res = send_reg_challenge h room (rnd_cookie h) src (put_room room (waiting_entry (now h) (rnd_cookie h) src e) r)"
    using j by (simp add: res_def handle_reg_initial_def may_join_def not_le)
  then show "fst res = fst (send_reg_challenge h room (rnd_cookie h) src (put_room room (waiting_entry (now h) (rnd_cookie h) src e) r))"
    by simp
  show "snd res = [(challenge_msg room (rnd_cookie h), src)]"
    unfolding eq using wr by (intro send_reg_challenge_out) (simp add: may_write_def put_room_def)
qed

text \<open>The state after the challenge and the cookie that comes back.\<close>

definition may_confirm :: "instant \<Rightarrow> string \<Rightarrow> room_entry \<Rightarrow> socket_addr \<Rightarrow> relay \<Rightarrow> bool" where
  "may_confirm t room e src r \<longleftrightarrow> get_room r room = Some e \<and> get_pending_reg r room src = None
     \<and> hm_get (udp_clients e) src = None
     \<and> (\<forall>(a, c) \<in> set (udp_clients e). duration_since t (last_seen c) \<le> reg_ttl r)
     \<and> length (udp_clients e) < max_clients_hard r
     \<and> count_ip_rooms r (ip_key src) < max_rooms_per_ip r
     \<and> count_prefix_clients e (ip_key src) < max_clients_per_prefix_per_room r"

lemma may_confirm_core:
  "same_core r r' \<Longrightarrow> reg_ttl_ms r' = reg_ttl_ms r \<Longrightarrow> may_confirm t room e src r' = may_confirm t room e src r"
  by (simp add: may_confirm_def same_core_def get_room_def get_pending_reg_def count_ip_rooms_def limit_defs)

lemma may_confirm_waiting:
  assumes "rooms_wf r" "may_join t room e src r"
    and "\<forall>(a, c) \<in> set (udp_clients e). duration_since t' (last_seen c) \<le> reg_ttl r"
  shows "may_confirm t' room (waiting_entry t ck src e) src (put_room room (waiting_entry t ck src e) r)"
  using assms
  by (simp add: may_confirm_def may_join_def get_room_put_room waiting_entry_def count_prefix_clients_def)
    (simp add: put_room_def limit_defs get_pending_reg_def count_ip_rooms_def)

lemma join_cookie:
  assumes ok: "relay_ok r" and j: "may_confirm (now h) room e src r" and wr: "may_write h r"
    and p: "pending e = [(src, p)]" "\<not> cookie_expired (now h) p" "length (cookie p) = PENDING_COOKIE_BYTES"
  defines "res \<equiv> handle_reg_cookie h room (to_hex_lower (cookie p)) src r"
  shows "snd res = [(regd_ok_msg room src, src)]"
    and "get_room (fst res) room = Some (admit_client (now h) src (fst (remove_pending src e)))"
    and "max_msg_rate (fst res) = max_msg_rate r"
proof -
  have rok: "room_ok e" using relay_ok_entry [OF ok, of room e] j by (simp add: entry_ok_def may_confirm_def)
  have sweep: "remove_stale_clients room (now h) (reg_ttl r) e = (e, [])"
    using j p by (intro sweep_idle) (simp_all add: may_confirm_def)
  have put: "put_room room e r = r" using j by (simp add: may_confirm_def put_room_same)
  have addr: "p_resolved_addr p = src" using rok p(1) by (simp add: room_ok_def)
  let ?e = "admit_client (now h) src (fst (remove_pending src e))"
  define linked where "linked = (\<exists>a \<in> set (hm_keys (udp_clients ?e)). a \<noteq> src \<and> ip_key a = ip_key src)"
  define r1 where "r1 = (if \<not> linked then add_ip_room (ip_key src) room (put_room room ?e r) else put_room room ?e r)"
  have "reg_cookie_in_room h room (cookie p) src e r = (count_reg r1, Regd)"
    using j p(2)
    by (simp add: reg_cookie_in_room_def p(1) sweep put may_confirm_def Let_def not_le hm_contains_def addr
        r1_def linked_def admit_client_def remove_pending_def) blast
  moreover have hex: "is_valid_hex (to_hex_lower (cookie p))" "length (to_hex_lower (cookie p)) = PENDING_COOKIE_BYTES * 2"
    using cookie_is_hex [OF p(3)] by simp_all
  ultimately have eq: "res = send_regd h room src (count_reg r1)"
    using j unfolding res_def
    by (simp add: handle_reg_cookie_def relay_hex_decode_eq hex_decode_encode may_confirm_def send_if_regd_def)
  have "write_pool (count_reg r1) = write_pool r"
    by (simp add: r1_def count_reg_def add_ip_room_def put_room_def)
  then show "snd res = [(regd_ok_msg room src, src)]"
    unfolding eq using wr by (intro send_regd_out) (simp add: may_write_def)
  show "get_room (fst res) room = Some ?e"
    unfolding eq using relay_okD(2) [OF ok] by (simp add: get_room_core [OF core_send_regd] r1_def get_room_put_room)
  have "max_msg_rate (fst res) = max_msg_rate (count_reg r1)"
    unfolding eq using core_send_regd [of "count_reg r1" h room src] by (simp add: same_core_def limit_defs)
  then show "max_msg_rate (fst res) = max_msg_rate r"
    by (simp add: r1_def count_reg_def add_ip_room_def put_room_def limit_defs)
qed

text \<open>The two datagrams in a row, for a source the registration limiter does not know.\<close>

lemma ttl_frame [simp]:
  "reg_ttl_ms (fst (is_reg_rate_limited k t r)) = reg_ttl_ms r" "reg_ttl_ms (put_room room e r) = reg_ttl_ms r"
  "reg_ttl_ms (fst (send_reg_challenge h room c src r)) = reg_ttl_ms r"
  by (simp_all add: is_reg_rate_limited_def Let_def case_prod_beta put_room_def send_reg_challenge_def
      write_relay_def log_write_error_def)

lemma join_run:
  assumes ok: "relay_ok r" and room: "valid_room_name room" and j: "may_join (now h1) room e src r"
    and lim: "limiter_clear src r" and cookie: "length (rnd_cookie h1) = PENDING_COOKIE_BYTES"
    and time: "now h2 \<le> now h1 + from_millis PENDING_REG_TTL_MS"
    and seen: "\<forall>(a, c) \<in> set (udp_clients e). duration_since (now h2) (last_seen c) \<le> reg_ttl r"
    and wr: "may_write h1 r" "may_write h2 r"
  defines "res1 \<equiv> handle_packet h1 (reg_wire room) src r"
  defines "res2 \<equiv> handle_packet h2 (reg_cookie_wire room (rnd_cookie h1)) src (fst res1)"
  shows "snd res1 = [(challenge_msg room (rnd_cookie h1), src)]" "snd res2 = [(regd_ok_msg room src, src)]"
    and "get_room (fst res2) room = Some (admit_client (now h2) src (fst (remove_pending src (waiting_entry (now h1) (rnd_cookie h1) src e))))"
    and "max_msg_rate (fst res2) = max_msg_rate r" "relay_ok (fst res2)"
proof -
  let ?e = "waiting_entry (now h1) (rnd_cookie h1) src e"
  let ?p = "\<lparr>cookie = rnd_cookie h1, created_at = now h1, p_resolved_addr = src\<rparr>"
  have len: "length (reg_shards r) = NUM_REG_SHARDS" using ok by (simp add: relay_ok_def limits_ok_def)
  define r0 where "r0 = fst (is_reg_rate_limited (reg_key src) (now h1) r)"
  have r0: "same_core r r0" "write_pool r0 = write_pool r" "reg_ttl_ms r0 = reg_ttl_ms r" unfolding r0_def by simp_all
  have ok0: "relay_ok r0" and j0: "may_join (now h1) room e src r0" and wr0: "may_write h1 r0"
    using relay_ok_core [OF r0(1) ok] may_join_core [OF r0(1,3)] j wr r0(2) by (simp_all add: may_write_def)
  have eq1: "res1 = handle_reg_initial h1 room src r0"
    unfolding res1_def handle_packet_reg_wire [OF room] handle_reg_def r0_def
    using limiter_first(1) [OF lim len, of "now h1"] by (simp add: case_prod_beta Let_def reg_key_def)
  note f = join_initial [OF ok0 j0 wr0, folded eq1]
  define r1 where "r1 = put_room room ?e r0"
  have gate: "same_gate r0 (fst res1)"
    unfolding f(2) using gate_send_reg_challenge [of "put_room room ?e r0" h1 room "rnd_cookie h1" src] by (simp add: same_gate_def put_room_def)
  have core1: "same_core r1 (fst res1)" unfolding f(2) r1_def by simp
  have once: "limiter_once src (fst res1)"
    by (rule limiter_once_gate [OF gate]) (simp add: r0_def limiter_first(2) [OF lim len])
  define q where "q = fst (is_reg_rate_limited (reg_key src) (now h2) (fst res1))"
  have coreq: "same_core (fst res1) q" "reg_ttl_ms q = reg_ttl_ms r0" unfolding q_def f(2) by simp_all
  have eq2: "res2 = handle_reg_cookie h2 room (to_hex_lower (cookie ?p)) src q"
    unfolding res2_def handle_packet_reg_cookie_wire [OF room cookie] handle_reg_def q_def
    using limiter_second [OF once, of "now h2"] cookie_not_empty [OF cookie] by (simp add: case_prod_beta Let_def reg_key_def)
  have "relay_ok (fst res1)" unfolding eq1 using ok0 by (rule relay_ok_handle_reg_initial)
  then have okq: "relay_ok q" by (rule relay_ok_core [OF coreq(1)])
  have "may_confirm (now h2) room ?e src r1"
    unfolding r1_def using seen r0(3) by (intro may_confirm_waiting [OF relay_okD(2) [OF ok0] j0]) (simp add: limit_defs)
  then have "may_confirm (now h2) room ?e src (fst res1)"
    using may_confirm_core [OF core1] by (simp add: f(2) r1_def)
  then have jq: "may_confirm (now h2) room ?e src q" using may_confirm_core [OF coreq(1)] coreq(2) by (simp add: f(2))
  have wrq: "may_write h2 q" using wr(2) gate r0(2) by (simp add: q_def may_write_def same_gate_def)
  have "pending ?e = [(src, ?p)]" "\<not> cookie_expired (now h2) ?p" "length (cookie ?p) = PENDING_COOKIE_BYTES"
    using time cookie by (simp_all add: waiting_entry_def cookie_expired_def duration_since_def)
  note g = join_cookie [OF okq jq wrq this, folded eq2]
  show "snd res1 = [(challenge_msg room (rnd_cookie h1), src)]" by (rule f(1))
  show "snd res2 = [(regd_ok_msg room src, src)]" by (rule g(1))
  show "get_room (fst res2) room = Some (admit_client (now h2) src (fst (remove_pending src ?e)))" by (rule g(2))
  have "max_msg_rate q = max_msg_rate r"
    using coreq(1) core1 r0(1) by (simp add: same_core_def limit_defs r1_def put_room_def)
  with g(3) show "max_msg_rate (fst res2) = max_msg_rate r" by simp
  show "relay_ok (fst res2)" unfolding eq2 using okq by (rule relay_ok_handle_reg_cookie)
qed

text \<open>After that the two are paired.\<close>

lemma join_pairs:
  assumes ok: "relay_ok r" and room: "valid_room_name room" and j: "may_join (now h1) room e b r"
    and lim: "limiter_clear b r" and cookie: "length (rnd_cookie h1) = PENDING_COOKIE_BYTES"
    and time: "now h2 \<le> now h1 + from_millis PENDING_REG_TTL_MS"
    and seen: "\<forall>(a, c) \<in> set (udp_clients e). duration_since (now h2) (last_seen c) \<le> reg_ttl r"
    and wr: "may_write h1 r" "may_write h2 r"
    and alone: "hm_keys (udp_clients e) = [a]" "msgs_left n r e a" "n \<le> unat (max_msg_rate r)"
  shows "paired n room a b (fst (handle_packet h2 (reg_cookie_wire room (rnd_cookie h1)) b
    (fst (handle_packet h1 (reg_wire room) b r))))" (is "paired n room a b ?r")
proof -
  note g = join_run(3-5) [OF ok room j lim cookie time seen wr]
  let ?e = "admit_client (now h2) b (fst (remove_pending b (waiting_entry (now h1) (rnd_cookie h1) b e)))"
  have cl: "udp_clients ?e = hm_insert b (udp_client_new (now h2) (Some b)) (udp_clients e)"
    by (simp add: admit_client_def remove_pending_def waiting_entry_def)
  obtain ia where ia: "udp_clients e = [(a, ia)]" using alone(1) by (auto simp: hm_keys_def)
  have ne: "a \<noteq> b" using j ia by (auto simp: may_join_def)
  have "set (hm_keys (udp_clients ?e)) = {a, b}" using ne by (auto simp: cl ia hm_keys_def)
  moreover have "msgs_left n ?r ?e a" "msgs_left n ?r ?e b"
    using alone(2,3) ne by (simp_all add: msgs_left_def g(2) cl ia udp_client_new_def rate_limiter_new_def)
  ultimately show ?thesis using g room ne by (simp add: paired_def)
qed

end
