(* ===== verification/Rendezvous.thy ===== *)
theory Rendezvous
  imports Handshake Relay_Join
begin

text \<open>
  Two peers and the relay between them: the loop of \<^verbatim>\<open>crates/qvole-protocol/src/exchange.rs\<close> at both
  ends and \<^verbatim>\<open>handle_packet\<close> of \<^verbatim>\<open>crates/qvole-relay/src/relay.rs\<close> in the middle. A hop is a datagram of one
  peer, what the relay sends for it, and what the peer that gets it does.
\<close>

section \<open>Hops\<close>

definition hop ::
    "'p crypto \<Rightarrow> henv \<Rightarrow> socket_addr \<Rightarrow> string \<Rightarrow> relay \<Rightarrow> relay
     \<Rightarrow> socket_addr \<Rightarrow> exchange_params \<Rightarrow> confirm_rand \<Rightarrow> instant \<Rightarrow> exchange_state \<Rightarrow> exchange_step \<Rightarrow> bool" where
  "hop c h src d r r' dst p rnd t st step \<longleftrightarrow>
     (\<exists>m. handle_packet h d src r = (r', [(m, dst)]) \<and> exchange_recv c p rnd t m st = Some step)"

lemma hopI:
  assumes "snd (handle_packet h d src r) = [(m, dst)]" "exchange_recv c p rnd t m st = Some step"
  shows "hop c h src d r (fst (handle_packet h d src r)) dst p rnd t st step"
  unfolding hop_def using assms by (intro exI [of _ m] conjI prod_eqI) simp_all

text \<open>The datagrams of the loop are messages as the relay reads them.\<close>

lemma spake2_is_msg:
  "received_regd st \<Longrightarrow> is_due t (ep_spake2_resend p) (last_spake2_sent st) \<Longrightarrow>
    send_spake2 p t st = (st\<lparr>last_spake2_sent := Some t\<rparr>, [msg_wire (ep_room p) ''spake2'' (to_hex_lower (spake2_payload p))])"
  by (simp add: send_spake2_def msg_wire_def)

lemma confirm_is_msg: "confirm_msg room cp = msg_wire room ''confirm'' (to_hex_lower cp)"
  by (simp add: confirm_msg_def msg_wire_def)

lemma hex_is_valid:
  assumes "bs \<noteq> []" "length bs \<le> 512"
  shows "is_valid_hex (to_hex_lower bs)" "length (to_hex_lower bs) \<le> MAX_MSG_BODY_LEN"
proof -
  have "to_hex_lower bs \<noteq> []" using assms(1) by (metis length_0_conv length_to_hex_lower mult_is_0 zero_neq_numeral)
  then show "is_valid_hex (to_hex_lower bs)" using to_hex_lower_digits [of _ bs] by (simp add: is_valid_hex_def list_all_iff)
  show "length (to_hex_lower bs) \<le> MAX_MSG_BODY_LEN" using assms(2) by (simp add: MAX_MSG_BODY_LEN_def)
qed

lemma length_spake2_payload: "peer_params p \<Longrightarrow> length (spake2_payload p) = 162"
  by (simp add: spake2_payload_def peer_params_def)

lemma payload_is_valid:
  assumes "peer_params p"
  shows "is_valid_hex (to_hex_lower (spake2_payload p))" "length (to_hex_lower (spake2_payload p)) \<le> MAX_MSG_BODY_LEN"
  using hex_is_valid [of "spake2_payload p"] length_spake2_payload [OF assms] by fastforce+

section \<open>Two registered peers\<close>

text \<open>Four messages: the two payloads and the two confirmations, each sent by the loop that is meant to.\<close>

lemma exchange_hops:
  assumes c: "group_ok c" "kdf_ok c" "gcm_ok c"
    and p: "peer_params pa" "peer_params pb" "ep_fingerprint pa \<noteq> ep_fingerprint pb"
    and s: "state_from_scalars c iters code sm sn = Some (ep_state pa)"
      "state_from_scalars c iters code sm' sn' = Some (ep_state pb)"
    and nz: "\<not> ORDER_N dvd sm * sn'" "\<not> ORDER_N dvd sm' * sn" "ep_point_m pa \<noteq> ep_point_m pb"
    and st: "fresh_exchange sta" "fresh_exchange stb" "plain_addr (my_addr sta)" "plain_addr (my_addr stb)"
    and r: "rand_ok ra" "rand_ok rb"
    and x: "process_spake_msg c (to_hex_lower (spake2_payload pb)) (ep_state pa) (ep_point_m pa) (ep_point_n pa)
        (ep_fingerprint pa) \<noteq> Some (Inl (Spake2State SharedXZero))"
    and room: "ep_room pa = room" "ep_room pb = room" and pr: "paired 4 room a b r0"
    and h: "all_writable h1" "all_writable h2" "all_writable h3" "all_writable h4"
  shows "\<exists>r1 r2 r3 r4 cpa cpb sta' stb' server.
    hop c h1 a (msg_wire room ''spake2'' (to_hex_lower (spake2_payload pa))) r0 r1 b pb rb t stb (Continue stb' [confirm_msg room cpb])
    \<and> hop c h2 b (msg_wire room ''spake2'' (to_hex_lower (spake2_payload pb))) r1 r2 a pa ra t sta (Continue sta' [confirm_msg room cpa])
    \<and> hop c h3 b (confirm_msg room cpb) r2 r3 a pa ra t' sta' (Finished (my_addr stb, ep_fingerprint pb, server) [])
    \<and> hop c h4 a (confirm_msg room cpa) r3 r4 b pb rb t' stb' (Finished (my_addr sta, ep_fingerprint pa, \<not> server) [])"
proof -
  obtain cpa cpb sta' stb' server where x:
    "exchange_recv c pa ra t (msgd_msg ''spake2'' (to_hex_lower (spake2_payload pb))) sta = Some (Continue sta' [confirm_msg room cpa])"
    "exchange_recv c pb rb t (msgd_msg ''spake2'' (to_hex_lower (spake2_payload pa))) stb = Some (Continue stb' [confirm_msg room cpb])"
    "exchange_recv c pa ra t' (msgd_msg ''confirm'' (to_hex_lower cpb)) sta' = Some (Finished (my_addr stb, ep_fingerprint pb, server) [])"
    "exchange_recv c pb rb t' (msgd_msg ''confirm'' (to_hex_lower cpa)) stb' = Some (Finished (my_addr sta, ep_fingerprint pa, \<not> server) [])"
    and len: "length cpa = 160" "length cpb = 160"
    using exchange_pair [OF c p s nz st r x, of t t'] unfolding room by blast
  have ph: "''spake2'' \<in> {''spake2'', ''confirm''}" "''confirm'' \<in> {''spake2'', ''confirm''}" by simp_all
  have va: "is_valid_hex (to_hex_lower cpa)" "length (to_hex_lower cpa) \<le> MAX_MSG_BODY_LEN"
    and vb: "is_valid_hex (to_hex_lower cpb)" "length (to_hex_lower cpb) \<le> MAX_MSG_BODY_LEN"
    using hex_is_valid [of cpa] hex_is_valid [of cpb] len by fastforce+
  let ?r1 = "fst (handle_packet h1 (msg_wire room ''spake2'' (to_hex_lower (spake2_payload pa))) a r0)"
  let ?r2 = "fst (handle_packet h2 (msg_wire room ''spake2'' (to_hex_lower (spake2_payload pb))) b ?r1)"
  have four: "paired (Suc 3) room a b r0" "(3 :: nat) = Suc 2" "(2 :: nat) = Suc 1" "(1 :: nat) = Suc 0" using pr by simp_all
  note m1 = relay_courier.both_ways [OF four(1) h(1,2) ph(1) payload_is_valid [OF p(1)] ph(1) payload_is_valid [OF p(2)]]
  have l2: "paired (Suc 1) room b a ?r2" using relay_courier.lane_sym [OF m1(3) [OF four(2)]] by (simp only: four(3))
  note m2 = relay_courier.both_ways [OF l2 h(3,4) ph(2) vb ph(2) va]
  show ?thesis
    using hopI [OF m1(1) x(2)] hopI [OF m1(2) [OF four(2)] x(1)]
      hopI [OF m2(1) x(3)] hopI [OF m2(2) [OF four(4)] x(4)]
    unfolding confirm_is_msg by blast
qed

lemma plain_sock_str: "plain_addr (sock_str (SockV4 ip port))"
  using length_sock_str_v4 [of ip port] sock_str_v4_printable [of _ ip port]
  by (auto simp: plain_addr_def printable_def simp del: sock_str.simps) fastforce+

lemma fresh_exchange_frame:
  "fresh_exchange (st\<lparr>last_reg_sent := x\<rparr>) = fresh_exchange st" "fresh_exchange (st\<lparr>pending_cookie := y\<rparr>) = fresh_exchange st"
  "fresh_exchange (st\<lparr>received_regd := z\<rparr>) = fresh_exchange st" "fresh_exchange (st\<lparr>my_addr := u\<rparr>) = fresh_exchange st"
  "fresh_exchange (st\<lparr>last_spake2_sent := v\<rparr>) = fresh_exchange st"
  by (simp_all add: fresh_exchange_def)

section \<open>Properties\<close>

text \<open>
  C1. Two peers find each other. One peer is registered and alone in the room of the code; the other
  starts. Through the relay and nothing else: the other's registration is challenged, repeated with
  the cookie and confirmed; the two payloads cross, each is answered with a confirmation, and the
  two confirmations cross. Every datagram is the one the loop of its sender sends, the relay sends
  exactly one datagram for it, to the peer it is for, and that peer's loop takes it. Both then have
  finished, each with the public address and the certificate fingerprint of the other, one as
  server and one as client.
\<close>

theorem rendezvous:
  assumes c: "group_ok c" "kdf_ok c" "gcm_ok c"
    and p: "peer_params pa" "peer_params pb" "ep_fingerprint pa \<noteq> ep_fingerprint pb"
    and s: "state_from_scalars c iters code sm sn = Some (ep_state pa)"
      "state_from_scalars c iters code sm' sn' = Some (ep_state pb)"
    and nz: "\<not> ORDER_N dvd sm * sn'" "\<not> ORDER_N dvd sm' * sn" "ep_point_m pa \<noteq> ep_point_m pb"
      "process_spake_msg c (to_hex_lower (spake2_payload pb)) (ep_state pa) (ep_point_m pa) (ep_point_n pa)
        (ep_fingerprint pa) \<noteq> Some (Inl (Spake2State SharedXZero))"
    and rnd: "rand_ok ra" "rand_ok rb"
    and room: "valid_room_name room" "ep_room pa = room" "ep_room pb = room"
    and addr: "a = SockV4 ipa porta" "b = SockV4 ipb portb" "portb \<noteq> 0"
    and a: "fresh_exchange sta" "received_regd sta" "my_addr sta = sock_str a" "is_due t (ep_spake2_resend pa) (last_spake2_sent sta)"
    and b: "fresh_exchange stb" "last_reg_sent stb = None" "pending_cookie stb = []" "last_spake2_sent stb = None"
    and relay: "relay_ok r0" "may_join (now h1) room e b r0" "limiter_clear b r0" "hm_keys (udp_clients e) = [a]"
      "msgs_left 4 r0 e a" "4 \<le> unat (max_msg_rate r0)"
      "\<forall>(x, i) \<in> set (udp_clients e). duration_since (now h2) (last_seen i) \<le> reg_ttl r0"
    and env: "length (rnd_cookie h1) = PENDING_COOKIE_BYTES" "now h2 \<le> now h1 + from_millis PENDING_REG_TTL_MS"
      "all_writable h1" "all_writable h2" "all_writable h3" "all_writable h4" "all_writable h5" "all_writable h6"
  shows "\<exists>d1 d2 d3 d4 d5 d6 r1 r2 r3 r4 r5 r6 stb1 stb2 stb3 sta3 server.
    snd (send_reg pb t stb) = [d1] \<and> hop c h1 b d1 r0 r1 b pb rb t (fst (send_reg pb t stb)) (Continue stb1 [])
    \<and> snd (send_reg pb t stb1) = [d2] \<and> hop c h2 b d2 r1 r2 b pb rb t (fst (send_reg pb t stb1)) (Continue stb2 [])
    \<and> snd (send_spake2 pa t sta) = [d3] \<and> hop c h3 a d3 r2 r3 b pb rb t (fst (send_spake2 pb t stb2)) (Continue stb3 [d5])
    \<and> snd (send_spake2 pb t stb2) = [d4] \<and> hop c h4 b d4 r3 r4 a pa ra t (fst (send_spake2 pa t sta)) (Continue sta3 [d6])
    \<and> hop c h5 b d5 r4 r5 a pa ra t' sta3 (Finished (sock_str b, ep_fingerprint pb, server) [])
    \<and> hop c h6 a d6 r5 r6 b pb rb t' stb3 (Finished (sock_str a, ep_fingerprint pa, \<not> server) [])"
proof -
  let ?ck = "rnd_cookie h1"
  define st1 where "st1 = stb\<lparr>pending_cookie := to_hex_lower ?ck, last_reg_sent := None\<rparr>"
  define st2 where "st2 = st1\<lparr>last_reg_sent := Some t, received_regd := True, my_addr := sock_str b\<rparr>"
  define r1 where "r1 = fst (handle_packet h1 (reg_wire room) b r0)"
  define r2 where "r2 = fst (handle_packet h2 (reg_cookie_wire room ?ck) b r1)"
  have wr: "may_write h1 r0" "may_write h2 r0" using env by (simp_all add: all_writable_def may_write_def)
  note j = join_run(1,2) [OF relay(1) room(1) relay(2,3) env(1,2) relay(7) wr, folded r1_def]
  have pr: "paired 4 room a b r2"
    unfolding r2_def r1_def by (rule join_pairs [OF relay(1) room(1) relay(2,3) env(1,2) relay(7) wr relay(4-6)])
  have reg: "send_reg pb t stb = (stb\<lparr>last_reg_sent := Some t\<rparr>, [reg_wire room])"
    "send_reg pb t st1 = (st1\<lparr>last_reg_sent := Some t\<rparr>, [reg_cookie_wire room ?ck])"
    using b room cookie_not_empty [OF env(1)] by (simp_all add: client_registers st1_def reg_cookie_wire_def)
  have "hop c h1 b (reg_wire room) r0 r1 b pb rb t (fst (send_reg pb t stb)) (Continue st1 [])"
    unfolding r1_def reg using room(1,3) by (intro hopI [OF j(1)]) (simp add: client_challenged [OF _ env(1), of pb, unfolded room(3)] st1_def)
  moreover have "hop c h2 b (reg_cookie_wire room ?ck) r1 r2 b pb rb t (fst (send_reg pb t st1)) (Continue st2 [])"
    unfolding r2_def reg using room(1,3)
    by (intro hopI [OF j(2)]) (simp add: client_confirmed [OF _ addr(3), of pb, unfolded room(3)] st2_def addr(2) del: sock_str.simps)
  moreover have sp: "send_spake2 pa t sta = (sta\<lparr>last_spake2_sent := Some t\<rparr>, [msg_wire room ''spake2'' (to_hex_lower (spake2_payload pa))])"
    "send_spake2 pb t st2 = (st2\<lparr>last_spake2_sent := Some t\<rparr>, [msg_wire room ''spake2'' (to_hex_lower (spake2_payload pb))])"
    using spake2_is_msg [OF a(2,4)] spake2_is_msg [of st2 t pb] b(4) room by (simp_all add: st2_def st1_def is_due_def)
  moreover have "fresh_exchange (sta\<lparr>last_spake2_sent := Some t\<rparr>)" "fresh_exchange (st2\<lparr>last_spake2_sent := Some t\<rparr>)"
    "plain_addr (my_addr (sta\<lparr>last_spake2_sent := Some t\<rparr>))" "plain_addr (my_addr (st2\<lparr>last_spake2_sent := Some t\<rparr>))"
    using a b addr plain_sock_str by (simp_all add: fresh_exchange_frame st2_def st1_def del: sock_str.simps)
  note exchange_hops [OF c p s nz(1-3) this rnd nz(4) room(2,3) pr env(5-8), of t t']
  then obtain r3 r4 r5 r6 cpa cpb sta3 stb3 server where
    "hop c h3 a (msg_wire room ''spake2'' (to_hex_lower (spake2_payload pa))) r2 r3 b pb rb t (fst (send_spake2 pb t st2)) (Continue stb3 [confirm_msg room cpb])"
    "hop c h4 b (msg_wire room ''spake2'' (to_hex_lower (spake2_payload pb))) r3 r4 a pa ra t (fst (send_spake2 pa t sta)) (Continue sta3 [confirm_msg room cpa])"
    "hop c h5 b (confirm_msg room cpb) r4 r5 a pa ra t' sta3 (Finished (sock_str b, ep_fingerprint pb, server) [])"
    "hop c h6 a (confirm_msg room cpa) r5 r6 b pb rb t' stb3 (Finished (sock_str a, ep_fingerprint pa, \<not> server) [])"
    unfolding sp fst_conv using a(3) by (auto simp: st2_def simp del: sock_str.simps)
  ultimately show ?thesis using reg sp by (metis snd_conv)
qed

text \<open>A relay that just started, with the first peer in the room.\<close>

definition demo_entry :: room_entry where
  "demo_entry = admit_client 0 host_a (room_entry_new 0)"

definition demo_relay :: relay where
  "demo_relay = add_ip_room (ip_key host_a) ''00000000''
     ((put_room ''00000000'' demo_entry fresh_relay)\<lparr>total_room_count := total_room_count fresh_relay + 1\<rparr>)"

lemma demo_relay_ok: "relay_ok demo_relay" "get_room demo_relay ''00000000'' = Some demo_entry"
proof -
  show "relay_ok demo_relay"
    unfolding demo_relay_def demo_entry_def using fresh_room_for [of "''00000000''" host_a] fresh_relay_ok
    by (intro relay_ok_create) (simp_all add: room_for_def)
  show "get_room demo_relay ''00000000'' = Some demo_entry"
    by (simp add: demo_relay_def get_room_put_room relay_okD(2) [OF fresh_relay_ok])
qed

lemma demo_relay_limits: "max_clients_hard demo_relay = 20" "max_clients_per_prefix_per_room demo_relay = 4" "max_msg_rate demo_relay = 10"
  "max_rooms_per_ip demo_relay = max_rooms_per_ip fresh_relay" "max_pending_per_ip demo_relay = max_pending_per_ip fresh_relay"
  "max_pending_per_room demo_relay = max_pending_per_room fresh_relay"
  by (simp_all add: demo_relay_def fresh_relay_config with_config_def config_defaults_def limit_defs add_ip_room_def put_room_def)

lemma demo_entry_clients: "udp_clients demo_entry = [(host_a, udp_client_new 0 (Some host_a))]" "pending demo_entry = []"
  by (simp_all add: demo_entry_def admit_client_def room_entry_new_def)

lemma demo_relay_join: "may_join 0 ''00000000'' demo_entry host_b demo_relay"
proof -
  have ip: "ip_key host_b \<noteq> ip_key host_a" by (simp add: host_a_def host_b_def)
  have "get_pending_reg demo_relay ''00000000'' host_b = None" "pending_count_for_ip demo_relay (ip_key host_b) = 0"
    using fresh_tables [of 0 config_defaults]
    by (simp_all add: demo_relay_def add_ip_room_def put_room_def get_pending_reg_def pending_count_for_ip_def fresh_relay_config)
  moreover have "count_ip_rooms demo_relay (ip_key host_b) = 0"
  proof -
    have "count_ip_rooms demo_relay ip = count_ip_rooms (add_ip_room (ip_key host_a) ''00000000'' fresh_relay) ip" for ip
      by (simp add: demo_relay_def add_ip_room_def put_room_def count_ip_rooms_def)
    moreover have "count_ip_rooms fresh_relay (ip_key host_b) = 0" by (simp add: fresh_relay_config fresh_tables)
    ultimately show ?thesis using ip by (simp add: count_add_ip_room [OF relay_okD(3) [OF fresh_relay_ok]])
  qed
  moreover have "0 < max_rooms_per_ip fresh_relay" "0 < max_pending_per_ip fresh_relay" "0 < max_pending_per_room fresh_relay"
    by (simp_all add: fresh_relay_config with_config_def config_defaults_def limit_defs)
  moreover have "host_a \<noteq> host_b" by (simp add: host_a_def host_b_def)
  ultimately show ?thesis
    using demo_relay_ok(2)
    by (simp add: may_join_def demo_relay_limits demo_entry_clients count_prefix_clients_def udp_client_new_def duration_since_def hm_keys_def)
qed

text \<open>The first peer, registered, and the second, just started.\<close>

definition demo_waiting_peer :: exchange_state where
  "demo_waiting_peer = (demo_state host_a)\<lparr>received_regd := True, my_addr := sock_str host_a\<rparr>"

theorem rendezvous_witness:
  "\<exists>d1 d2 d3 d4 d5 d6 r1 r2 r3 r4 r5 r6 stb1 stb2 stb3 sta3 server.
    let c = toy_crypto; h = demo_env 0; pa = demo_params toy_alice (nat_be 32 1); pb = demo_params toy_bob (nat_be 32 2);
        sta = demo_waiting_peer; stb = demo_state host_b; a = host_a; b = host_b in
    snd (send_reg pb 0 stb) = [d1] \<and> hop c h b d1 demo_relay r1 b pb toy_rand 0 (fst (send_reg pb 0 stb)) (Continue stb1 [])
    \<and> snd (send_reg pb 0 stb1) = [d2] \<and> hop c h b d2 r1 r2 b pb toy_rand 0 (fst (send_reg pb 0 stb1)) (Continue stb2 [])
    \<and> snd (send_spake2 pa 0 sta) = [d3] \<and> hop c h a d3 r2 r3 b pb toy_rand 0 (fst (send_spake2 pb 0 stb2)) (Continue stb3 [d5])
    \<and> snd (send_spake2 pb 0 stb2) = [d4] \<and> hop c h b d4 r3 r4 a pa toy_rand 0 (fst (send_spake2 pa 0 sta)) (Continue sta3 [d6])
    \<and> hop c h b d5 r4 r5 a pa toy_rand 5 sta3 (Finished (sock_str b, nat_be 32 2, server) [])
    \<and> hop c h a d6 r5 r6 b pb toy_rand 5 stb3 (Finished (sock_str a, nat_be 32 1, \<not> server) [])"
proof -
  have p: "ep_state (demo_params s f) = s" "ep_fingerprint (demo_params s f) = f" "ep_room (demo_params s f) = ''00000000''"
    "ep_point_m (demo_params s f) = blinded_bytes_m s" "ep_point_n (demo_params s f) = blinded_bytes_n s" for s f
    by (simp_all add: demo_params_def)
  have room: "valid_room_name ''00000000''" by (simp add: valid_room_name_def MAX_ROOM_NAME_LEN_def)
  have a: "fresh_exchange demo_waiting_peer" "received_regd demo_waiting_peer" "my_addr demo_waiting_peer = sock_str host_a"
    "is_due 0 d (last_spake2_sent demo_waiting_peer)" for d
    by (simp_all add: demo_waiting_peer_def demo_state_def fresh_exchange_def is_due_def)
  have b: "last_reg_sent (demo_state host_b) = None" "pending_cookie (demo_state host_b) = []" "last_spake2_sent (demo_state host_b) = None"
    by (simp_all add: demo_state_def)
  have n: "now (demo_env 0) = 0" "all_writable (demo_env 0)" "length (rnd_cookie (demo_env 0)) = PENDING_COOKIE_BYTES"
    by (simp_all add: demo_env_def all_writable_def PENDING_COOKIE_BYTES_def)
  have lim: "limiter_clear host_b demo_relay"
    using fresh_limiter_clear [of host_b] by (simp add: limiter_clear_def demo_relay_def add_ip_room_def put_room_def limit_defs)
  have e: "hm_keys (udp_clients demo_entry) = [host_a]" "msgs_left 4 demo_relay demo_entry host_a" "4 \<le> unat (max_msg_rate demo_relay)"
    "\<forall>(x, i) \<in> set (udp_clients demo_entry). duration_since 0 (last_seen i) \<le> reg_ttl demo_relay"
    by (simp_all add: demo_entry_clients hm_keys_def msgs_left_def demo_relay_limits udp_client_new_def rate_limiter_new_def duration_since_def)
  have host: "host_a = SockV4 0x0A000001 4711" "host_b = SockV4 0x0A000002 4712" "(4712 :: u16) \<noteq> 0"
    by (simp_all add: host_a_def host_b_def)
  from rendezvous [where c = toy_crypto and pa = "demo_params toy_alice (nat_be 32 1)"
      and pb = "demo_params toy_bob (nat_be 32 2)" and sta = demo_waiting_peer and stb = "demo_state host_b"
      and ra = toy_rand and rb = toy_rand and t = 0 and t' = 5 and iters = 600000 and code = "''codecode''"
      and sm = 2 and sn = 3 and sm' = 4 and sn' = 6 and ?r0.0 = demo_relay and ?h1.0 = "demo_env 0" and ?h2.0 = "demo_env 0"
      and ?h3.0 = "demo_env 0" and ?h4.0 = "demo_env 0" and ?h5.0 = "demo_env 0" and ?h6.0 = "demo_env 0" and e = demo_entry,
      unfolded p n(1), OF toy_group_ok toy_kdf_ok toy_gcm_ok demo_peers(1) demo_peers(1) demo_fps demo_states demo_nz demo_points demo_spake
      toy_rand_ok toy_rand_ok room refl refl host a demo_peers(2) b demo_relay_ok(1) demo_relay_join lim e n(3) _ n(2) n(2) n(2) n(2) n(2) n(2)]
  show ?thesis unfolding Let_def by simp
qed

end
