(* ===== verification/Text.thy ===== *)
theory Text
  imports Room Net_Parse
begin

text \<open>
  The operations on text that the client crates take from the standard library: \<^verbatim>\<open>lines\<close>,
  \<^verbatim>\<open>split\<close>, \<^verbatim>\<open>split_whitespace\<close>, \<^verbatim>\<open>contains\<close>, \<^verbatim>\<open>rsplit\<close> and \<^verbatim>\<open>String::from_utf8_lossy\<close>, on strings of
  UTF-8 bytes.
\<close>

section \<open>Splitting\<close>

definition NLc :: char where "NLc = CHR 10"

text \<open>\<^verbatim>\<open>str::lines\<close>: pieces ended by a newline, each without a carriage return at its end.\<close>

fun split_lines :: "string \<Rightarrow> string \<Rightarrow> string list" where
  "split_lines acc [] = (if acc = [] then [] else [rev acc])"
| "split_lines acc (c # s) =
     (if c = NLc then rev (case acc of d # ds \<Rightarrow> if d = CHR 13 then ds else acc | [] \<Rightarrow> []) # split_lines [] s
      else split_lines (c # acc) s)"

text \<open>\<^verbatim>\<open>str::split\<close> on one character: always at least one piece.\<close>

fun split_on :: "char \<Rightarrow> string \<Rightarrow> string list" where
  "split_on c [] = [[]]"
| "split_on c (x # xs) =
     (if x = c then [] # split_on c xs
      else case split_on c xs of p # ps \<Rightarrow> (x # p) # ps | [] \<Rightarrow> [[x]])"

text \<open>The length in bytes of the white-space character a text begins with, or 0.\<close>

definition ws_len :: "string \<Rightarrow> nat" where
  "ws_len s =
     (case map (of_char :: char \<Rightarrow> nat) (take 3 s) of
        [] \<Rightarrow> 0
      | a # r \<Rightarrow>
          if (9 \<le> a \<and> a \<le> 13) \<or> a = 32 then 1
          else if a = 194 then (case r of b # _ \<Rightarrow> if b = 133 \<or> b = 160 then 2 else 0 | [] \<Rightarrow> 0)
          else (case r of
                  [b, c] \<Rightarrow>
                    if (a = 225 \<and> b = 154 \<and> c = 128)
                     \<or> (a = 226 \<and> b = 128 \<and> ((128 \<le> c \<and> c \<le> 138) \<or> c = 168 \<or> c = 169 \<or> c = 175))
                     \<or> (a = 226 \<and> b = 129 \<and> c = 159) \<or> (a = 227 \<and> b = 128 \<and> c = 128) then 3 else 0
                | _ \<Rightarrow> 0))"

fun split_ws_from :: "nat \<Rightarrow> string \<Rightarrow> string \<Rightarrow> string list" where
  "split_ws_from skip acc [] = (if acc = [] then [] else [rev acc])"
| "split_ws_from (Suc k) acc (c # s) = split_ws_from k acc s"
| "split_ws_from 0 acc (c # s) =
     (case ws_len (c # s) of
        0 \<Rightarrow> split_ws_from 0 (c # acc) s
      | Suc k \<Rightarrow> (if acc = [] then [] else [rev acc]) @ split_ws_from k [] s)"

definition split_whitespace :: "string \<Rightarrow> string list" where
  "split_whitespace s = split_ws_from 0 [] s"

fun contains_str :: "string \<Rightarrow> string \<Rightarrow> bool" where
  "contains_str p [] = (p = [])"
| "contains_str p (c # s) = (starts_with (c # s) p \<or> contains_str p s)"

text \<open>\<^verbatim>\<open>rsplit(sep).next()\<close>: what follows the last occurrence of the separator.\<close>

fun after_last :: "string \<Rightarrow> string \<Rightarrow> string" where
  "after_last sep [] = []"
| "after_last sep (c # s) =
     (if contains_str sep s then after_last sep s
      else if starts_with (c # s) sep then drop (length sep) (c # s) else c # s)"

section \<open>Lossy decoding\<close>

text \<open>
  How many bytes the next step consumes, and whether they are a character: otherwise they are the
  longest prefix of one and become one replacement character.
\<close>

definition utf8_step :: "string \<Rightarrow> bool \<times> nat" where
  "utf8_step s =
     (let at = (\<lambda>i. if i < length s then (of_char (s ! i) :: nat) else 0);
          cont = (\<lambda>i. 128 \<le> at i \<and> at i \<le> 191); a = at 0; b = at 1
      in if a < 128 then (True, 1)
         else if 194 \<le> a \<and> a \<le> 223 then (if cont 1 then (True, 2) else (False, 1))
         else if 224 \<le> a \<and> a \<le> 239 then
           (if \<not> (if a = 224 then 160 \<le> b \<and> b \<le> 191 else if a = 237 then 128 \<le> b \<and> b \<le> 159 else cont 1) then (False, 1)
            else if \<not> cont 2 then (False, 2) else (True, 3))
         else if 240 \<le> a \<and> a \<le> 244 then
           (if \<not> (if a = 240 then 144 \<le> b \<and> b \<le> 191 else if a = 244 then 128 \<le> b \<and> b \<le> 143 else cont 1) then (False, 1)
            else if \<not> cont 2 then (False, 2) else if \<not> cont 3 then (False, 3) else (True, 4))
         else (False, 1))"

definition replacement :: string where
  "replacement = map char_of [239 :: nat, 191, 189]"

text \<open>\<open>keep\<close> counts the bytes still to copy of a character, \<open>skip\<close> those to drop of a bad one.\<close>

fun lossy_from :: "nat \<Rightarrow> nat \<Rightarrow> string \<Rightarrow> string" where
  "lossy_from keep skip [] = []"
| "lossy_from (Suc k) skip (c # s) = c # lossy_from k skip s"
| "lossy_from 0 (Suc k) (c # s) = lossy_from 0 k s"
| "lossy_from 0 0 (c # s) =
     (case utf8_step (c # s) of
        (True, n) \<Rightarrow> c # lossy_from (n - 1) 0 s
      | (False, n) \<Rightarrow> replacement @ lossy_from 0 (n - 1) s)"

definition from_utf8_lossy :: "string \<Rightarrow> string" where
  "from_utf8_lossy s = lossy_from 0 0 s"

lemma lossy_ascii: "\<forall>c \<in> set s. (of_char c :: nat) < 128 \<Longrightarrow> from_utf8_lossy s = s"
  unfolding from_utf8_lossy_def by (induction s) (auto simp: utf8_step_def Let_def)

section \<open>Facts\<close>

lemma split_on_nonempty [simp]: "split_on c s \<noteq> []"
  by (induction s) (auto split: list.splits)

lemma split_on_no: "c \<notin> set s \<Longrightarrow> split_on c s = [s]"
  by (induction s) auto

lemma split_on_append: "c \<notin> set a \<Longrightarrow> split_on c (a @ c # b) = a # split_on c b"
  by (induction a) (auto split: list.splits)

end
