(* ===== verification/Resolver.thy ===== *)
theory Resolver
  imports Text
begin

text \<open>
  \<^verbatim>\<open>crates/qvole-protocol/src/resolver.rs\<close>: splitting and resolving \<^verbatim>\<open>host:port\<close>, with the error texts,
  and the second copy of the splitter in \<^verbatim>\<open>crates/qvole-app/src/tunnel_allow.rs\<close>. The text of the
  services file and the system's name lookup are arguments.
\<close>

section \<open>Splitting\<close>

definition addr_err :: "string \<Rightarrow> string \<Rightarrow> string" where
  "addr_err addr why = ''address '' @ addr @ '': '' @ why"

definition split_host_port :: "string \<Rightarrow> string + string \<times> string" where
  "split_host_port h =
     (case rposition (\<lambda>c. c = CHR '':'') h of
        None \<Rightarrow> Inl (addr_err h ''missing port in address'')
      | Some i \<Rightarrow>
          (case (if starts_with h ''[''
                 then (case position (\<lambda>c. c = CHR '']'') h of
                         None \<Rightarrow> Inl (addr_err h ''missing ']' in address'')
                       | Some e \<Rightarrow>
                           if e + 1 = length h then Inl (addr_err h ''missing port in address'')
                           else if e + 1 \<noteq> i
                           then (if h ! (e + 1) = CHR '':'' then Inl (addr_err h ''too many colons in address'')
                                 else Inl (addr_err h ''missing port in address''))
                           else Inr (take (e - 1) (drop 1 h), 1, e + 1))
                 else (if CHR '':'' \<in> set (take i h) then Inl (addr_err h ''too many colons in address'')
                       else Inr (take i h, 0, 0))) of
             Inl e \<Rightarrow> Inl e
           | Inr (host, j, k) \<Rightarrow>
               if CHR ''['' \<in> set (drop j h) then Inl (addr_err h ''unexpected '[' in address'')
               else if CHR '']'' \<in> set (drop k h) then Inl (addr_err h ''unexpected ']' in address'')
               else Inr (host, drop (i + 1) h)))"

definition allow_split_host_port :: "string \<Rightarrow> (string \<times> string) option" where
  "allow_split_host_port h =
     (case rposition (\<lambda>b. b = CHR '':'') h of
        None \<Rightarrow> None
      | Some i \<Rightarrow>
          (case (if starts_with h ''[''
                 then (case position (\<lambda>b. b = CHR '']'') h of
                         None \<Rightarrow> None
                       | Some e \<Rightarrow>
                           if e + 1 = length h then None
                           else if e + 1 \<noteq> i then None
                           else Some (take (e - 1) (drop 1 h), 1, e + 1))
                 else (if CHR '':'' \<in> set (take i h) then None else Some (take i h, 0, 0))) of
             None \<Rightarrow> None
           | Some (host, j, k) \<Rightarrow>
               if CHR ''['' \<in> set (drop j h) then None
               else if CHR '']'' \<in> set (drop k h) then None
               else Some (host, drop (i + 1) h)))"

section \<open>Ports\<close>

definition PORT_MAX :: nat where "PORT_MAX = 2 ^ 32 - 1"
definition PORT_CUTOFF :: nat where "PORT_CUTOFF = 2 ^ 30"

fun port_loop :: "nat \<Rightarrow> string \<Rightarrow> nat option" where
  "port_loop n [] = Some n"
| "port_loop n (c # cs) =
     (case digit_val c of
        None \<Rightarrow> None
      | Some d \<Rightarrow>
          if n \<ge> PORT_CUTOFF then Some PORT_MAX
          else let nn = n * 10 + d
               in if nn < n * 10 \<or> nn > PORT_MAX then Some PORT_MAX else port_loop nn cs)"

definition parse_port :: "string \<Rightarrow> int option" where
  "parse_port service =
     (if service = [] then Some 0
      else
        let (neg, s) = (case strip_prefix ''+'' service of
                          Some rest \<Rightarrow> (False, rest)
                        | None \<Rightarrow> (case strip_prefix ''-'' service of
                                    Some rest \<Rightarrow> (True, rest) | None \<Rightarrow> (False, service)))
        in case port_loop 0 s of
             None \<Rightarrow> None
           | Some n \<Rightarrow>
               let v = (if \<not> neg \<and> n \<ge> PORT_CUTOFF then PORT_CUTOFF - 1
                        else if neg \<and> n > PORT_CUTOFF then PORT_CUTOFF else n)
               in Some (if neg then - int v else int v))"

text \<open>One line of the services file: the port when the line names the service for UDP.\<close>

definition services_line :: "string \<Rightarrow> string \<Rightarrow> u16 option" where
  "services_line service line =
     (let fields = split_whitespace (hd (split_on (CHR ''#'') line))
      in if length fields < 2 then None
         else case split_first (CHR ''/'') (fields ! 1) of
                None \<Rightarrow> None
              | Some (p, net) \<Rightarrow>
                  (case parse_port p of
                     None \<Rightarrow> None
                   | Some port \<Rightarrow>
                       if \<not> (0 \<le> port \<and> port \<le> 65535) then None
                       else if net \<noteq> ''udp'' then None
                       else if service \<in> set (hd fields # drop 2 fields) then Some (word_of_int port) else None))"

fun services_scan :: "string \<Rightarrow> string list \<Rightarrow> u16 option" where
  "services_scan service [] = None"
| "services_scan service (l # ls) =
     (case services_line service l of Some p \<Rightarrow> Some p | None \<Rightarrow> services_scan service ls)"

definition services_lookup :: "string option \<Rightarrow> string \<Rightarrow> u16 option" where
  "services_lookup content service =
     (case content of None \<Rightarrow> None | Some txt \<Rightarrow> services_scan service (split_lines [] txt))"

definition lookup_port :: "string option \<Rightarrow> string \<Rightarrow> string + u16" where
  "lookup_port content service =
     (case parse_port service of
        Some port \<Rightarrow>
          if 0 \<le> port \<and> port \<le> 65535 then Inr (word_of_int port)
          else Inl (''address '' @ service @ '': invalid port'')
      | None \<Rightarrow>
          (case services_lookup content service of
             Some port \<Rightarrow> Inr port
           | None \<Rightarrow> Inl (''lookup udp/'' @ service @ '': unknown port'')))"

section \<open>Hosts\<close>

definition dns_error :: "string \<Rightarrow> string \<Rightarrow> string" where
  "dns_error host msg =
     (let reason = (if contains_str ''Name or service not known'' msg then ''no such host''
                    else if contains_str ''Temporary failure in name resolution'' msg then ''server misbehaving''
                    else after_last '': '' msg)
      in ''lookup '' @ host @ '': '' @ reason)"

definition resolve_host :: "(string \<Rightarrow> string + socket_addr list) \<Rightarrow> string \<Rightarrow> string + ip_addr" where
  "resolve_host dns host =
     (case dns host of
        Inl e \<Rightarrow> Inl (dns_error host e)
      | Inr (a # _) \<Rightarrow> Inr (sock_ip a)
      | Inr [] \<Rightarrow> Inl (''lookup '' @ host @ '': no such host''))"

fun socket_addr_new :: "ip_addr \<Rightarrow> u16 \<Rightarrow> socket_addr" where
  "socket_addr_new (V4 ip) p = SockV4 ip p"
| "socket_addr_new (V6 ip) p = SockV6 ip p 0"

definition resolve_udp_addr ::
    "(string \<Rightarrow> string + socket_addr list) \<Rightarrow> string option \<Rightarrow> string \<Rightarrow> string + socket_addr" where
  "resolve_udp_addr dns services addr =
     (case split_host_port addr of
        Inl e \<Rightarrow> Inl e
      | Inr (host, port_str) \<Rightarrow>
          (case lookup_port services port_str of
             Inl e \<Rightarrow> Inl e
           | Inr port \<Rightarrow>
               (case (if host = [] then Inr (V4 0)
                      else case parse_ip_addr host of Some ip \<Rightarrow> Inr ip | None \<Rightarrow> resolve_host dns host) of
                  Inl e \<Rightarrow> Inl e
                | Inr ip \<Rightarrow> Inr (socket_addr_new ip port))))"

section \<open>Splitting, understood\<close>

lemma rposition_Some_append: "c \<notin> set b \<Longrightarrow> rposition (\<lambda>x. x = c) (a @ c # b) = Some (length a)"
proof -
  assume c: "c \<notin> set b"
  have "position (\<lambda>x. x = c) (rev b @ c # rev a) = Some (length b)"
    using c by (induction b rule: rev_induct) auto
  then show ?thesis by (simp add: rposition_def)
qed

lemma position_append: "c \<notin> set a \<Longrightarrow> position (\<lambda>x. x = c) (a @ c # b) = Some (length a)"
  by (induction a) auto

lemma split_agree:
  "allow_split_host_port h = (case split_host_port h of Inl _ \<Rightarrow> None | Inr r \<Rightarrow> Some r)"
  unfolding allow_split_host_port_def split_host_port_def
  by (auto split: option.splits)

text \<open>A host is bracketed where it contains a colon.\<close>

definition join_host_port :: "string \<Rightarrow> string \<Rightarrow> string" where
  "join_host_port host port =
     (if CHR '':'' \<in> set host then ''['' @ host @ '']:'' @ port else host @ '':'' @ port)"

definition host_text :: "string \<Rightarrow> bool" where
  "host_text h \<longleftrightarrow> CHR ''['' \<notin> set h \<and> CHR '']'' \<notin> set h"

lemma split_join:
  assumes "host_text host" "host_text port" "CHR '':'' \<notin> set port"
  shows "split_host_port (join_host_port host port) = Inr (host, port)"
proof (cases "CHR '':'' \<in> set host")
  case True
  let ?h = "''['' @ host @ '']:'' @ port"
  have r: "rposition (\<lambda>c. c = CHR '':'') ((''['' @ host @ '']'') @ CHR '':'' # port) = Some (length host + 2)"
    using rposition_Some_append [OF assms(3), of "''['' @ host @ '']''"] by simp
  have p: "position (\<lambda>c. c = CHR '']'') ((''['' @ host) @ CHR '']'' # CHR '':'' # port) = Some (length host + 1)"
    using position_append [of "CHR '']''" "''['' @ host"] assms(1) by (simp add: host_text_def)
  show ?thesis
    using r p assms True
    by (simp add: split_host_port_def join_host_port_def starts_with_def host_text_def)
next
  case False
  have "\<not> starts_with (host @ CHR '':'' # port) ''[''"
    using assms(1) by (cases host) (auto simp: starts_with_def host_text_def)
  with False assms rposition_Some_append [OF assms(3), of host] show ?thesis
    by (simp add: split_host_port_def join_host_port_def host_text_def)
qed

section \<open>Ports, understood\<close>

lemma port_loop_digits:
  assumes "digits_acc a s = Some n" "a \<le> PORT_MAX"
  shows "\<exists>r. port_loop a s = Some r \<and> (r = n \<or> r = PORT_MAX \<and> n \<ge> PORT_CUTOFF)"
  using assms
proof (induction s arbitrary: a)
  case Nil
  then show ?case by simp
next
  case (Cons c s)
  then obtain d where d: "digit_val c = Some d" "digits_acc (a * 10 + d) s = Some n" by (auto split: option.splits)
  have grow: "digits_acc x t = Some y \<Longrightarrow> x \<le> y" for x t y
    by (induction t arbitrary: x) (fastforce split: option.splits)+
  from grow [OF d(2)] have le: "a * 10 + d \<le> n" .
  show ?case
  proof (cases "a \<ge> PORT_CUTOFF \<or> a * 10 + d > PORT_MAX")
    case True
    have "PORT_CUTOFF \<le> PORT_MAX" by (simp add: PORT_CUTOFF_def PORT_MAX_def)
    with True le have "n \<ge> PORT_CUTOFF" by linarith
    with True d(1) show ?thesis by (auto simp: Let_def)
  next
    case False
    with Cons.IH [OF d(2)] d(1) show ?thesis by (simp add: Let_def not_le)
  qed
qed

lemma parse_port_dec:
  "\<exists>v. parse_port (dec_str n) = Some (int v) \<and> (v = n \<or> v \<ge> 65536 \<and> n \<ge> 65536)"
proof -
  obtain c cs where s: "dec_str n = c # cs" by (cases "dec_str n") auto
  have sign: "strip_prefix ''+'' (dec_str n) = None" "strip_prefix ''-'' (dec_str n) = None"
    using dec_str_hd [OF s] by (auto simp: s strip_prefix_def starts_with_def)
  obtain r where r: "port_loop 0 (dec_str n) = Some r" "r = n \<or> r = PORT_MAX \<and> n \<ge> PORT_CUTOFF"
    using port_loop_digits [OF digits_acc_dec_str [of n]] by auto
  then show ?thesis
    by (auto simp: parse_port_def sign Let_def PORT_CUTOFF_def PORT_MAX_def)
qed

section \<open>Properties\<close>

text \<open>
  C37. The two splitters of the workspace agree: the allowlist's accepts exactly the texts the
  resolver's accepts, with the same host and port.
\<close>

theorem split_host_port_agree:
  "allow_split_host_port h = (case split_host_port h of Inl _ \<Rightarrow> None | Inr r \<Rightarrow> Some r)"
  by (rule split_agree)

lemma v4_str_chars: "c \<in> set (v4_str ip) \<Longrightarrow> c = CHR ''.'' \<or> (\<exists>d < 10. c = digit_char d)"
  by (auto simp: v4_str_def v4_octets_def dest: dec_str_digits)

lemma digit_char_plain:
  "d < 10 \<Longrightarrow> digit_char d \<noteq> CHR '':'' \<and> digit_char d \<noteq> CHR ''['' \<and> digit_char d \<noteq> CHR '']'' \<and> digit_char d \<noteq> CHR ''.''"
proof -
  have "list_all (\<lambda>d. digit_char d \<noteq> CHR '':'' \<and> digit_char d \<noteq> CHR ''['' \<and> digit_char d \<noteq> CHR '']''
      \<and> digit_char d \<noteq> CHR ''.'') [0..<10]"
    by (simp add: upt_rec digit_char_def)
  then show "d < 10 \<Longrightarrow> ?thesis" by (simp add: list_all_iff)
qed

lemma dec_str_plain: "host_text (dec_str n)" "CHR '':'' \<notin> set (dec_str n)" "CHR ''.'' \<notin> set (dec_str n)"
  unfolding host_text_def using dec_str_digits [of _ n] digit_char_plain by metis+

lemma v4_str_plain: "host_text (v4_str ip)" "CHR '':'' \<notin> set (v4_str ip)"
proof -
  have "c \<notin> set (v4_str ip)" if "c \<in> {CHR ''['', CHR '']'', CHR '':''}" for c
  proof
    assume "c \<in> set (v4_str ip)"
    from v4_str_chars [OF this] that digit_char_plain show False by auto
  qed
  then show "host_text (v4_str ip)" "CHR '':'' \<notin> set (v4_str ip)" by (simp_all add: host_text_def)
qed

text \<open>
  A printed IPv4 socket address resolves to itself whatever the name service and the services
  file say, and a decimal port is taken exactly when it is below 65536.
\<close>

theorem resolve_literal:
  "resolve_udp_addr dns services (sock_str (SockV4 ip p)) = Inr (SockV4 ip p)
   \<and> (case lookup_port services (dec_str n) of
        Inr q \<Rightarrow> n < 65536 \<and> unat q = n
      | Inl e \<Rightarrow> n \<ge> 65536 \<and> e = ''address '' @ dec_str n @ '': invalid port'')"
proof
  show port: "case lookup_port services (dec_str n) of
        Inr q \<Rightarrow> n < 65536 \<and> unat q = n
      | Inl e \<Rightarrow> n \<ge> 65536 \<and> e = ''address '' @ dec_str n @ '': invalid port''" for n
    using parse_port_dec [of n] by (auto simp: lookup_port_def unsigned_of_nat take_bit_nat_eq_self)
  have v4: "v4_str ip \<noteq> []" by (simp add: v4_str_def v4_octets_def)
  have "unat p < 65536" using unsigned_less [of p, where 'a = nat] by simp
  with port [of "unat p"] have lp: "lookup_port services (dec_str (unat p)) = Inr p"
    by (auto split: sum.splits dest!: unsigned_word_eqI)
  have "split_host_port (sock_str (SockV4 ip p)) = Inr (v4_str ip, dec_str (unat p))"
    using split_join [OF v4_str_plain(1) dec_str_plain(1,2), of ip "unat p"] v4_str_plain(2)
    by (simp add: join_host_port_def)
  moreover have "parse_ip_addr (v4_str ip) = Some (V4 ip)"
    using read_ipv4_str [of "[]" ip] by (simp add: parse_ip_addr_def read_all_def)
  ultimately show "resolve_udp_addr dns services (sock_str (SockV4 ip p)) = Inr (SockV4 ip p)"
    using lp v4 by (simp add: resolve_udp_addr_def)
qed

text \<open>The comment on \<^verbatim>\<open>parse_port\<close> says that an empty service gives \<^verbatim>\<open>None\<close>; the code gives port 0.\<close>

lemma empty_port_is_zero: "lookup_port services [] = Inr 0"
  by (simp add: lookup_port_def parse_port_def)

end
