(* ===== verification/Tunnel_Request.thy ===== *)
theory Tunnel_Request
  imports Resolver
begin

text \<open>
  \<^verbatim>\<open>crates/qvole-app/src/tunnel_request.rs\<close>: tunnel specifications and the reader of the peer's
  request list, with the writer of the list and the accept line from \<^verbatim>\<open>tunnel.rs\<close>.

  A stream is the list of the results of its reads: an error or the bytes one read returns, where
  no bytes mean the end; after the list every read is at the end. The reader keeps the bytes left
  of the last chunk, as the code does with \<^verbatim>\<open>chunk\<close> and \<^verbatim>\<open>pos\<close>.
\<close>

section \<open>Specifications\<close>

definition DIAL_TIMEOUT :: duration where "DIAL_TIMEOUT = from_secs 10"
definition SCANNER_MAX_TOKEN_SIZE :: nat where "SCANNER_MAX_TOKEN_SIZE = 4096"
definition MAX_TUNNEL_REQUESTS :: nat where "MAX_TUNNEL_REQUESTS = 100"
definition STREAM_HEADER_TIMEOUT :: duration where "STREAM_HEADER_TIMEOUT = from_secs 15"
definition STREAM_CONFIG_TIMEOUT :: duration where "STREAM_CONFIG_TIMEOUT = from_secs 30"

record tunnel_request =
  tr_type :: string
  listen_addr :: string
  target_addr :: string

text \<open>The scan by position, with the start of the current part; the depth is an \<^verbatim>\<open>i32\<close>.\<close>

fun split_spec_loop :: "string \<Rightarrow> int \<Rightarrow> string \<Rightarrow> string list \<Rightarrow> (int \<times> string \<times> string list) option" where
  "split_spec_loop [] depth cur parts = Some (depth, cur, parts)"
| "split_spec_loop (c # cs) depth cur parts =
     (if c = CHR ''['' then split_spec_loop cs (depth + 1) (cur @ [c]) parts
      else if c = CHR '']'' then
        (if depth - 1 < 0 then None else split_spec_loop cs (depth - 1) (cur @ [c]) parts)
      else if c = CHR '':'' \<and> depth = 0 then split_spec_loop cs depth [] (parts @ [cur])
      else split_spec_loop cs depth (cur @ [c]) parts)"

definition split_tunnel_request :: "string \<Rightarrow> string list option" where
  "split_tunnel_request spec =
     (case split_spec_loop spec 0 [] [] of
        None \<Rightarrow> None
      | Some (depth, cur, parts) \<Rightarrow> if depth \<noteq> 0 then None else Some (parts @ [cur]))"

definition strip_brackets :: "string \<Rightarrow> string" where
  "strip_brackets s =
     (if length s \<ge> 2 \<and> hd s = CHR ''['' \<and> last s = CHR '']'' then take (length s - 2) (drop 1 s) else s)"

definition parse_addr :: "string \<Rightarrow> string" where
  "parse_addr s = filter (\<lambda>c. 32 \<le> (of_char c :: nat) \<and> (of_char c :: nat) < 127) s"

definition spec_format_error :: string where
  "spec_format_error = ''expected [laddr:]lport:raddr:rport or [raddr:]rport:laddr:lport format''"

definition LOCALHOST :: string where "LOCALHOST = ''127.0.0.1''"

definition parse_tunnel_request :: "string \<Rightarrow> string \<Rightarrow> string + tunnel_request" where
  "parse_tunnel_request spec ty =
     (let parts = (case split_tunnel_request spec of Some ps \<Rightarrow> ps | None \<Rightarrow> [])
      in if length parts = 3
         then Inr \<lparr>tr_type = ty, listen_addr = join_host_port LOCALHOST (parts ! 0),
                   target_addr = join_host_port (strip_brackets (parts ! 1)) (parts ! 2)\<rparr>
         else if length parts = 4
         then let h = strip_brackets (parts ! 0); h = (if h = [] then LOCALHOST else h)
              in Inr \<lparr>tr_type = ty, listen_addr = join_host_port h (parts ! 1),
                      target_addr = join_host_port (strip_brackets (parts ! 2)) (parts ! 3)\<rparr>
         else Inl spec_format_error)"

section \<open>The request list\<close>

datatype request_error =
    TooMany | InvalidLine string | InvalidType string string | ReadError string

type_synonym stream = "(string + string) list"

definition strip_eol :: "string \<Rightarrow> string" where
  "strip_eol line =
     (let line = (if line \<noteq> [] \<and> last line = NLc then butlast line else line);
          line = (if line \<noteq> [] \<and> last line = CHR 13 then butlast line else line)
      in from_utf8_lossy line)"

definition TOKEN_TOO_LONG :: string where "TOKEN_TOO_LONG = ''bufio.Scanner: token too long''"

text \<open>
  One pass of the inner loop: the bytes left of the chunk are scanned, then the next read is taken.
  The result is the line, the bytes left of the chunk and the rest of the stream.
\<close>

fun scan_chunk :: "string \<Rightarrow> string \<Rightarrow> request_error + bool \<times> string \<times> string" where
  "scan_chunk line [] = Inr (False, line, [])"
| "scan_chunk line (b # bs) =
     (if b = NLc then Inr (True, line @ [b], bs)
      else if length line \<ge> SCANNER_MAX_TOKEN_SIZE then Inl (ReadError TOKEN_TOO_LONG)
      else scan_chunk (line @ [b]) bs)"

fun read_token :: "string \<Rightarrow> string \<Rightarrow> stream \<Rightarrow> request_error + string \<times> string \<times> stream" where
  "read_token line chunk s =
     (case scan_chunk line chunk of
        Inl e \<Rightarrow> Inl e
      | Inr (True, line, rest) \<Rightarrow> Inr (line, rest, s)
      | Inr (False, line, _) \<Rightarrow>
          (case s of
             [] \<Rightarrow> Inr (line, [], [])
           | Inl e # s' \<Rightarrow> Inl (ReadError e)
           | Inr bs # s' \<Rightarrow> if bs = [] then Inr (line, [], s') else read_token line bs s'))"

declare read_token.simps [simp del]

definition parse_line :: "string \<Rightarrow> request_error + tunnel_request" where
  "parse_line txt =
     (case splitn 3 (CHR '' '') txt of
        [ty, listen, target] \<Rightarrow>
          if ty \<noteq> ''L'' \<and> ty \<noteq> ''R'' then Inl (InvalidType ty txt)
          else Inr \<lparr>tr_type = ty, listen_addr = parse_addr listen, target_addr = parse_addr target\<rparr>
      | _ \<Rightarrow> Inl (InvalidLine txt))"

text \<open>
  The outer loop: it ends at an empty line without its newline (the end of the stream), at
  \<^verbatim>\<open>END\<close>, or with an error; each turn adds a request, of which there are at most 100, so \<open>fuel\<close>
  above 100 is enough. \<open>None\<close> would be a run out of fuel.
\<close>

fun read_requests_loop :: "nat \<Rightarrow> tunnel_request list \<Rightarrow> string \<Rightarrow> stream \<Rightarrow> (request_error + tunnel_request list) option" where
  "read_requests_loop 0 reqs chunk s = None"
| "read_requests_loop (Suc fuel) reqs chunk s =
     (case read_token [] chunk s of
        Inl e \<Rightarrow> Some (Inl e)
      | Inr (line, chunk, s) \<Rightarrow>
          if line = [] then Some (Inr reqs)
          else let txt = strip_eol line
               in if txt = ''END'' then Some (Inr reqs)
                  else if length reqs \<ge> MAX_TUNNEL_REQUESTS then Some (Inl TooMany)
                  else case parse_line txt of
                         Inl e \<Rightarrow> Some (Inl e)
                       | Inr r \<Rightarrow> read_requests_loop fuel (reqs @ [r]) chunk s)"

definition read_requests_from_stream :: "string \<Rightarrow> stream \<Rightarrow> (request_error + tunnel_request list) option" where
  "read_requests_from_stream chunk s = read_requests_loop (MAX_TUNNEL_REQUESTS + 2) [] chunk s"

section \<open>The accept line and the writer\<close>

definition bool_str :: "bool \<Rightarrow> string" where
  "bool_str b = (if b then ''true'' else ''false'')"

text \<open>
  The accept line is read a byte at a time; the bytes of a chunk that are left when it is complete
  are what the request reader gets first.
\<close>

datatype accept_error = AcceptEof | AcceptRead string | AcceptTooLong | UnexpectedLine string

fun accept_bytes :: "string \<Rightarrow> string \<Rightarrow> accept_error + bool \<times> string \<times> string" where
  "accept_bytes line [] = Inr (False, line, [])"
| "accept_bytes line (b # bs) =
     (if b = NLc then Inr (True, line, bs)
      else if length line \<ge> SCANNER_MAX_TOKEN_SIZE then Inl AcceptTooLong
      else accept_bytes (line @ [b]) bs)"

fun accept_loop :: "string \<Rightarrow> stream \<Rightarrow> accept_error + string \<times> string \<times> stream" where
  "accept_loop line [] = Inl AcceptEof"
| "accept_loop line (Inl e # s) = Inl (AcceptRead e)"
| "accept_loop line (Inr bs # s) =
     (if bs = [] then Inl AcceptEof
      else case accept_bytes line bs of
             Inl e \<Rightarrow> Inl e
           | Inr (True, line, rest) \<Rightarrow> Inr (line, rest, s)
           | Inr (False, line, _) \<Rightarrow> accept_loop line s)"

definition read_accept_line :: "stream \<Rightarrow> accept_error + bool \<times> string \<times> stream" where
  "read_accept_line s =
     (case accept_loop [] s of
        Inl e \<Rightarrow> Inl e
      | Inr (line, rest, s') \<Rightarrow>
          (let txt = strip_eol line
           in if txt = ''ACCEPT true'' then Inr (True, rest, s')
              else if txt = ''ACCEPT false'' then Inr (False, rest, s')
              else Inl (UnexpectedLine txt)))"

definition request_line :: "tunnel_request \<Rightarrow> string" where
  "request_line r = tr_type r @ '' '' @ listen_addr r @ '' '' @ target_addr r @ NL"

definition config_text :: "bool \<Rightarrow> tunnel_request list \<Rightarrow> string" where
  "config_text accepts reqs = ''ACCEPT '' @ bool_str accepts @ NL @ concat (map request_line reqs) @ ''END'' @ NL"

section \<open>Chunks do not matter\<close>

lemma scan_chunk_append:
  "scan_chunk line (a @ b) =
     (case scan_chunk line a of
        Inl e \<Rightarrow> Inl e | Inr (True, l, r) \<Rightarrow> Inr (True, l, r @ b) | Inr (False, l, _) \<Rightarrow> scan_chunk l b)"
  by (induction a arbitrary: line) auto

lemma read_token_end: "read_token line chunk [] =
    (case scan_chunk line chunk of Inl e \<Rightarrow> Inl e | Inr (True, l, r) \<Rightarrow> Inr (l, r, []) | Inr (False, l, _) \<Rightarrow> Inr (l, [], []))"
  by (subst read_token.simps) (auto split: sum.splits bool.splits)

text \<open>Reading from a stream whose reads succeed is reading from its whole text.\<close>

lemma read_token_flat:
  assumes "[] \<notin> set cs"
  shows "case read_token line (chunk @ concat cs) [] of
      Inl e \<Rightarrow> read_token line chunk (map Inr cs) = Inl e
    | Inr (l, r, _) \<Rightarrow> \<exists>r' cs'. read_token line chunk (map Inr cs) = Inr (l, r', map Inr cs')
        \<and> r' @ concat cs' = r \<and> [] \<notin> set cs'"
  using assms
proof (induction cs arbitrary: line chunk)
  case Nil
  then show ?case
    by (auto simp: read_token_end split: sum.splits bool.splits intro!: exI [of _ "[]"])
next
  case (Cons c cs)
  show ?case
  proof (cases "scan_chunk line chunk")
    case (Inl e)
    then show ?thesis
      by (simp add: read_token_end scan_chunk_append read_token.simps [of line chunk])
  next
    case (Inr res)
    obtain d l r where res: "res = (d, l, r)" by (cases res)
    show ?thesis
    proof (cases d)
      case True
      with Inr res Cons.prems show ?thesis
        by (auto simp: read_token_end scan_chunk_append read_token.simps [of line chunk]
            intro!: exI [of _ r] exI [of _ "c # cs"])
    next
      case False
      with Inr res have sc: "scan_chunk line chunk = Inr (False, l, r)" by simp
      have e1: "read_token line (chunk @ concat (c # cs)) [] = read_token l (c @ concat cs) []"
        by (simp add: read_token_end scan_chunk_append sc)
      have e2: "read_token line chunk (map Inr (c # cs)) = read_token l c (map Inr cs)"
        using Cons.prems by (auto simp: read_token.simps [of line chunk] sc)
      show ?thesis unfolding e1 e2 using Cons.IH [of l c] Cons.prems by simp
    qed
  qed
qed

lemma read_token_end_rest: "read_token line chunk [] = Inr (l, r, s) \<Longrightarrow> s = []"
  by (auto simp: read_token_end split: sum.splits bool.splits)

lemma read_requests_flat:
  "[] \<notin> set cs \<Longrightarrow>
   read_requests_loop fuel reqs chunk (map Inr cs) = read_requests_loop fuel reqs (chunk @ concat cs) []"
proof (induction fuel arbitrary: reqs chunk cs)
  case (Suc fuel)
  show ?case
  proof (cases "read_token [] (chunk @ concat cs) []")
    case (Inl e)
    with read_token_flat [OF Suc.prems, of "[]" chunk] show ?thesis by simp
  next
    case (Inr res)
    obtain l r s where res: "res = (l, r, s)" by (cases res)
    with Inr read_token_end_rest have flat: "read_token [] (chunk @ concat cs) [] = Inr (l, r, [])" by blast
    with read_token_flat [OF Suc.prems, of "[]" chunk] obtain r' cs' where
      "read_token [] chunk (map Inr cs) = Inr (l, r', map Inr cs')" "r' @ concat cs' = r" "[] \<notin> set cs'"
      by auto
    with flat Suc.IH [of cs' _ r'] show ?thesis by (auto simp: Let_def split: sum.splits)
  qed
qed simp

text \<open>The number of turns is bounded by the number of requests that are accepted.\<close>

lemma read_requests_total:
  "length reqs \<le> MAX_TUNNEL_REQUESTS \<Longrightarrow> fuel + length reqs > MAX_TUNNEL_REQUESTS \<Longrightarrow>
   read_requests_loop fuel reqs chunk s \<noteq> None"
  by (induction fuel arbitrary: reqs chunk s) (auto simp: Let_def split: sum.splits)

definition request_clean :: "tunnel_request \<Rightarrow> bool" where
  "request_clean r \<longleftrightarrow> tr_type r \<in> {''L'', ''R''} \<and> parse_addr (listen_addr r) = listen_addr r
     \<and> parse_addr (target_addr r) = target_addr r"

lemma parse_line_clean: "parse_line t = Inr r \<Longrightarrow> request_clean r"
proof -
  have idem: "parse_addr (parse_addr a) = parse_addr a" for a by (simp add: parse_addr_def)
  show "parse_line t = Inr r \<Longrightarrow> request_clean r"
    by (auto simp: parse_line_def request_clean_def idem split: list.splits if_splits)
qed

lemma read_requests_bounded:
  "read_requests_loop fuel reqs chunk s = Some (Inr rs) \<Longrightarrow> length reqs \<le> MAX_TUNNEL_REQUESTS \<Longrightarrow>
   list_all request_clean reqs \<Longrightarrow> length rs \<le> MAX_TUNNEL_REQUESTS \<and> list_all request_clean rs"
proof (induction fuel arbitrary: reqs chunk s)
  case (Suc fuel)
  then obtain line chunk' s' where tok: "read_token [] chunk s = Inr (line, chunk', s')"
    by (cases "read_token [] chunk s") auto
  show ?case
  proof (cases "rs = reqs")
    case True
    with Suc.prems show ?thesis by simp
  next
    case False
    with Suc.prems(1) tok obtain r where r: "parse_line (strip_eol line) = Inr r"
      "read_requests_loop fuel (reqs @ [r]) chunk' s' = Some (Inr rs)" "length reqs < MAX_TUNNEL_REQUESTS"
      by (cases "parse_line (strip_eol line)") (simp_all add: Let_def not_le split: if_splits)
    from Suc.IH [OF r(2)] r(3) Suc.prems(3) parse_line_clean [OF r(1)] show ?thesis by simp
  qed
qed simp

section \<open>The list is read back\<close>

definition addr_text :: "string \<Rightarrow> bool" where
  "addr_text a \<longleftrightarrow> (\<forall>c \<in> set a. 33 \<le> (of_char c :: nat) \<and> (of_char c :: nat) \<le> 126)"

definition request_ok :: "tunnel_request \<Rightarrow> bool" where
  "request_ok r \<longleftrightarrow> tr_type r \<in> {''L'', ''R''} \<and> addr_text (listen_addr r) \<and> addr_text (target_addr r)
     \<and> length (listen_addr r) + length (target_addr r) \<le> 4000"

lemma addr_text_parse: "addr_text a \<Longrightarrow> parse_addr a = a"
  by (auto simp: addr_text_def parse_addr_def filter_id_conv)

lemma scan_line:
  "NLc \<notin> set l \<Longrightarrow> length line + length l \<le> SCANNER_MAX_TOKEN_SIZE \<Longrightarrow>
   scan_chunk line (l @ NL @ rest) = Inr (True, line @ l @ NL, rest)"
  by (induction l arbitrary: line) (auto simp: NL_def NLc_def)

lemma strip_eol_line:
  assumes "\<forall>c \<in> set l. (of_char c :: nat) < 128" "l = [] \<or> last l \<noteq> CHR 13"
  shows "strip_eol (l @ NL) = l"
  using assms lossy_ascii [OF assms(1)] by (auto simp: strip_eol_def NL_def NLc_def Let_def)

lemma addr_text_plain:
  assumes "addr_text a"
  shows "CHR '' '' \<notin> set a" "NLc \<notin> set a" "\<forall>c \<in> set a. (of_char c :: nat) < 128" "CHR 13 \<notin> set a"
  using assms by (auto simp: addr_text_def NLc_def)

lemma request_line_read:
  assumes "request_ok r"
  shows "read_token [] (request_line r @ rest) [] = Inr (request_line r, rest, [])"
    and "parse_line (strip_eol (request_line r)) = Inr r" and "request_line r \<noteq> []"
    and "strip_eol (request_line r) \<noteq> ''END''"
proof -
  let ?l = "tr_type r @ '' '' @ listen_addr r @ '' '' @ target_addr r"
  have ty: "tr_type r = ''L'' \<or> tr_type r = ''R''" and a: "addr_text (listen_addr r)" and b: "addr_text (target_addr r)"
    using assms by (auto simp: request_ok_def)
  note pa = addr_text_plain [OF a] and pb = addr_text_plain [OF b]
  have eq: "request_line r = ?l @ NL" by (simp add: request_line_def)
  have "NLc \<notin> set ?l" "length ?l \<le> SCANNER_MAX_TOKEN_SIZE"
    using ty pa pb assms by (auto simp: NLc_def request_ok_def SCANNER_MAX_TOKEN_SIZE_def)
  with scan_line [of ?l "[]" rest] show "read_token [] (request_line r @ rest) [] = Inr (request_line r, rest, [])"
    by (simp add: eq read_token_end)
  show "request_line r \<noteq> []" by (simp add: eq NL_def)
  have "target_addr r \<noteq> [] \<Longrightarrow> last (target_addr r) \<noteq> CHR 13" using pb(4) last_in_set by metis
  then have "\<forall>c \<in> set ?l. (of_char c :: nat) < 128" "last ?l \<noteq> CHR 13"
    using ty pa pb by (auto simp: last_append)
  then have tx: "strip_eol (request_line r) = ?l" unfolding eq by (intro strip_eol_line) auto
  have "splitn 3 (CHR '' '') ?l = [tr_type r, listen_addr r, target_addr r]"
    using ty pa by (auto simp: eval_nat_numeral)
  then show "parse_line (strip_eol (request_line r)) = Inr r"
    using ty a b by (auto simp: tx parse_line_def addr_text_parse)
  show "strip_eol (request_line r) \<noteq> ''END''" unfolding tx using ty by auto
qed

lemma requests_read:
  assumes "list_all request_ok rs" "length reqs + length rs \<le> MAX_TUNNEL_REQUESTS" "length rs < fuel"
  shows "read_requests_loop fuel reqs (concat (map request_line rs) @ ''END'' @ NL) [] = Some (Inr (reqs @ rs))"
  using assms
proof (induction rs arbitrary: fuel reqs)
  case Nil
  then obtain k where k: "fuel = Suc k" by (cases fuel) auto
  have "read_token [] (''END'' @ NL) [] = Inr (''END'' @ NL, [], [])"
    using scan_line [of "''END''" "[]" "[]"] by (simp add: read_token_end NLc_def SCANNER_MAX_TOKEN_SIZE_def)
  moreover have "strip_eol (''END'' @ NL) = ''END''" by (rule strip_eol_line) simp_all
  ultimately show ?case by (simp add: k)
next
  case (Cons r rs)
  then obtain k where k: "fuel = Suc k" by (cases fuel) auto
  from Cons.prems have r: "request_ok r" by simp
  note rl = request_line_read(1) [OF r, of "concat (map request_line rs) @ ''END'' @ NL"] request_line_read(2-4) [OF r]
  from Cons.IH [of "reqs @ [r]" k] Cons.prems k
  have "read_requests_loop k (reqs @ [r]) (concat (map request_line rs) @ ''END'' @ NL) [] = Some (Inr (reqs @ r # rs))"
    by simp
  with rl Cons.prems show ?case by (simp add: k Let_def)
qed

lemma accept_bytes_append:
  "accept_bytes line (a @ b) =
     (case accept_bytes line a of
        Inl e \<Rightarrow> Inl e | Inr (True, l, r) \<Rightarrow> Inr (True, l, r @ b) | Inr (False, l, _) \<Rightarrow> accept_bytes l b)"
  by (induction a arbitrary: line) auto

lemma accept_flat:
  "[] \<notin> set cs \<Longrightarrow> accept_bytes line (concat cs) = Inr (True, l, r) \<Longrightarrow>
   \<exists>rest cs'. accept_loop line (map Inr cs) = Inr (l, rest, map Inr cs') \<and> rest @ concat cs' = r \<and> [] \<notin> set cs'"
proof (induction cs arbitrary: line)
  case (Cons c cs)
  show ?case
  proof (cases "accept_bytes line c")
    case (Inl e)
    with Cons.prems show ?thesis by (simp add: accept_bytes_append)
  next
    case (Inr res)
    obtain d l' r' where res: "res = (d, l', r')" by (cases res)
    show ?thesis
    proof (cases d)
      case True
      with Inr res Cons.prems show ?thesis by (auto simp: accept_bytes_append)
    next
      case False
      with Inr res Cons.prems Cons.IH [of l'] show ?thesis by (auto simp: accept_bytes_append)
    qed
  qed
qed simp

lemma accept_line_read:
  assumes "[] \<notin> set cs" "concat cs = ''ACCEPT '' @ bool_str a @ NL @ rest"
  shows "\<exists>r cs'. read_accept_line (map Inr cs) = Inr (a, r, map Inr cs') \<and> r @ concat cs' = rest \<and> [] \<notin> set cs'"
proof -
  have "accept_bytes [] (''ACCEPT '' @ bool_str a @ NL @ rest) = Inr (True, ''ACCEPT '' @ bool_str a, rest)"
    by (simp add: bool_str_def NL_def NLc_def SCANNER_MAX_TOKEN_SIZE_def)
  with accept_flat [OF assms(1), of "[]"] assms(2) obtain r cs' where
    l: "accept_loop [] (map Inr cs) = Inr (''ACCEPT '' @ bool_str a, r, map Inr cs')" "r @ concat cs' = rest" "[] \<notin> set cs'"
    by auto
  have "strip_eol (''ACCEPT '' @ bool_str a) = ''ACCEPT '' @ bool_str a"
    using lossy_ascii [of "''ACCEPT '' @ bool_str a"] by (cases a) (simp_all add: strip_eol_def bool_str_def NLc_def)
  with l show ?thesis by (cases a) (auto simp: read_accept_line_def bool_str_def)
qed

lemma config_read_back:
  assumes "list_all request_ok reqs" "length reqs \<le> MAX_TUNNEL_REQUESTS"
    and "[] \<notin> set cs" "concat cs = config_text a reqs"
  shows "\<exists>rest s. read_accept_line (map Inr cs) = Inr (a, rest, s)
    \<and> read_requests_from_stream rest s = Some (Inr reqs)"
proof -
  obtain r cs' where r: "read_accept_line (map Inr cs) = Inr (a, r, map Inr cs')"
    "r @ concat cs' = concat (map request_line reqs) @ ''END'' @ NL" "[] \<notin> set cs'"
    using accept_line_read [OF assms(3), of a] assms(4) by (auto simp: config_text_def)
  have "read_requests_from_stream r (map Inr cs') = Some (Inr reqs)"
    unfolding read_requests_from_stream_def read_requests_flat [OF r(3)] r(2)
    using requests_read [OF assms(1), of "[]" "MAX_TUNNEL_REQUESTS + 2"] assms(2)
    by (simp del: read_requests_loop.simps)
  with r(1) show ?thesis by blast
qed

section \<open>Properties\<close>

text \<open>
  The configuration one side writes is what the other side reads, however the transport cuts it
  into chunks: the accept flag and the list of requests come back unchanged, for at most 100
  requests with addresses of printable characters.
\<close>

theorem config_roundtrip:
  assumes "list_all request_ok reqs" "length reqs \<le> MAX_TUNNEL_REQUESTS"
    and "[] \<notin> set cs" "concat cs = config_text a reqs"
  shows "\<exists>rest s. read_accept_line (map Inr cs) = Inr (a, rest, s)
    \<and> read_requests_from_stream rest s = Some (Inr reqs)"
  by (rule config_read_back [OF assms])

definition web_request :: tunnel_request where
  "web_request = \<lparr>tr_type = ''L'', listen_addr = ''127.0.0.1:8080'', target_addr = ''[::1]:80''\<rparr>"

theorem config_roundtrip_witness:
  "\<exists>rest s. read_accept_line (map Inr [''ACC'', drop 3 (config_text True [web_request])]) = Inr (True, rest, s)
    \<and> read_requests_from_stream rest s = Some (Inr [web_request])"
  by (rule config_roundtrip)
    (simp_all add: request_ok_def web_request_def addr_text_def MAX_TUNNEL_REQUESTS_def config_text_def request_line_def)

text \<open>
  C28. Reading a request list always returns: the fuel of the model is enough for every stream,
  including one that fails or never sends \<^verbatim>\<open>END\<close>. What it accepts is at most 100 requests of type L
  or R whose addresses hold only printable characters, and on a stream whose reads succeed the
  result does not depend on how the bytes are cut.
\<close>

theorem request_reader_total:
  "(\<exists>r. read_requests_from_stream chunk s = Some r
      \<and> (case r of Inl _ \<Rightarrow> True
         | Inr rs \<Rightarrow> length rs \<le> MAX_TUNNEL_REQUESTS \<and> list_all request_clean rs))
   \<and> ([] \<notin> set cs \<longrightarrow>
        read_requests_from_stream chunk (map Inr cs) = read_requests_from_stream (chunk @ concat cs) [])"
proof
  obtain r where r: "read_requests_from_stream chunk s = Some r"
    using read_requests_total [of "[]" "MAX_TUNNEL_REQUESTS + 2" chunk s]
    by (auto simp: read_requests_from_stream_def)
  then show "\<exists>r. read_requests_from_stream chunk s = Some r
      \<and> (case r of Inl _ \<Rightarrow> True | Inr rs \<Rightarrow> length rs \<le> MAX_TUNNEL_REQUESTS \<and> list_all request_clean rs)"
    using read_requests_bounded [of "MAX_TUNNEL_REQUESTS + 2" "[]" chunk s]
    by (cases r) (simp_all add: read_requests_from_stream_def del: read_requests_loop.simps)
  show "[] \<notin> set cs \<longrightarrow>
      read_requests_from_stream chunk (map Inr cs) = read_requests_from_stream (chunk @ concat cs) []"
    by (simp add: read_requests_from_stream_def read_requests_flat del: read_requests_loop.simps)
qed

theorem request_reader_total_witness:
  "read_requests_from_stream [] (map Inr [''L a '', ''b'', ''bogus'']) = read_requests_from_stream (concat [''L a '', ''b'', ''bogus'']) []"
  using request_reader_total [of "[]" "[]" "[''L a '', ''b'', ''bogus'']"] by simp

end
