(* ===== verification/Tunnel_Allow.thy ===== *)
theory Tunnel_Allow
  imports Tunnel_Request
begin

text \<open>
  \<^verbatim>\<open>crates/qvole-app/src/tunnel_allow.rs\<close>: the allowlist for the peer's tunnel requests. Name lookup
  is an argument, as a function from a host name to the addresses of one lookup (none on failure
  or timeout), and so is \<^verbatim>\<open>str::to_lowercase\<close>, whose table for characters outside ASCII is not
  reproduced.
\<close>

section \<open>The operations\<close>

definition RESOLVE_TIMEOUT :: duration where "RESOLVE_TIMEOUT = from_secs 3"

record ip_rule =
  rule_port :: string
  rule_ip :: "ip_addr option"

record tunnel_allow =
  allow_all :: bool
  allow_listen :: "string list"
  allow_forward :: "string list"
  forward_rules :: "ip_rule list"

type_synonym lookup = "string \<Rightarrow> ip_addr list"

definition accepts :: "tunnel_allow \<Rightarrow> bool" where
  "accepts a \<longleftrightarrow> allow_all a \<or> allow_listen a \<noteq> [] \<or> allow_forward a \<noteq> []"

definition bad_entry :: "string \<Rightarrow> bool" where
  "bad_entry e = (case allow_split_host_port e of Some (_, port) \<Rightarrow> port = [] | None \<Rightarrow> True)"

text \<open>The malformed entries, each with its flag, when there are any.\<close>

definition validate :: "tunnel_allow \<Rightarrow> (string \<times> string) list + unit" where
  "validate a =
     (let bad = map (\<lambda>e. (''-aL'', e)) (filter bad_entry (allow_listen a))
              @ map (\<lambda>e. (''-aF'', e)) (filter bad_entry (allow_forward a))
      in if bad = [] then Inr () else Inl bad)"

definition parse_ip_go :: "string \<Rightarrow> ip_addr option" where
  "parse_ip_go s =
     (case parse_ip_addr s of
        None \<Rightarrow> None
      | Some (V4 ip) \<Rightarrow>
          (let groups = split_on (CHR ''.'') s
           in if length groups \<noteq> 4 then None
              else if list_ex (\<lambda>g. g = [] \<or> length g > 3 \<or> (length g > 1 \<and> hd g = CHR ''0'')) groups then None
              else Some (V4 ip))
      | Some (V6 ip) \<Rightarrow> Some (V6 ip))"

definition resolve_all_ips :: "lookup \<Rightarrow> string \<Rightarrow> ip_addr list" where
  "resolve_all_ips dns host =
     (case parse_ip_go host of
        Some ip \<Rightarrow> [ip]
      | None \<Rightarrow> if host = [] then [] else dns host)"

fun build_forward_rules :: "lookup \<Rightarrow> string list \<Rightarrow> ip_rule list" where
  "build_forward_rules dns [] = []"
| "build_forward_rules dns (e # es) =
     (case allow_split_host_port e of
        None \<Rightarrow> []
      | Some (host, port) \<Rightarrow>
          if host = [] then [\<lparr>rule_port = port, rule_ip = None\<rparr>]
          else map (\<lambda>ip. \<lparr>rule_port = port, rule_ip = Some ip\<rparr>) (resolve_all_ips dns host))
     @ build_forward_rules dns es"

definition allow_resolve :: "lookup \<Rightarrow> tunnel_allow \<Rightarrow> tunnel_allow" where
  "allow_resolve dns a = a\<lparr>forward_rules := build_forward_rules dns (allow_forward a)\<rparr>"

fun match_forward_ips :: "ip_rule list \<Rightarrow> ip_addr \<Rightarrow> string \<Rightarrow> bool" where
  "match_forward_ips [] ip port = False"
| "match_forward_ips (r # rs) ip port =
     (if rule_port r \<noteq> port then match_forward_ips rs ip port
      else if rule_ip r = None \<or> rule_ip r = Some ip then True
      else match_forward_ips rs ip port)"

fun allow_match :: "(string \<Rightarrow> string) \<Rightarrow> string list \<Rightarrow> string \<times> string \<Rightarrow> bool" where
  "allow_match lower [] (host, port) = False"
| "allow_match lower (e # es) (host, port) =
     (case allow_split_host_port e of
        None \<Rightarrow> allow_match lower es (host, port)
      | Some (e_host, e_port) \<Rightarrow>
          if e_port \<noteq> port then allow_match lower es (host, port)
          else if e_host = [] \<or> lower e_host = lower host then True
          else allow_match lower es (host, port))"

definition match_addr :: "(string \<Rightarrow> string) \<Rightarrow> string list \<Rightarrow> string \<Rightarrow> bool" where
  "match_addr lower entries addr =
     (case allow_split_host_port addr of None \<Rightarrow> False | Some hp \<Rightarrow> allow_match lower entries hp)"

definition allows_listen :: "(string \<Rightarrow> string) \<Rightarrow> tunnel_allow \<Rightarrow> string \<Rightarrow> bool" where
  "allows_listen lower a addr \<longleftrightarrow> allow_all a \<or> match_addr lower (allow_listen a) addr"

definition allows_forward :: "(string \<Rightarrow> string) \<Rightarrow> tunnel_allow \<Rightarrow> string \<Rightarrow> bool" where
  "allows_forward lower a addr \<longleftrightarrow> allow_all a \<or> match_addr lower (allow_forward a) addr"

definition forward_ips :: "lookup \<Rightarrow> tunnel_allow \<Rightarrow> string \<Rightarrow> ip_addr list \<times> string \<times> bool" where
  "forward_ips dns a addr =
     (case allow_split_host_port addr of
        None \<Rightarrow> ([], [], False)
      | Some (host, port) \<Rightarrow>
          let all = resolve_all_ips dns host
          in if all = [] then ([], [], False)
             else if allow_all a then (all, port, True)
             else let rules = (if forward_rules a = [] \<and> allow_forward a \<noteq> []
                               then build_forward_rules dns (allow_forward a) else forward_rules a);
                      allowed = filter (\<lambda>ip. match_forward_ips rules ip port) all
                  in if allowed = [] then ([], [], False) else (allowed, port, True))"

section \<open>What matching means\<close>

lemma match_forward_ips_iff:
  "match_forward_ips rs ip port \<longleftrightarrow> (\<exists>r \<in> set rs. rule_port r = port \<and> (rule_ip r = None \<or> rule_ip r = Some ip))"
  by (induction rs) auto

lemma allow_match_iff:
  "allow_match lower es (host, port) \<longleftrightarrow>
     (\<exists>e \<in> set es. \<exists>h. allow_split_host_port e = Some (h, port) \<and> (h = [] \<or> lower h = lower host))"
  by (induction es) (auto split: option.splits)

text \<open>
  An entry permits an address when its port is the address's and its host is empty or resolves to
  the address.
\<close>

definition entry_permits :: "lookup \<Rightarrow> string \<Rightarrow> ip_addr \<Rightarrow> string \<Rightarrow> bool" where
  "entry_permits dns e ip port \<longleftrightarrow>
     (\<exists>h. allow_split_host_port e = Some (h, port) \<and> (h = [] \<or> ip \<in> set (resolve_all_ips dns h)))"

lemma match_forward_append: "match_forward_ips (a @ b) ip port \<longleftrightarrow> match_forward_ips a ip port \<or> match_forward_ips b ip port"
  by (auto simp: match_forward_ips_iff)

lemma match_forward_map:
  "match_forward_ips (map (\<lambda>ip. \<lparr>rule_port = p, rule_ip = Some ip\<rparr>) ips) ip port \<longleftrightarrow> p = port \<and> ip \<in> set ips"
  by (auto simp: match_forward_ips_iff)

lemma match_built_rules:
  "match_forward_ips (build_forward_rules dns es) ip port \<longleftrightarrow> (\<exists>e \<in> set es. entry_permits dns e ip port)"
proof (induction es)
  case (Cons e es)
  have "match_forward_ips (case allow_split_host_port e of
        None \<Rightarrow> []
      | Some (host, port) \<Rightarrow>
          if host = [] then [\<lparr>rule_port = port, rule_ip = None\<rparr>]
          else map (\<lambda>ip. \<lparr>rule_port = port, rule_ip = Some ip\<rparr>) (resolve_all_ips dns host)) ip port
    \<longleftrightarrow> entry_permits dns e ip port"
    by (auto simp: entry_permits_def match_forward_map split: option.splits)
  with Cons show ?case by (simp add: match_forward_append)
qed simp

section \<open>The stricter reading of IPv4 literals\<close>

definition octet_text :: "string \<Rightarrow> bool" where
  "octet_text g \<longleftrightarrow> g \<noteq> [] \<and> length g \<le> 3 \<and> \<not> (length g > 1 \<and> hd g = CHR ''0'') \<and> CHR ''.'' \<notin> set g"

lemma read_octetD:
  assumes "read_octet s = Some (v, rest)"
  obtains g where "s = g @ rest" "octet_text g"
proof -
  let ?g = "takeWhile (\<lambda>c. to_digit 10 c \<noteq> None) s"
  have "CHR ''.'' \<notin> set ?g" by (auto dest: set_takeWhileD simp: to_digit_def)
  moreover from assms have "rest = drop (length ?g) s" "?g \<noteq> []" "length ?g \<le> 3" "\<not> (length ?g > 1 \<and> hd ?g = CHR ''0'')"
    by (auto simp: read_octet_def read_number_def Let_def split: if_splits)
  moreover have "s = ?g @ drop (length ?g) s" by (metis dropWhile_eq_drop takeWhile_dropWhile_id)
  ultimately show thesis using that [of ?g] by (simp add: octet_text_def)
qed

lemma read_sep_octetD:
  assumes "read_separator (CHR ''.'') (Suc i) read_octet s = Some (v, rest)"
  obtains g where "s = CHR ''.'' # g @ rest" "octet_text g"
proof -
  from assms obtain s' where "s = CHR ''.'' # s'" "read_octet s' = Some (v, rest)"
    by (auto simp: read_separator_def read_given_char_def split: list.splits if_splits)
  with read_octetD show thesis using that by metis
qed

lemma ipv4_groups:
  assumes "read_ipv4_addr s = Some (ip, [])"
  obtains a b c d where "split_on (CHR ''.'') s = [a, b, c, d]" "list_all octet_text [a, b, c, d]"
proof -
  from assms obtain v1 s1 v2 s2 v3 s3 v4 where
    r: "read_octet s = Some (v1, s1)" "read_separator (CHR ''.'') (Suc 0) read_octet s1 = Some (v2, s2)"
    "read_separator (CHR ''.'') (Suc 1) read_octet s2 = Some (v3, s3)"
    "read_separator (CHR ''.'') (Suc 2) read_octet s3 = Some (v4, [])"
    by (auto simp: read_ipv4_addr_def read_separator_def Option.bind_eq_Some_conv numeral_3_eq_3 numeral_2_eq_2)
  obtain a where a: "s = a @ s1" "octet_text a" using read_octetD [OF r(1)] by metis
  obtain b where b: "s1 = CHR ''.'' # b @ s2" "octet_text b" using read_sep_octetD [OF r(2)] by metis
  obtain c where c: "s2 = CHR ''.'' # c @ s3" "octet_text c" using read_sep_octetD [OF r(3)] by metis
  obtain d where d: "s3 = CHR ''.'' # d" "octet_text d" using read_sep_octetD [OF r(4)] by (metis append_Nil2)
  show thesis
    by (rule that [of a b c d])
      (use a b c d in \<open>auto simp: octet_text_def split_on_append split_on_no\<close>)
qed

lemma parse_ip_addr_V4: "parse_ip_addr s = Some (V4 ip) \<Longrightarrow> read_ipv4_addr s = Some (ip, [])"
  by (auto simp: parse_ip_addr_def read_all_def split: option.splits prod.splits list.splits)

lemma parse_ip_go_eq: "parse_ip_go s = parse_ip_addr s"
proof (cases "parse_ip_addr s")
  case (Some x)
  show ?thesis
  proof (cases x)
    case (V4 ip)
    obtain a b c d where "split_on (CHR ''.'') s = [a, b, c, d]" "list_all octet_text [a, b, c, d]"
      using ipv4_groups [OF parse_ip_addr_V4] Some V4 by metis
    with Some V4 show ?thesis by (simp add: parse_ip_go_def octet_text_def)
  qed (use Some in \<open>simp add: parse_ip_go_def\<close>)
qed (simp add: parse_ip_go_def)

text \<open>A text whose first character is no hexadecimal digit and no colon is not an address.\<close>

lemma no_ip_literal:
  assumes "to_digit 10 c = None" "to_digit 16 c = None" "c \<noteq> CHR '':''"
  shows "parse_ip_addr (c # s) = None"
proof -
  have n: "read_number r m z b (c # s) = None" if "to_digit r c = None" for r m z b
    using that by (simp add: read_number_def)
  have v4: "read_ipv4_addr (c # s) = None"
    by (simp add: read_ipv4_addr_def read_separator_def read_octet_def n assms)
  have "read_groups (Suc k) 0 (c # s) = ([], False, c # s)" for k
    by (simp add: read_separator_def v4 n assms)
  from this [of 7] have "read_ipv6_addr (c # s) = None"
    using assms(3) by (simp add: read_ipv6_addr_def read_given_char_def del: read_groups.simps)
  with v4 show ?thesis by (simp add: parse_ip_addr_def read_all_def)
qed

section \<open>Which addresses may be dialled\<close>

lemma forward_ips_char:
  fixes a0 :: tunnel_allow and now_dns start_dns :: lookup
  assumes "\<not> allow_all a0" "allow_split_host_port addr = Some (host, port)"
  defines "rules_from \<equiv> (if build_forward_rules start_dns (allow_forward a0) = [] then now_dns else start_dns)"
  shows "(case forward_ips now_dns (allow_resolve start_dns a0) addr of (ips, p, ok) \<Rightarrow>
      set ips = {ip \<in> set (resolve_all_ips now_dns host). \<exists>e \<in> set (allow_forward a0). entry_permits rules_from e ip port}
      \<and> ok = (ips \<noteq> []) \<and> (p = (if ok then port else [])))"
proof -
  let ?built = "build_forward_rules start_dns (allow_forward a0)"
  have rules: "match_forward_ips (if ?built = [] \<and> allow_forward a0 \<noteq> []
        then build_forward_rules now_dns (allow_forward a0) else ?built) ip port
    \<longleftrightarrow> (\<exists>e \<in> set (allow_forward a0). entry_permits rules_from e ip port)" for ip
    unfolding rules_from_def using match_built_rules [of now_dns "allow_forward a0"] match_built_rules [of start_dns "allow_forward a0"]
    by auto
  show ?thesis
    using assms(1,2) rules by (auto simp: forward_ips_def allow_resolve_def Let_def filter_empty_conv)
qed

section \<open>Properties\<close>


definition one_entry :: tunnel_allow where
  "one_entry = \<lparr>allow_all = False, allow_listen = [], allow_forward = [''nas:5432''], forward_rules = []\<rparr>"


text \<open>
  The extra checks on IPv4 literals never fire: reading an address the strict way and the
  standard library's way agree on every text.
\<close>

theorem parse_ip_go_agrees: "parse_ip_go s = parse_ip_addr s"
  by (rule parse_ip_go_eq)

text \<open>
  An entry whose host fails to resolve at start is not dropped when no entry at all resolved:
  the list of rules is then empty, and each dial resolves the entry again, so that whatever the
  name service answers at that moment is permitted.
\<close>

theorem unresolved_entry_reopens:
  "forward_ips (\<lambda>_. [ip]) (allow_resolve (\<lambda>_. []) one_entry) ''nas:5432'' = ([ip], ''5432'', True)"
proof -
  have s: "allow_split_host_port ''nas:5432'' = Some (''nas'', ''5432'')"
    by (simp add: allow_split_host_port_def rposition_def starts_with_def)
  have "parse_ip_go ''nas'' = None"
    by (simp add: parse_ip_go_eq no_ip_literal to_digit_def)
  then show ?thesis
    by (simp add: forward_ips_def allow_resolve_def one_entry_def s resolve_all_ips_def)
qed

end
