(* ===== verification/Code_Gen.thy ===== *)
theory Code_Gen
  imports Text Hex Spake2
begin

text \<open>
  \<^verbatim>\<open>crates/qvole-spake2/src/code.rs\<close> and \<^verbatim>\<open>words.rs\<close>: connection codes and the room names derived
  from them. The word list is a data file of the crate; its text is an argument. The random
  source is the function \<open>draws\<close> from the number of a draw to its two bytes, read as a big-endian
  number; a position in it is passed along.
\<close>

section \<open>The operations\<close>

definition code_words :: "string \<Rightarrow> string list" where
  "code_words txt = filter (\<lambda>l. l \<noteq> []) (split_lines [] txt)"

definition is_generated_code :: "string \<Rightarrow> bool" where
  "is_generated_code b \<longleftrightarrow> length b \<ge> 5 \<and> list_all is_ascii_digit (take 4 b) \<and> b ! 4 = CHR ''-''"

datatype code_error = RandIntRange nat | GenerateCode code_error

partial_function (option) rand_loop :: "(nat \<Rightarrow> u16) \<Rightarrow> nat \<Rightarrow> nat \<Rightarrow> nat \<Rightarrow> (nat \<times> nat) option" where
  "rand_loop draws bound limit i =
     (let v = unat (draws i) in if v < limit then Some (v mod bound, i + 1) else rand_loop draws bound limit (i + 1))"

definition rand_limit :: "nat \<Rightarrow> nat" where
  "rand_limit bound = (65536 div bound) * bound"

definition rand_int :: "(nat \<Rightarrow> u16) \<Rightarrow> nat \<Rightarrow> nat \<Rightarrow> (code_error + nat \<times> nat) option" where
  "rand_int draws bound i =
     (if bound = 0 \<or> bound > 65536 then Some (Inl (RandIntRange bound))
      else map_option Inr (rand_loop draws bound (rand_limit bound) i))"

fun rand_ints :: "(nat \<Rightarrow> u16) \<Rightarrow> nat list \<Rightarrow> nat \<Rightarrow> (code_error + nat list) option" where
  "rand_ints draws [] i = Some (Inr [])"
| "rand_ints draws (m # ms) i =
     (case rand_int draws m i of
        None \<Rightarrow> None
      | Some (Inl e) \<Rightarrow> Some (Inl (GenerateCode e))
      | Some (Inr (v, j)) \<Rightarrow>
          (case rand_ints draws ms j of
             None \<Rightarrow> None | Some (Inl e) \<Rightarrow> Some (Inl e) | Some (Inr vs) \<Rightarrow> Some (Inr (v # vs))))"

definition fmt_04 :: "nat \<Rightarrow> string" where
  "fmt_04 n = (let s = dec_str n in replicate (4 - length s) (CHR ''0'') @ s)"

definition generate_code :: "string list \<Rightarrow> (nat \<Rightarrow> u16) \<Rightarrow> (code_error + string) option" where
  "generate_code words draws =
     (case rand_ints draws [10000, length words, length words, length words] 0 of
        None \<Rightarrow> None
      | Some (Inl e) \<Rightarrow> Some (Inl e)
      | Some (Inr vals) \<Rightarrow>
          Some (Inr (fmt_04 (vals ! 0) @ ''-'' @ words ! (vals ! 1) @ ''-'' @ words ! (vals ! 2) @ ''-'' @ words ! (vals ! 3))))"

definition nameplate :: "'p crypto \<Rightarrow> string \<Rightarrow> string" where
  "nameplate c code =
     (if is_generated_code code then take 4 code
      else hex_encode (take 4 (sha256 c (bytes_of (''qvole-nameplate:'' @ code)))))"

section \<open>Sampling\<close>

lemma rand_limit_pos: "0 < bound \<Longrightarrow> bound \<le> 65536 \<Longrightarrow> 0 < rand_limit bound \<and> rand_limit bound \<le> 65536"
  by (auto simp: rand_limit_def div_greater_zero_iff)

lemma rand_loop_first:
  assumes "\<And>k. k < n \<Longrightarrow> \<not> unat (draws (i + k)) < limit" and "unat (draws (i + n)) < limit"
  shows "rand_loop draws bound limit i = Some (unat (draws (i + n)) mod bound, i + n + 1)"
  using assms
proof (induction n arbitrary: i)
  case 0
  then show ?case by (simp add: rand_loop.simps [of draws bound limit i])
next
  case (Suc n)
  have "rand_loop draws bound limit (i + 1) = Some (unat (draws (i + 1 + n)) mod bound, i + 1 + n + 1)"
    using Suc.IH [of "i + 1"] Suc.prems(1) [of "Suc _"] Suc.prems(2) by simp
  with Suc.prems(1) [of 0] show ?case by (simp add: rand_loop.simps [of draws bound limit i])
qed

lemma rand_loop_range:
  "rand_loop draws bound limit i = Some r \<Longrightarrow> 0 < bound \<Longrightarrow> fst r < bound"
  by (induction rule: rand_loop.raw_induct [rotated 1, consumes 1]) (auto simp: Let_def split: if_splits)

text \<open>Every residue has the same number of accepted draws.\<close>

lemma residue_count:
  assumes "r < (m :: nat)"
  shows "card {v. v < q * m \<and> v mod m = r} = q"
proof -
  have "{v. v < q * m \<and> v mod m = r} = (\<lambda>k. k * m + r) ` {..<q}"
  proof (intro equalityI subsetI)
    fix v assume "v \<in> {v. v < q * m \<and> v mod m = r}"
    then have v: "v < q * m" "v mod m = r" by auto
    then have "v = v div m * m + r" by (metis div_mult_mod_eq)
    moreover have "v div m < q" using v(1) by (simp add: less_mult_imp_div_less)
    ultimately show "v \<in> (\<lambda>k. k * m + r) ` {..<q}" by blast
  next
    fix v assume "v \<in> (\<lambda>k. k * m + r) ` {..<q}"
    then obtain k where k: "v = k * m + r" "k < q" by auto
    have "v < Suc k * m" using k(1) assms by simp
    also have "\<dots> \<le> q * m" using k(2) by (intro mult_le_mono1) simp
    finally show "v \<in> {v. v < q * m \<and> v mod m = r}" using k assms by simp
  qed
  moreover have "inj_on (\<lambda>k. k * m + r) {..<q}" using assms by (auto simp: inj_on_def)
  ultimately show ?thesis by (simp add: card_image)
qed

section \<open>Codes and room names\<close>

lemma fmt_04_shape: "n < 10000 \<Longrightarrow> length (fmt_04 n) = 4 \<and> list_all is_ascii_digit (fmt_04 n)"
proof -
  assume "n < 10000"
  then have "length (dec_str n) \<le> 4" using length_dec_str [of n 3] by simp
  moreover have "is_ascii_digit c" if "c \<in> set (dec_str n)" for c
    using dec_str_digits [OF that] digit_val_char by (metis digit_val_def option.distinct(1))
  moreover have "is_ascii_digit (CHR ''0'')" by (simp add: is_ascii_digit_def)
  ultimately show ?thesis by (auto simp: fmt_04_def Let_def list_all_iff)
qed

lemma rand_ints_range:
  "rand_ints draws ms i = Some (Inr vs) \<Longrightarrow> list_all2 (<) vs ms"
proof (induction ms arbitrary: i vs)
  case (Cons m ms)
  then obtain v j ws where v: "rand_int draws m i = Some (Inr (v, j))" "rand_ints draws ms j = Some (Inr ws)" "vs = v # ws"
    by (auto split: option.splits sum.splits)
  from v(1) have "rand_loop draws m (rand_limit m) i = Some (v, j)" "0 < m"
    by (auto simp: rand_int_def split: if_splits)
  with rand_loop_range have "v < m" by fastforce
  with Cons.IH [OF v(2)] v(3) show ?case by simp
qed simp

lemma digit_printable_name: "is_ascii_digit c \<Longrightarrow> 33 \<le> (of_char c :: nat) \<and> (of_char c :: nat) \<le> 126"
  by (auto simp: is_ascii_digit_def Let_def)

lemma rand_int_returns:
  assumes m: "0 < m" "m \<le> 65536" and fair: "\<forall>i. \<exists>n \<ge> i. unat (draws n) < rand_limit m"
  shows "\<exists>v j. rand_int draws m i = Some (Inr (v, j)) \<and> v < m"
proof -
  obtain n where "unat (draws (i + n)) < rand_limit m"
    using fair [rule_format, of i] by (metis le_iff_add)
  then obtain k where k: "unat (draws (i + k)) < rand_limit m"
    "\<And>l. l < k \<Longrightarrow> \<not> unat (draws (i + l)) < rand_limit m"
    using exists_least_iff [of "\<lambda>n. unat (draws (i + n)) < rand_limit m"] by metis
  from rand_loop_first [of k draws i "rand_limit m" m, OF k(2,1)] m show ?thesis by (simp add: rand_int_def)
qed

lemma rand_ints_returns:
  assumes "\<forall>m \<in> set ms. 0 < m \<and> m \<le> 65536 \<and> (\<forall>i. \<exists>n \<ge> i. unat (draws n) < rand_limit m)"
  shows "\<exists>vs. rand_ints draws ms i = Some (Inr vs)"
  using assms
proof (induction ms arbitrary: i)
  case (Cons m ms)
  then obtain v j where v: "rand_int draws m i = Some (Inr (v, j))" using rand_int_returns [of m draws i] by auto
  obtain vs where "rand_ints draws ms j = Some (Inr vs)" using Cons.IH [of j] Cons.prems by auto
  with v show ?case by simp
qed simp

section \<open>Properties\<close>

text \<open>
  C33. Rejection sampling is uniform: each result below \<open>m\<close> comes from the same number of accepted
  draws, and the result is the residue of the first draw that is accepted.
\<close>

theorem rand_int_uniform:
  assumes "0 < m" "m \<le> 65536" "r < m"
    and "\<And>k. k < n \<Longrightarrow> \<not> unat (draws (i + k)) < rand_limit m" "unat (draws (i + n)) < rand_limit m"
  shows "card {w :: u16. unat w < rand_limit m \<and> unat w mod m = r} = 65536 div m
    \<and> rand_int draws m i = Some (Inr (unat (draws (i + n)) mod m, i + n + 1))"
proof
  let ?N = "{v. v < 65536 div m * m \<and> v mod m = r}"
  have lim: "rand_limit m \<le> 65536" using rand_limit_pos [OF assms(1,2)] by simp
  have un: "unat (word_of_nat v :: u16) = v" if "v \<in> ?N" for v
  proof -
    from that have "v < rand_limit m" by (simp add: rand_limit_def)
    with lim have "v < 2 ^ 16" by simp
    then show ?thesis by (simp add: unsigned_of_nat take_bit_nat_eq_self)
  qed
  have "{w :: u16. unat w < rand_limit m \<and> unat w mod m = r} = word_of_nat ` ?N"
  proof (intro equalityI subsetI)
    fix w :: u16 assume "w \<in> {w. unat w < rand_limit m \<and> unat w mod m = r}"
    then have "unat w \<in> ?N" by (simp add: rand_limit_def)
    then show "w \<in> word_of_nat ` ?N" by (intro image_eqI [of _ _ "unat w"]) simp_all
  qed (auto simp: un rand_limit_def)
  moreover have "inj_on (word_of_nat :: nat \<Rightarrow> u16) ?N" by (rule inj_on_inverseI [where g = unat]) (rule un)
  ultimately show "card {w :: u16. unat w < rand_limit m \<and> unat w mod m = r} = 65536 div m"
    by (simp add: card_image residue_count [OF assms(3)])
  show "rand_int draws m i = Some (Inr (unat (draws (i + n)) mod m, i + n + 1))"
    using assms(1,2) rand_loop_first [of n draws i "rand_limit m" m, OF assms(4,5)] by (simp add: rand_int_def)
qed

theorem rand_int_uniform_witness:
  "card {w :: u16. unat w < rand_limit 7762 \<and> unat w mod 7762 = 5} = 8
   \<and> rand_int (\<lambda>k. if k = 0 then 65535 else 7767) 7762 0 = Some (Inr (5, 2))"
  using rand_int_uniform [of 7762 5 1 "\<lambda>k. if k = 0 then 65535 else 7767" 0] by (simp add: rand_limit_def)

text \<open>
  Code generation returns a code as soon as the random source does not avoid small numbers for
  ever, the code has the generated form, and the room derived from it is its four-digit prefix.
\<close>

theorem generated_code_recognized:
  assumes "ws \<noteq> []" "length ws \<le> 65536" and fair: "\<forall>i. \<exists>n \<ge> i. draws n = 0"
  shows "\<exists>code. generate_code ws draws = Some (Inr code) \<and> is_generated_code code
    \<and> nameplate c code = take 4 code \<and> list_all is_ascii_digit (nameplate c code)"
proof -
  let ?ms = "[10000, length ws, length ws, length ws]"
  have "\<exists>n \<ge> i. unat (draws n) < rand_limit m" if "m \<in> set ?ms" for i m
  proof -
    have "0 < rand_limit m" using that assms(1,2) rand_limit_pos [of m] by auto
    with fair [rule_format, of i] show ?thesis by auto
  qed
  then obtain vs where vs: "rand_ints draws ?ms 0 = Some (Inr vs)"
    using rand_ints_returns [of ?ms draws 0] assms(1,2) by auto
  from rand_ints_range [OF this] have "vs ! 0 < 10000" by (auto simp: list_all2_conv_all_nth)
  note f = fmt_04_shape [OF this]
  define code where "code = fmt_04 (vs ! 0) @ ''-'' @ ws ! (vs ! 1) @ ''-'' @ ws ! (vs ! 2) @ ''-'' @ ws ! (vs ! 3)"
  have g: "generate_code ws draws = Some (Inr code)" using vs by (simp add: generate_code_def code_def)
  have "take 4 code = fmt_04 (vs ! 0)" "code ! 4 = CHR ''-''" "length code \<ge> 5"
    using f by (simp_all add: code_def nth_append)
  with f g show ?thesis by (auto simp: is_generated_code_def nameplate_def)
qed

definition any_crypto :: "nat crypto" where
  "any_crypto = \<lparr>pt_add = (+), pt_zero = 0, pt_mul = (*), encoded_ok = (\<lambda>_. False), from_encoded = (\<lambda>_. None),
     to_encoded = (\<lambda>_. []), coeff_b = 0, fe_sqrt = (\<lambda>_. None), sha256 = (\<lambda>_. replicate 32 7),
     pbkdf2 = (\<lambda>_ _ _. []), hkdf_expand = (\<lambda>_ _ _. None), hmac256 = (\<lambda>_ _. None),
     gcm_encrypt = (\<lambda>_ _ _ _. None), gcm_decrypt = (\<lambda>_ _ _ _. None), gcm_key_ok = (\<lambda>_. False)\<rparr>"

theorem generated_code_recognized_witness:
  "\<exists>code. generate_code [''apple'', ''pear''] (\<lambda>_. 0) = Some (Inr code) \<and> is_generated_code code
     \<and> nameplate any_crypto code = take 4 code"
  using generated_code_recognized [of "[''apple'', ''pear'']" "\<lambda>_. 0" any_crypto] by auto

text \<open>
  C34. The room name a peer derives from any code, generated or not, is one the relay accepts.
\<close>

theorem nameplate_valid_room:
  assumes "\<And>m. length (sha256 c m) = 32"
  shows "valid_room_name (nameplate c code)"
proof (cases "is_generated_code code")
  case True
  then have "nameplate c code = take 4 code" "list_all is_ascii_digit (take 4 code)" "length code \<ge> 5"
    by (simp_all add: nameplate_def is_generated_code_def)
  then show ?thesis
    using digit_printable_name by (auto simp: valid_room_name_def MAX_ROOM_NAME_LEN_def list_all_iff)
next
  case False
  define h where "h = take 4 (sha256 c (bytes_of (''qvole-nameplate:'' @ code)))"
  have "length (to_hex_lower h) = 8" using assms by (simp add: h_def)
  moreover have "33 \<le> (of_char x :: nat) \<and> (of_char x :: nat) \<le> 126" if "x \<in> set (to_hex_lower h)" for x
    using to_hex_lower_digits [OF that] by (auto simp: is_ascii_hexdigit_def Let_def)
  moreover have "nameplate c code = to_hex_lower h" using False by (simp add: nameplate_def h_def hex_encode_eq)
  ultimately show ?thesis
    by (cases "to_hex_lower h") (auto simp: valid_room_name_def MAX_ROOM_NAME_LEN_def list_all_iff)
qed

theorem nameplate_valid_room_witness: "valid_room_name (nameplate any_crypto ''my secret code'')"
  by (rule nameplate_valid_room) (simp add: any_crypto_def)

end
