(* ===== verification/Transport.thy ===== *)
theory Transport
  imports Exchange Spake2_Agree
begin

text \<open>
  \<^verbatim>\<open>crates/qvole-protocol/src/transport.rs\<close> and \<^verbatim>\<open>cert.rs\<close>: the transport parameters, the certificate a
  peer makes for a connection, and the TLS configurations with the verifiers that pin the peer's
  certificate. The configuration objects of the TLS library are records of what the code sets in
  them; what the library itself can refuse is an argument, as are key generation, signing and the
  signature check.
\<close>

section \<open>Transport parameters\<close>

definition PROTOCOL_VERSION :: string where "PROTOCOL_VERSION = ''0.2''"
definition ALPN :: string where "ALPN = ''qvole-v0.2''"
definition DEFAULT_INITIAL_STREAM_WINDOW :: int where "DEFAULT_INITIAL_STREAM_WINDOW = 1024 * 1024"
definition DEFAULT_INITIAL_CONNECTION_WINDOW :: int where "DEFAULT_INITIAL_CONNECTION_WINDOW = 4 * 1024 * 1024"
definition CANCEL_ERROR_CODE :: u32 where "CANCEL_ERROR_CODE = 1"
definition HELPER_TIMEOUT :: duration where "HELPER_TIMEOUT = from_secs 3"
definition HELPER_TICKER_INTERVAL :: duration where "HELPER_TICKER_INTERVAL = from_millis 50"
definition KEEPALIVE_PAYLOAD :: "byte list" where "KEEPALIVE_PAYLOAD = [0x01]"

definition millis_varint :: "duration \<Rightarrow> u32" where
  "millis_varint d = word_of_nat (min (as_millis d) (2 ^ 32 - 1))"

definition byte_varint :: "u64 \<Rightarrow> u32" where
  "byte_varint b = word_of_nat (min (unat b) (2 ^ 32 - 1))"

definition initial_stream_window :: "(string \<Rightarrow> string option) \<Rightarrow> u64" where
  "initial_stream_window getenv = word_of_int (env_int getenv ''QVOLE_INITIAL_STREAM_WINDOW'' DEFAULT_INITIAL_STREAM_WINDOW)"

definition initial_connection_window :: "(string \<Rightarrow> string option) \<Rightarrow> u64" where
  "initial_connection_window getenv =
     word_of_int (env_int getenv ''QVOLE_INITIAL_CONNECTION_WINDOW'' DEFAULT_INITIAL_CONNECTION_WINDOW)"

record transport_config =
  max_bidi :: u32
  max_uni :: u32
  keep_alive :: duration
  max_idle :: u32
  stream_window :: u32
  conn_window :: u32

definition quic_transport_config :: "(string \<Rightarrow> string option) \<Rightarrow> peer_config \<Rightarrow> transport_config" where
  "quic_transport_config getenv pc =
     \<lparr>max_bidi = max_streams getenv pc, max_uni = 0, keep_alive = keep_alive_period getenv pc,
      max_idle = millis_varint (idle_timeout getenv pc),
      stream_window = byte_varint (initial_stream_window getenv),
      conn_window = byte_varint (initial_connection_window getenv)\<rparr>"

section \<open>Certificates\<close>

record self_signed_cert =
  cert_der :: "byte list"
  cert_key :: "byte list"
  cert_fp :: "byte list"

datatype cert_error = Generate_key string | Create_cert string

definition CERT_COMMON_NAME :: string where "CERT_COMMON_NAME = ''qvole''"

text \<open>In seconds, as the clock of a certificate counts.\<close>

definition VALIDITY :: nat where "VALIDITY = 365 * 24 * 60 * 60"

datatype key_usage = Digital_signature
datatype extended_key_usage = Server_auth | Client_auth

record certificate_params =
  not_before :: nat
  not_after :: nat
  serial_number :: "byte list"
  organization :: string
  common_name :: string
  explicit_no_ca :: bool
  key_usages :: "key_usage list"
  extended_key_usages :: "extended_key_usage list"

text \<open>What certificate generation asks for: the serial is made of 16 random bytes with the top bit cleared.\<close>

definition positive_serial :: "byte list \<Rightarrow> byte list" where
  "positive_serial rnd = (case rnd of [] \<Rightarrow> [] | b # bs \<Rightarrow> (b AND 0x7f) # bs)"

definition cert_params :: "string \<Rightarrow> byte list \<Rightarrow> nat \<Rightarrow> certificate_params" where
  "cert_params name rnd t =
     \<lparr>not_before = t, not_after = t + VALIDITY, serial_number = positive_serial rnd,
      organization = ''qvole'', common_name = name, explicit_no_ca = True,
      key_usages = [Digital_signature], extended_key_usages = [Server_auth, Client_auth]\<rparr>"

definition cert_fingerprint :: "'p crypto \<Rightarrow> byte list list \<Rightarrow> byte list option" where
  "cert_fingerprint c ders = (case ders of [] \<Rightarrow> None | d # _ \<Rightarrow> Some (sha256 c d))"

text \<open>
  The arguments: the key pair or the error of making it, the random bytes, the clock, and the
  certificate library's signing of the parameters with the key.
\<close>

definition generate_self_signed_cert ::
    "'p crypto \<Rightarrow> string + byte list \<Rightarrow> byte list \<Rightarrow> nat \<Rightarrow> (certificate_params \<Rightarrow> byte list \<Rightarrow> string + byte list)
     \<Rightarrow> string \<Rightarrow> cert_error + self_signed_cert" where
  "generate_self_signed_cert c keypair rnd t sign name =
     (case keypair of
        Inl e \<Rightarrow> Inl (Generate_key e)
      | Inr key \<Rightarrow>
          (case sign (cert_params name rnd t) key of
             Inl e \<Rightarrow> Inl (Create_cert e)
           | Inr der \<Rightarrow> Inr \<lparr>cert_der = der, cert_key = key, cert_fp = the (cert_fingerprint c [der])\<rparr>))"

text \<open>The comparison of \<^verbatim>\<open>cert.rs\<close>, a second copy of the one in \<^verbatim>\<open>spake2.rs\<close>.\<close>

definition cert_constant_time_eq :: "byte list \<Rightarrow> byte list \<Rightarrow> bool" where
  "cert_constant_time_eq a b =
     (if length a \<noteq> length b then False else foldl (\<lambda>diff (x, y). diff OR (x XOR y)) 0 (zip a b) = 0)"

section \<open>Verifiers\<close>

datatype tls_error =
    Fingerprint_mismatch | Unsupported_scheme | Bad_encoding | Bad_signature string | Bad_fingerprint_length
  | No_certificate | Tls_library string

datatype signature_scheme = ECDSA_NISTP256_SHA256 | Other_scheme u16

text \<open>
  The certificate library: whether it can read a certificate, and the error of checking a
  signature over a message with the key in it, if it is not valid.
\<close>

record pki =
  pki_readable :: "byte list \<Rightarrow> bool"
  pki_verify :: "byte list \<Rightarrow> byte list \<Rightarrow> byte list \<Rightarrow> string option"

text \<open>A certificate and a signature over the handshake, as the other side shows them.\<close>

record shown =
  sh_cert :: "byte list"
  sh_message :: "byte list"
  sh_scheme :: signature_scheme
  sh_signature :: "byte list"

definition check_fingerprint :: "'p crypto \<Rightarrow> byte list \<Rightarrow> byte list \<Rightarrow> tls_error + unit" where
  "check_fingerprint c fingerprint end_entity =
     (if \<not> cert_constant_time_eq (sha256 c end_entity) fingerprint then Inl Fingerprint_mismatch else Inr ())"

definition verify_pinned_signature :: "pki \<Rightarrow> shown \<Rightarrow> tls_error + unit" where
  "verify_pinned_signature k s =
     (if sh_scheme s \<noteq> ECDSA_NISTP256_SHA256 then Inl Unsupported_scheme
      else if \<not> pki_readable k (sh_cert s) then Inl Bad_encoding
      else case pki_verify k (sh_cert s) (sh_message s) (sh_signature s) of
             Some e \<Rightarrow> Inl (Bad_signature e)
           | None \<Rightarrow> Inr ())"

record pinned_verifier =
  pin :: "byte list"

definition verify_server_cert :: "'p crypto \<Rightarrow> pinned_verifier \<Rightarrow> byte list \<Rightarrow> tls_error + unit" where
  "verify_server_cert c v end_entity = check_fingerprint c (pin v) end_entity"

definition verify_client_cert :: "'p crypto \<Rightarrow> pinned_verifier \<Rightarrow> byte list \<Rightarrow> tls_error + unit" where
  "verify_client_cert c v end_entity = check_fingerprint c (pin v) end_entity"

definition verify_tls13_signature :: "pki \<Rightarrow> shown \<Rightarrow> tls_error + unit" where
  "verify_tls13_signature k s = verify_pinned_signature k s"

definition client_auth_mandatory :: "pinned_verifier \<Rightarrow> bool" where
  "client_auth_mandatory v = True"

definition offer_client_auth :: "pinned_verifier \<Rightarrow> bool" where
  "offer_client_auth v = True"

definition supported_verify_schemes :: "pinned_verifier \<Rightarrow> signature_scheme list" where
  "supported_verify_schemes v = [ECDSA_NISTP256_SHA256]"

section \<open>TLS configurations\<close>

datatype tls_version = TLS13

record tls_config =
  tls_versions :: "tls_version list"
  tls_verifier :: pinned_verifier
  tls_chain :: "byte list list"
  tls_key :: "byte list"
  tls_alpn :: "string list"

record client_tls = tls_config +
  resumption :: bool

record server_tls = tls_config +
  tls13_tickets :: nat

text \<open>
  \<open>refused\<close> is the error of the TLS library when it does not take the protocol versions or the
  certificate with its key.
\<close>

definition client_tls_config ::
    "(self_signed_cert \<Rightarrow> string option) \<Rightarrow> self_signed_cert \<Rightarrow> byte list \<Rightarrow> tls_error + client_tls" where
  "client_tls_config refused cert peer_fp =
     (if length peer_fp \<noteq> 32 then Inl Bad_fingerprint_length
      else case refused cert of
             Some e \<Rightarrow> Inl (Tls_library e)
           | None \<Rightarrow> Inr \<lparr>tls_versions = [TLS13], tls_verifier = \<lparr>pin = peer_fp\<rparr>, tls_chain = [cert_der cert],
                        tls_key = cert_key cert, tls_alpn = [ALPN], resumption = False\<rparr>)"

definition server_tls_config ::
    "(self_signed_cert \<Rightarrow> string option) \<Rightarrow> self_signed_cert \<Rightarrow> byte list \<Rightarrow> tls_error + server_tls" where
  "server_tls_config refused cert peer_fp =
     (if length peer_fp \<noteq> 32 then Inl Bad_fingerprint_length
      else case refused cert of
             Some e \<Rightarrow> Inl (Tls_library e)
           | None \<Rightarrow> Inr \<lparr>tls_versions = [TLS13], tls_verifier = \<lparr>pin = peer_fp\<rparr>, tls_chain = [cert_der cert],
                        tls_key = cert_key cert, tls_alpn = [ALPN], tls13_tickets = 0\<rparr>)"

datatype quic_config_error = Quic_tls tls_error | Quic_crypto string

record client_config =
  cc_tls :: client_tls
  cc_transport :: transport_config

record server_config =
  sc_tls :: server_tls
  sc_transport :: transport_config

text \<open>
  What the libraries can refuse: the certificate with its key, and to build QUIC keys from a
  finished TLS configuration.
\<close>

record tls_library =
  lib_refuses :: "self_signed_cert \<Rightarrow> string option"
  lib_no_quic :: "string option"

definition quic_server_config ::
    "tls_library \<Rightarrow> (string \<Rightarrow> string option) \<Rightarrow> self_signed_cert \<Rightarrow> byte list \<Rightarrow> peer_config \<Rightarrow> quic_config_error + server_config" where
  "quic_server_config l getenv cert peer_fp pc =
     (case server_tls_config (lib_refuses l) cert peer_fp of
        Inl e \<Rightarrow> Inl (Quic_tls e)
      | Inr tls \<Rightarrow>
          (case lib_no_quic l of
             Some e \<Rightarrow> Inl (Quic_crypto e)
           | None \<Rightarrow> Inr \<lparr>sc_tls = tls, sc_transport = quic_transport_config getenv pc\<rparr>))"

definition quic_client_config ::
    "tls_library \<Rightarrow> (string \<Rightarrow> string option) \<Rightarrow> self_signed_cert \<Rightarrow> byte list \<Rightarrow> peer_config \<Rightarrow> quic_config_error + client_config" where
  "quic_client_config l getenv cert peer_fp pc =
     (case client_tls_config (lib_refuses l) cert peer_fp of
        Inl e \<Rightarrow> Inl (Quic_tls e)
      | Inr tls \<Rightarrow>
          (case lib_no_quic l of
             Some e \<Rightarrow> Inl (Quic_crypto e)
           | None \<Rightarrow> Inr \<lparr>cc_tls = tls, cc_transport = quic_transport_config getenv pc\<rparr>))"

text \<open>
  What a side asks of the other before a handshake completes, by the calls the TLS library makes to
  the verifier: the certificate of a server; of a client its certificate, unless it shows none and
  need not; and the signature that goes with it.
\<close>

definition client_checks :: "'p crypto \<Rightarrow> pki \<Rightarrow> client_tls \<Rightarrow> shown \<Rightarrow> tls_error + unit" where
  "client_checks c k cfg s =
     (case verify_server_cert c (tls_verifier cfg) (sh_cert s) of
        Inl e \<Rightarrow> Inl e
      | Inr _ \<Rightarrow> verify_tls13_signature k s)"

definition server_checks :: "'p crypto \<Rightarrow> pki \<Rightarrow> server_tls \<Rightarrow> shown option \<Rightarrow> tls_error + unit" where
  "server_checks c k cfg s =
     (case s of
        None \<Rightarrow> if offer_client_auth (tls_verifier cfg) \<and> client_auth_mandatory (tls_verifier cfg) then Inl No_certificate else Inr ()
      | Some s \<Rightarrow>
          (case verify_client_cert c (tls_verifier cfg) (sh_cert s) of
             Inl e \<Rightarrow> Inl e
           | Inr _ \<Rightarrow> verify_tls13_signature k s))"

section \<open>Closing on cancellation\<close>

datatype watch_event = Watch_cancelled | Watch_closed

text \<open>The application close the watcher issues, given what happens first; \<open>None\<close> while nothing did.\<close>

fun close_on_cancel :: "watch_event list \<Rightarrow> (u32 \<times> string) option option" where
  "close_on_cancel [] = None"
| "close_on_cancel (Watch_cancelled # es) = Some (Some (CANCEL_ERROR_CODE, ''canceled''))"
| "close_on_cancel (Watch_closed # es) = Some None"

section \<open>Lemmas\<close>

lemma cert_constant_time_eq_iff [simp]: "cert_constant_time_eq a b \<longleftrightarrow> a = b"
proof -
  have "cert_constant_time_eq a b = constant_time_eq a b" unfolding cert_constant_time_eq_def constant_time_eq_def ..
  then show ?thesis by simp
qed

lemma byte_varint_unat: "unat (byte_varint b) = min (unat b) (2 ^ 32 - 1)"
proof -
  have "min (unat b) (2 ^ 32 - 1) < 2 ^ 32" by simp
  then show ?thesis by (simp add: byte_varint_def unat_of_nat take_bit_nat_eq_self)
qed

lemma verify_pinned_signature_ok:
  "verify_pinned_signature k s = Inr () \<longleftrightarrow>
     sh_scheme s = ECDSA_NISTP256_SHA256 \<and> pki_readable k (sh_cert s) \<and> pki_verify k (sh_cert s) (sh_message s) (sh_signature s) = None"
  by (simp add: verify_pinned_signature_def split: option.split)

lemma client_checks_ok:
  "client_checks c k cfg s = Inr () \<longleftrightarrow> sha256 c (sh_cert s) = pin (tls_verifier cfg) \<and> verify_pinned_signature k s = Inr ()"
  by (simp add: client_checks_def verify_server_cert_def check_fingerprint_def verify_tls13_signature_def)

lemma server_checks_ok:
  "server_checks c k cfg s = Inr () \<longleftrightarrow>
     (\<exists>x. s = Some x \<and> sha256 c (sh_cert x) = pin (tls_verifier cfg) \<and> verify_pinned_signature k x = Inr ())"
  by (cases s) (simp_all add: server_checks_def verify_client_cert_def check_fingerprint_def verify_tls13_signature_def
      client_auth_mandatory_def offer_client_auth_def)

lemma quic_configs_pin:
  "quic_client_config l getenv cert fp pc = Inr cc \<Longrightarrow> pin (tls_verifier (cc_tls cc)) = fp \<and> tls_chain (cc_tls cc) = [cert_der cert]"
  "quic_server_config l getenv cert fp pc = Inr sc \<Longrightarrow> pin (tls_verifier (sc_tls sc)) = fp \<and> tls_chain (sc_tls sc) = [cert_der cert]"
  by (auto simp: quic_client_config_def quic_server_config_def client_tls_config_def server_tls_config_def
      split: sum.splits option.splits if_splits)

lemma generated_cert:
  assumes "generate_self_signed_cert c keypair rnd t sign name = Inr cert"
  shows "cert_fp cert = sha256 c (cert_der cert) \<and> sign (cert_params name rnd t) (cert_key cert) = Inr (cert_der cert)"
  using assms by (auto simp: generate_self_signed_cert_def cert_fingerprint_def split: sum.splits)

end
