(* ===== verification/Punch.thy ===== *)
theory Punch
  imports Net Limiter
begin

text \<open>
  \<^verbatim>\<open>crates/qvole-protocol/src/punch.rs\<close>: sending small datagrams at the peer and listening for its
  first one. The loop is driven by the events its \<^verbatim>\<open>select!\<close> sees. The ticker is \<^verbatim>\<open>tokio::time::Interval\<close>,
  given by the operations the code calls; \<open>interval_documented\<close> is what its documentation says of
  them.
\<close>

section \<open>Definitions\<close>

definition PUNCH_BUFFER_SIZE :: nat where "PUNCH_BUFFER_SIZE = 1600"
definition PUNCH_READ_DEADLINE :: duration where "PUNCH_READ_DEADLINE = from_millis 100"
definition PUNCH_INTERVAL_CHANGE :: nat where "PUNCH_INTERVAL_CHANGE = 5"
definition PUNCH_INTERVALS :: "duration list" where "PUNCH_INTERVALS = [from_millis 50, from_millis 100, from_millis 200]"
definition PUNCH_PAYLOAD_SIZES :: "nat list" where "PUNCH_PAYLOAD_SIZES = [5, 50, 100, 200]"

text \<open>A read of the punch listener: whether it was cancelled before, and a datagram, if one came in time.\<close>

type_synonym punch_read = "bool \<times> (nat \<times> socket_addr) option"

text \<open>What the listener hands over when it ends; \<open>None\<close> while it listens.\<close>

fun listen_for_punch :: "ip_addr option \<Rightarrow> punch_read list \<Rightarrow> socket_addr option option" where
  "listen_for_punch peer_ip [] = None"
| "listen_for_punch peer_ip ((cancelled, got) # rs) =
     (if cancelled then Some None
      else case got of
             None \<Rightarrow> listen_for_punch peer_ip rs
           | Some (n, from) \<Rightarrow>
               if n = 0 then listen_for_punch peer_ip rs
               else if (case peer_ip of Some ip \<Rightarrow> sock_ip from \<noteq> ip | None \<Rightarrow> False) then listen_for_punch peer_ip rs
               else Some (Some from))"

text \<open>The operations of the ticker: made for a first tick and a period, after a tick, and reset.\<close>

record 'k interval_api =
  interval_at :: "instant \<Rightarrow> duration \<Rightarrow> 'k"
  next_tick :: "'k \<Rightarrow> instant"
  after_tick :: "'k \<Rightarrow> 'k"
  reset_after :: "instant \<Rightarrow> duration \<Rightarrow> 'k \<Rightarrow> 'k"

record 'k punch_loop =
  interval_idx :: nat
  attempt :: u32
  ticker :: 'k
  punch_sent :: "(instant \<times> byte list \<times> socket_addr) list"

definition punch_start :: "'k interval_api \<Rightarrow> instant \<Rightarrow> 'k punch_loop" where
  "punch_start api t =
     \<lparr>interval_idx = 0, attempt = 0, ticker = interval_at api (t + PUNCH_INTERVALS ! 0) (PUNCH_INTERVALS ! 0), punch_sent = []\<rparr>"

text \<open>
  A tick: one of the payloads is sent, and after every fifth the ticker is reset to a longer
  interval. The tick is taken at its time.
\<close>

definition punch_tick :: "'k interval_api \<Rightarrow> byte list list \<Rightarrow> socket_addr \<Rightarrow> 'k punch_loop \<Rightarrow> 'k punch_loop" where
  "punch_tick api payloads peer l =
     (let t = next_tick api (ticker l);
          k = after_tick api (ticker l);
          sent = punch_sent l @ [(t, payloads ! (unat (attempt l) mod length PUNCH_PAYLOAD_SIZES), peer)];
          n = attempt l + 1
      in if unat n mod PUNCH_INTERVAL_CHANGE = 0 \<and> interval_idx l < length PUNCH_INTERVALS - 1
         then let idx = interval_idx l + 1
              in \<lparr>interval_idx = idx, attempt = n, ticker = reset_after api t (PUNCH_INTERVALS ! idx) k, punch_sent = sent\<rparr>
         else \<lparr>interval_idx = interval_idx l, attempt = n, ticker = k, punch_sent = sent\<rparr>)"

datatype punch_event = Punch_cancelled | Listener_said "socket_addr option" | Punch_tick

fun punch_run ::
    "'k interval_api \<Rightarrow> byte list list \<Rightarrow> socket_addr \<Rightarrow> punch_event list \<Rightarrow> 'k punch_loop \<Rightarrow> socket_addr option option \<times> 'k punch_loop" where
  "punch_run api payloads peer [] l = (None, l)"
| "punch_run api payloads peer (Punch_cancelled # es) l = (Some None, l)"
| "punch_run api payloads peer (Listener_said a # es) l = (Some a, l)"
| "punch_run api payloads peer (Punch_tick # es) l = punch_run api payloads peer es (punch_tick api payloads peer l)"

text \<open>
  The task: random bytes \<open>rnd\<close> cut into the payloads, the loop, and the wait for the listener,
  whose reads are \<open>rs\<close>; the result is handed over only when both have ended.
\<close>

fun cut_payloads :: "nat list \<Rightarrow> byte list \<Rightarrow> byte list list" where
  "cut_payloads [] rnd = []"
| "cut_payloads (n # ns) rnd = take n rnd # cut_payloads ns (drop n rnd)"

definition start_hole_punching ::
    "'k interval_api \<Rightarrow> instant \<Rightarrow> byte list \<Rightarrow> socket_addr \<Rightarrow> punch_event list \<Rightarrow> punch_read list
     \<Rightarrow> socket_addr option option \<times> (instant \<times> byte list \<times> socket_addr) list" where
  "start_hole_punching api t rnd peer es rs =
     (let (r, l) = punch_run api (cut_payloads PUNCH_PAYLOAD_SIZES rnd) peer es (punch_start api t)
      in (case listen_for_punch (Some (sock_ip peer)) rs of None \<Rightarrow> None | Some _ \<Rightarrow> r, punch_sent l))"

datatype punch_outcome = Observed socket_addr | Aborted | Punch_timed_out

text \<open>The result of the punch task, when it ends before the timeout; a dropped channel is \<open>Some None\<close>.\<close>

definition await_punch :: "socket_addr option option \<Rightarrow> punch_outcome" where
  "await_punch r = (case r of None \<Rightarrow> Punch_timed_out | Some (Some addr) \<Rightarrow> Observed addr | Some None \<Rightarrow> Aborted)"

text \<open>
  What is documented of the ticker: it ticks first at the given time and then every period; a reset
  moves the next tick and leaves the period alone.
\<close>

definition interval_documented :: "'k interval_api \<Rightarrow> ('k \<Rightarrow> duration) \<Rightarrow> bool" where
  "interval_documented api period \<longleftrightarrow>
     (\<forall>t p. next_tick api (interval_at api t p) = t \<and> period (interval_at api t p) = p)
     \<and> (\<forall>k. next_tick api (after_tick api k) = next_tick api k + period k \<and> period (after_tick api k) = period k)
     \<and> (\<forall>t d k. next_tick api (reset_after api t d k) = t + d \<and> period (reset_after api t d k) = period k)"

section \<open>Lemmas\<close>

lemma listen_for_punch_ip: "listen_for_punch (Some ip) rs = Some (Some a) \<Longrightarrow> sock_ip a = ip"
  by (induction "Some ip" rs rule: listen_for_punch.induct) (auto split: if_splits option.splits)

text \<open>
  The events the loop sees of the listener are what the listener hands over: the address it
  observed, or nothing when it was cancelled.
\<close>

definition said_by :: "punch_read list \<Rightarrow> socket_addr \<Rightarrow> punch_event list \<Rightarrow> bool" where
  "said_by rs peer es \<longleftrightarrow> (\<forall>a. Listener_said a \<in> set es \<longrightarrow> listen_for_punch (Some (sock_ip peer)) rs = Some a)"

lemma punch_run_said: "fst (punch_run api ps peer es l) = Some (Some a) \<Longrightarrow> Listener_said (Some a) \<in> set es"
  by (induction api ps peer es l rule: punch_run.induct) auto

lemma start_hole_punching_ip:
  assumes "said_by rs peer es" "fst (start_hole_punching api t rnd peer es rs) = Some (Some a)"
  shows "sock_ip a = sock_ip peer"
proof -
  have "fst (punch_run api (cut_payloads PUNCH_PAYLOAD_SIZES rnd) peer es (punch_start api t)) = Some (Some a)"
    using assms(2) by (simp add: start_hole_punching_def case_prod_beta Let_def split: option.splits)
  then have "Listener_said (Some a) \<in> set es" by (rule punch_run_said)
  then have "listen_for_punch (Some (sock_ip peer)) rs = Some (Some a)" using assms(1) by (simp add: said_by_def)
  then show ?thesis by (rule listen_for_punch_ip)
qed

text \<open>The times of the ticks, in milliseconds from the start: every 50, but for two longer gaps.\<close>

definition tick_ms :: "nat \<Rightarrow> nat" where
  "tick_ms n = 50 * Suc n + (if n \<ge> 5 then 50 else 0) + (if n \<ge> 10 then 150 else 0)"

lemma from_millis_add: "from_millis a + from_millis b = from_millis (a + b)"
  by (simp add: from_millis_def algebra_simps)

lemma cut_payloads_nth:
  "i < length ns \<Longrightarrow> sum_list ns \<le> length rnd \<Longrightarrow> length (cut_payloads ns rnd ! i) = ns ! i"
  by (induction ns rnd arbitrary: i rule: cut_payloads.induct) (auto simp: nth_Cons')

definition loop_at :: "'k interval_api \<Rightarrow> ('k \<Rightarrow> duration) \<Rightarrow> instant \<Rightarrow> byte list list \<Rightarrow> socket_addr \<Rightarrow> nat \<Rightarrow> 'k punch_loop \<Rightarrow> bool" where
  "loop_at api period t ps peer n l \<longleftrightarrow>
     unat (attempt l) = n \<and> interval_idx l = min (n div 5) 2
     \<and> period (ticker l) = from_millis 50 \<and> next_tick api (ticker l) = t + from_millis (tick_ms n)
     \<and> punch_sent l = map (\<lambda>k. (t + from_millis (tick_ms k), ps ! (k mod 4), peer)) [0..<n]"

lemma loop_at_start: "interval_documented api period \<Longrightarrow> loop_at api period t ps peer 0 (punch_start api t)"
  by (simp add: loop_at_def punch_start_def interval_documented_def PUNCH_INTERVALS_def tick_ms_def)

lemma loop_at_tick:
  assumes doc: "interval_documented api period" and l: "loop_at api period t ps peer n l" and n: "Suc n < 2 ^ 32"
  shows "loop_at api period t ps peer (Suc n) (punch_tick api ps peer l)"
proof -
  have att: "unat (attempt l + 1) = Suc n" and idx: "interval_idx l = min (n div 5) 2"
    and tk: "period (ticker l) = from_millis 50" "next_tick api (ticker l) = t + from_millis (tick_ms n)"
    using l n by (simp_all add: loop_at_def unat_word_ariths)
  have sent: "punch_sent (punch_tick api ps peer l) = map (\<lambda>k. (t + from_millis (tick_ms k), ps ! (k mod 4), peer)) [0..<Suc n]"
    using l by (simp add: loop_at_def punch_tick_def Let_def PUNCH_PAYLOAD_SIZES_def)
  note step = punch_tick_def [of api ps peer l, unfolded Let_def att idx PUNCH_INTERVAL_CHANGE_def]
  have att': "attempt (punch_tick api ps peer l) = attempt l + 1" by (simp add: step)
  note doc' = doc [unfolded interval_documented_def]
  show ?thesis
  proof (cases "Suc n mod 5 = 0 \<and> n div 5 < 2")
    case True
    then have cond: "Suc n mod 5 = 0 \<and> min (n div 5) 2 < length PUNCH_INTERVALS - 1" by (simp add: PUNCH_INTERVALS_def)
    from True have n49: "n = 4 \<or> n = 9" by presburger
    then have "interval_idx (punch_tick api ps peer l) = min (Suc n div 5) 2"
      and "next_tick api (ticker (punch_tick api ps peer l)) = t + from_millis (tick_ms (Suc n))"
      unfolding step if_P [OF cond] using doc' tk by (auto simp: PUNCH_INTERVALS_def tick_ms_def from_millis_add add.assoc)
    moreover have "period (ticker (punch_tick api ps peer l)) = from_millis 50"
      unfolding step if_P [OF cond] using doc' tk by simp
    ultimately show ?thesis using att att' sent by (simp add: loop_at_def)
  next
    case False
    then have cond: "\<not> (Suc n mod 5 = 0 \<and> min (n div 5) 2 < length PUNCH_INTERVALS - 1)" by (auto simp: PUNCH_INTERVALS_def)
    from False have "n \<noteq> 4" "n \<noteq> 9" and d: "min (Suc n div 5) 2 = min (n div 5) 2" by (auto simp: div_Suc)
    then have "tick_ms (Suc n) = tick_ms n + 50" by (simp add: tick_ms_def)
    then have "ticker (punch_tick api ps peer l) = after_tick api (ticker l)"
      "next_tick api (after_tick api (ticker l)) = t + from_millis (tick_ms (Suc n))"
      "interval_idx (punch_tick api ps peer l) = min (Suc n div 5) 2"
      unfolding step if_not_P [OF cond] using doc' tk d by (simp_all add: from_millis_add add.assoc)
    with doc' tk att att' sent show ?thesis by (simp add: loop_at_def)
  qed
qed

lemma loop_at_ticks:
  assumes "interval_documented api period" "n < 2 ^ 32"
  shows "loop_at api period t ps peer n ((punch_tick api ps peer ^^ n) (punch_start api t))"
  using assms(2)
proof (induction n)
  case (Suc n)
  then show ?case using loop_at_tick [OF assms(1), of t ps peer n] by simp
qed (simp add: loop_at_start [OF assms(1)])

section \<open>Properties\<close>

text \<open>
  The schedule of the hole punch. After \<open>n\<close> ticks exactly \<open>n\<close> datagrams have been sent, all to the
  peer, going round the four payloads. The interval does not grow as the table of intervals means
  it to: the reset after the fifth and the tenth datagram delays one tick each, and from the
  eleventh datagram on they are 50 milliseconds apart again.
\<close>

theorem punch_schedule:
  fixes peer :: socket_addr and period :: "'k \<Rightarrow> duration" and t :: instant
  assumes "interval_documented api period" "n < 2 ^ 32" "sum_list PUNCH_PAYLOAD_SIZES \<le> length rnd"
  defines "l \<equiv> (punch_tick api (cut_payloads PUNCH_PAYLOAD_SIZES rnd) peer ^^ n) (punch_start api t)"
  shows "map (\<lambda>(_, p, _). length p) (punch_sent l) = map (\<lambda>k. PUNCH_PAYLOAD_SIZES ! (k mod length PUNCH_PAYLOAD_SIZES)) [0..<n]
    \<and> (\<forall>x \<in> set (punch_sent l). snd (snd x) = peer)
    \<and> interval_idx l = min (n div PUNCH_INTERVAL_CHANGE) (length PUNCH_INTERVALS - 1)
    \<and> (\<forall>k. 10 \<le> k \<and> Suc k < n \<longrightarrow> fst (punch_sent l ! Suc k) = fst (punch_sent l ! k) + from_millis 50)"
proof -
  let ?ps = "cut_payloads PUNCH_PAYLOAD_SIZES rnd"
  have l: "loop_at api period t ?ps peer n l" unfolding l_def by (rule loop_at_ticks [OF assms(1,2)])
  have len: "length (?ps ! (k mod 4)) = PUNCH_PAYLOAD_SIZES ! (k mod 4)" for k
    using assms(3) by (intro cut_payloads_nth) (simp_all add: PUNCH_PAYLOAD_SIZES_def)
  have "length PUNCH_PAYLOAD_SIZES = 4" by (simp add: PUNCH_PAYLOAD_SIZES_def)
  with l show ?thesis
    by (auto simp: loop_at_def len PUNCH_INTERVAL_CHANGE_def PUNCH_INTERVALS_def tick_ms_def from_millis_def algebra_simps)
qed

text \<open>A ticker that does as documented: the next tick and the period.\<close>

definition plain_interval :: "(instant \<times> duration) interval_api" where
  "plain_interval = \<lparr>interval_at = Pair, next_tick = fst, after_tick = (\<lambda>(t, p). (t + p, p)), reset_after = (\<lambda>t d (_, p). (t + d, p))\<rparr>"

lemma plain_interval_documented: "interval_documented plain_interval snd"
  by (simp add: interval_documented_def plain_interval_def case_prod_beta)

theorem punch_schedule_witness:
  "interval_idx ((punch_tick plain_interval (cut_payloads PUNCH_PAYLOAD_SIZES (replicate 355 0)) (SockV4 1 2) ^^ 12) (punch_start plain_interval 0))
     = min (12 div PUNCH_INTERVAL_CHANGE) (length PUNCH_INTERVALS - 1)"
  using punch_schedule [OF plain_interval_documented, of 12 "replicate 355 0" "SockV4 1 2" 0] by (simp add: PUNCH_PAYLOAD_SIZES_def)

end
