(* ===== verification/Connect.thy ===== *)
theory Connect
  imports Exchange_Loop Code_Gen Resolver Transport Punch
begin

text \<open>
  \<^verbatim>\<open>crates/qvole-protocol/src/connect.rs\<close>: from a code to a connection. The exchange, the hole punch and
  the TLS configurations are those of the theories Exchange, Punch and Transport; the record \<open>world\<close>
  holds what comes from outside: random bytes, the clock, the name service, the results of the socket
  calls, the datagrams of the exchange, the events of the punch and of the QUIC endpoint.
\<close>

section \<open>Definitions\<close>

text \<open>
  Error texts of the QUIC library are left as they are; an error of our own verifier or
  configuration is kept as the value it is made from.
\<close>

datatype failure = Failure_text string | Failure_tls tls_error | Failure_config quic_config_error

datatype connect_error =
    Generate_code code_error | Generate_cert cert_error | Resolve_relay string | Dial_relay string
  | Exchange_failed exchange_error | Rebind string | Resolve_peer string | Invalid_peer_addr string
  | Listen failure | Accept failure | Dial failure

record connected =
  con_server :: bool
  con_peer :: socket_addr
  con_local :: socket_addr
  con_cert :: self_signed_cert

definition is_unspecified :: "ip_addr \<Rightarrow> bool" where
  "is_unspecified ip = (case ip of V4 a \<Rightarrow> a = 0 | V6 a \<Rightarrow> a = 0)"

definition is_multicast :: "ip_addr \<Rightarrow> bool" where
  "is_multicast ip = (case ip of V4 a \<Rightarrow> drop_bit 28 a = 0xE | V6 a \<Rightarrow> drop_bit 120 a = 0xFF)"

definition usable_peer :: "socket_addr \<Rightarrow> bool" where
  "usable_peer a \<longleftrightarrow> \<not> (is_unspecified (sock_ip a) \<or> is_multicast (sock_ip a) \<or> sock_ip a = V4 0xFFFFFFFF \<or> sock_port a = 0)"

definition corrected_peer :: "socket_addr \<Rightarrow> punch_outcome \<Rightarrow> socket_addr" where
  "corrected_peer peer outcome =
     (case outcome of
        Observed a \<Rightarrow> if sock_ip a = sock_ip peer \<and> sock_port a \<noteq> sock_port peer then a else peer
      | Aborted \<Rightarrow> peer
      | Punch_timed_out \<Rightarrow> peer)"

text \<open>The local address the exchange socket is bound to.\<close>

definition bind_addr_for :: "socket_addr \<Rightarrow> string" where
  "bind_addr_for relay = (case relay of SockV4 _ _ \<Rightarrow> ''0.0.0.0:0'' | SockV6 _ _ _ \<Rightarrow> ''[::]:0'')"

subsection \<open>The handshake\<close>

datatype incoming_event = Accept_deadline | Incoming | Endpoint_closed | Accept_cancelled

text \<open>How a handshake ends, on the server's side with what the client showed, if anything.\<close>

datatype 's handshake_end = Handshake_done "string + 's" | Handshake_timeout | Handshake_cancelled

definition handshake_result :: "(failure \<Rightarrow> connect_error) \<Rightarrow> ('s \<Rightarrow> tls_error + unit) \<Rightarrow> 's handshake_end \<Rightarrow> connect_error + unit" where
  "handshake_result err checks h =
     (case h of
        Handshake_timeout \<Rightarrow> Inl (err (Failure_text ''handshake timeout''))
      | Handshake_cancelled \<Rightarrow> Inl (err (Failure_text ''context canceled''))
      | Handshake_done (Inl e) \<Rightarrow> Inl (err (Failure_text e))
      | Handshake_done (Inr s) \<Rightarrow> (case checks s of Inl e \<Rightarrow> Inl (err (Failure_tls e)) | Inr _ \<Rightarrow> Inr ()))"

fun await_incoming :: "incoming_event list \<Rightarrow> (connect_error + unit) option" where
  "await_incoming [] = None"
| "await_incoming (Accept_deadline # es) = Some (Inl (Accept (Failure_text ''handshake timeout'')))"
| "await_incoming (Incoming # es) = Some (Inr ())"
| "await_incoming (Endpoint_closed # es) = await_incoming es"
| "await_incoming (Accept_cancelled # es) = Some (Inl (Accept (Failure_text ''context canceled'')))"

definition accept_quic ::
    "'p crypto \<Rightarrow> pki \<Rightarrow> server_config \<Rightarrow> incoming_event list \<Rightarrow> shown option handshake_end \<Rightarrow> (connect_error + unit) option" where
  "accept_quic c k sc es h =
     (case await_incoming es of
        None \<Rightarrow> None
      | Some (Inl e) \<Rightarrow> Some (Inl e)
      | Some (Inr _) \<Rightarrow> Some (handshake_result Accept (server_checks c k (sc_tls sc)) h))"

definition dial_quic ::
    "'p crypto \<Rightarrow> pki \<Rightarrow> tls_library \<Rightarrow> (string \<Rightarrow> string option) \<Rightarrow> self_signed_cert \<Rightarrow> byte list \<Rightarrow> peer_config
     \<Rightarrow> (socket_addr \<Rightarrow> string option) \<Rightarrow> (socket_addr \<Rightarrow> shown handshake_end) \<Rightarrow> socket_addr \<Rightarrow> connect_error + unit" where
  "dial_quic c k l getenv cert peer_fp pc no_connect h peer =
     (case quic_client_config l getenv cert peer_fp pc of
        Inl e \<Rightarrow> Inl (Dial (Failure_config e))
      | Inr cc \<Rightarrow>
          (case no_connect peer of
             Some e \<Rightarrow> Inl (Dial (Failure_text e))
           | None \<Rightarrow> handshake_result Dial (client_checks c k (cc_tls cc)) (h peer)))"

text \<open>
  \<open>endpoint_error\<close> is the failure of the runtime, of cloning the socket or of the endpoint itself.
  The result has the server's configuration, when this side is the server.
\<close>

definition make_endpoint ::
    "tls_library \<Rightarrow> (string \<Rightarrow> string option) \<Rightarrow> string option \<Rightarrow> self_signed_cert \<Rightarrow> byte list \<Rightarrow> bool \<Rightarrow> peer_config
     \<Rightarrow> connect_error + server_config option" where
  "make_endpoint l getenv endpoint_error cert peer_fp server pc =
     (let finish = (\<lambda>sc. case endpoint_error of Some e \<Rightarrow> Inl (Listen (Failure_text e)) | None \<Rightarrow> Inr sc)
      in if server
         then (case quic_server_config l getenv cert peer_fp pc of
                 Inl e \<Rightarrow> Inl (Listen (Failure_config e))
               | Inr sc \<Rightarrow> finish (Some sc))
         else finish None)"

text \<open>The keep-alive helper: what it has sent.\<close>

datatype helper_event = Helper_cancelled | Helper_timeout | Helper_tick

fun start_helper :: "socket_addr \<Rightarrow> helper_event list \<Rightarrow> (byte list \<times> socket_addr) list" where
  "start_helper peer [] = []"
| "start_helper peer (Helper_cancelled # es) = []"
| "start_helper peer (Helper_timeout # es) = []"
| "start_helper peer (Helper_tick # es) = (KEEPALIVE_PAYLOAD, peer) # start_helper peer es"

subsection \<open>Connecting\<close>

record ('p, 'k) world =
  w_crypto :: "'p crypto"
  w_pki :: pki
  w_library :: tls_library
  w_getenv :: "string \<Rightarrow> string option"
  w_words :: "string list"
  w_draws :: "nat \<Rightarrow> u16"
  w_keypair :: "string + byte list"
  w_serial :: "byte list"
  w_clock :: nat
  w_sign :: "certificate_params \<Rightarrow> byte list \<Rightarrow> string + byte list"
  w_dns :: "string \<Rightarrow> string + socket_addr list"
  w_services :: "string option"
  w_socket :: "string \<Rightarrow> socket_addr \<Rightarrow> string + socket_addr"
  w_priv_m :: "byte list"
  w_priv_n :: "byte list"
  w_start :: instant
  w_turns :: "turn_input list"
  w_rebind :: "socket_addr \<Rightarrow> string option"
  w_interval :: "'k interval_api"
  w_punch_rand :: "byte list"
  w_punch_start :: instant
  w_punch_events :: "socket_addr \<Rightarrow> punch_event list"
  w_punch_reads :: "punch_read list"
  w_punch_in_time :: bool
  w_helper :: "helper_event list"
  w_endpoint_error :: "string option"
  w_accepts :: "incoming_event list"
  w_server_end :: "shown option handshake_end"
  w_no_connect :: "socket_addr \<Rightarrow> string option"
  w_client_end :: "socket_addr \<Rightarrow> shown handshake_end"

text \<open>\<open>None\<close> while the exchange goes on, or for its panics.\<close>

definition register_and_exchange ::
    "('p, 'k) world \<Rightarrow> socket_addr \<Rightarrow> string \<Rightarrow> string \<Rightarrow> byte list \<Rightarrow> peer_config \<Rightarrow> (exchange_error + string \<times> byte list \<times> bool) option" where
  "register_and_exchange w loc room code my_fp pc =
     (case exchange_start (w_crypto w) (w_getenv w) (w_priv_m w) (w_priv_n w) loc (w_start w) room code my_fp pc of
        None \<Rightarrow> None
      | Some (p, st) \<Rightarrow>
          (case exchange_run (w_crypto w) p (w_turns w) st of None \<Rightarrow> None | Some (r, _, _) \<Rightarrow> r))"

text \<open>The outcome of the punch, and the datagrams sent for it.\<close>

definition punch_peer :: "('p, 'k) world \<Rightarrow> socket_addr \<Rightarrow> punch_outcome \<times> (byte list \<times> socket_addr) list" where
  "punch_peer w peer =
     (let (r, sent) = start_hole_punching (w_interval w) (w_punch_start w) (w_punch_rand w) peer (w_punch_events w peer) (w_punch_reads w)
      in (await_punch (if w_punch_in_time w then r else None), map snd sent))"

definition quic_up :: "('p, 'k) world \<Rightarrow> peer_config \<Rightarrow> self_signed_cert \<Rightarrow> byte list \<Rightarrow> bool \<Rightarrow> socket_addr \<Rightarrow> (connect_error + unit) option" where
  "quic_up w pc cert peer_fp server peer =
     (case make_endpoint (w_library w) (w_getenv w) (w_endpoint_error w) cert peer_fp server pc of
        Inl e \<Rightarrow> Some (Inl e)
      | Inr (Some sc) \<Rightarrow> accept_quic (w_crypto w) (w_pki w) sc (w_accepts w) (w_server_end w)
      | Inr None \<Rightarrow>
          Some (dial_quic (w_crypto w) (w_pki w) (w_library w) (w_getenv w) cert peer_fp pc (w_no_connect w) (w_client_end w) peer))"

text \<open>From the exchange's result to the connection; the second part is every datagram sent at the peer.\<close>

definition connect_to ::
    "('p, 'k) world \<Rightarrow> peer_config \<Rightarrow> self_signed_cert \<Rightarrow> socket_addr \<Rightarrow> string \<times> byte list \<times> bool
     \<Rightarrow> ((connect_error + connected) \<times> (byte list \<times> socket_addr) list) option" where
  "connect_to w pc cert loc res =
     (case res of (peer_text, peer_fp, server) \<Rightarrow>
      case w_rebind w loc of
        Some e \<Rightarrow> Some (Inl (Rebind e), [])
      | None \<Rightarrow>
     (case parse_socket_addr peer_text of
        None \<Rightarrow> Some (Inl (Resolve_peer peer_text), [])
      | Some peer \<Rightarrow>
          if \<not> usable_peer peer then Some (Inl (Invalid_peer_addr peer_text), [])
          else
            let (outcome, punches) = punch_peer w peer;
                peer = corrected_peer peer outcome;
                con = \<lparr>con_server = server, con_peer = peer, con_local = loc, con_cert = cert\<rparr>
            in map_option (\<lambda>r. (map_sum id (\<lambda>_. con) r, punches @ start_helper peer (w_helper w)))
                 (quic_up w pc cert peer_fp server peer)))"

definition connect_with ::
    "('p, 'k) world \<Rightarrow> peer_config \<Rightarrow> string \<Rightarrow> string \<Rightarrow> ((connect_error + connected) \<times> (byte list \<times> socket_addr) list) option" where
  "connect_with w pc relay_addr code =
     (let room = nameplate (w_crypto w) code
      in case generate_self_signed_cert (w_crypto w) (w_keypair w) (w_serial w) (w_clock w) (w_sign w) CERT_COMMON_NAME of
           Inl e \<Rightarrow> Some (Inl (Generate_cert e), [])
         | Inr cert \<Rightarrow>
     (case resolve_udp_addr (w_dns w) (w_services w) relay_addr of
        Inl e \<Rightarrow> Some (Inl (Resolve_relay e), [])
      | Inr relay \<Rightarrow>
     (case w_socket w (bind_addr_for relay) relay of
        Inl e \<Rightarrow> Some (Inl (Dial_relay e), [])
      | Inr loc \<Rightarrow>
     (case register_and_exchange w loc room code (cert_fp cert) pc of
        None \<Rightarrow> None
      | Some (Inl e) \<Rightarrow> Some (Inl (Exchange_failed e), [])
      | Some (Inr res) \<Rightarrow> connect_to w pc cert loc res))))"

text \<open>An empty code is replaced by a fresh one.\<close>

definition connect_inner ::
    "('p, 'k) world \<Rightarrow> peer_config \<Rightarrow> string \<Rightarrow> string \<Rightarrow> ((connect_error + connected) \<times> (byte list \<times> socket_addr) list) option" where
  "connect_inner w pc relay_addr code =
     (if code = []
      then (case generate_code (w_words w) (w_draws w) of
              None \<Rightarrow> None
            | Some (Inl e) \<Rightarrow> Some (Inl (Generate_code e), [])
            | Some (Inr fresh) \<Rightarrow> connect_with w pc relay_addr fresh)
      else connect_with w pc relay_addr code)"

definition connect_peer :: "('p, 'k) world \<Rightarrow> peer_config \<Rightarrow> string \<Rightarrow> string \<Rightarrow> (connect_error + connected) option" where
  "connect_peer w pc relay_addr code = map_option fst (connect_inner w pc relay_addr code)"

section \<open>Lemmas\<close>

lemma corrected_peer_ip: "sock_ip (corrected_peer peer outcome) = sock_ip peer"
  by (auto simp: corrected_peer_def split: punch_outcome.splits)

lemma start_helper_to: "x \<in> set (start_helper peer es) \<Longrightarrow> snd x = peer"
  by (induction peer es rule: start_helper.induct) auto

lemma punch_run_to: "\<forall>x \<in> set (punch_sent l). snd (snd x) = peer \<Longrightarrow> \<forall>x \<in> set (punch_sent (snd (punch_run api ps peer es l))). snd (snd x) = peer"
proof (induction api ps peer es l rule: punch_run.induct)
  case (4 api ps peer es l)
  have "\<forall>x \<in> set (punch_sent (punch_tick api ps peer l)). snd (snd x) = peer"
    using 4(2) by (simp add: punch_tick_def Let_def)
  with 4(1) show ?case by simp
qed simp_all

lemma punch_peer_to: "x \<in> set (snd (punch_peer w peer)) \<Longrightarrow> snd x = peer"
proof -
  assume "x \<in> set (snd (punch_peer w peer))"
  then obtain y where y: "x = snd y"
    "y \<in> set (punch_sent (snd (punch_run (w_interval w) (cut_payloads PUNCH_PAYLOAD_SIZES (w_punch_rand w)) peer (w_punch_events w peer)
        (punch_start (w_interval w) (w_punch_start w)))))"
    by (auto simp: punch_peer_def start_hole_punching_def case_prod_beta Let_def)
  with punch_run_to [of "punch_start (w_interval w) (w_punch_start w)" peer] show ?thesis by (auto simp: punch_start_def)
qed

lemma handshake_result_ok:
  "handshake_result err checks h = Inr () \<longleftrightarrow> (\<exists>s. h = Handshake_done (Inr s) \<and> checks s = Inr ())"
  by (auto simp: handshake_result_def split: handshake_end.splits sum.splits)

lemma map_sum_Inr: "map_sum f g r = Inr x \<longleftrightarrow> (\<exists>y. r = Inr y \<and> x = g y)"
  by (cases r) auto

lemma quic_up_ok:
  assumes "quic_up w pc cert fp server peer = Some (Inr ())"
  shows "\<exists>s. (if server then w_server_end w = Handshake_done (Inr (Some s)) else w_client_end w peer = Handshake_done (Inr s))
    \<and> sha256 (w_crypto w) (sh_cert s) = fp \<and> verify_pinned_signature (w_pki w) s = Inr ()"
proof (cases server)
  case True
  with assms obtain sc where sc: "quic_server_config (w_library w) (w_getenv w) cert fp pc = Inr sc"
    "accept_quic (w_crypto w) (w_pki w) sc (w_accepts w) (w_server_end w) = Some (Inr ())"
    unfolding quic_up_def make_endpoint_def by (auto simp: Let_def split: option.splits sum.splits)
  then obtain s where s: "w_server_end w = Handshake_done (Inr s)" "server_checks (w_crypto w) (w_pki w) (sc_tls sc) s = Inr ()"
    unfolding accept_quic_def by (auto simp: handshake_result_ok split: option.splits sum.splits)
  then show ?thesis using True quic_configs_pin(2) [OF sc(1)] by (auto simp: server_checks_ok)
next
  case False
  with assms have "dial_quic (w_crypto w) (w_pki w) (w_library w) (w_getenv w) cert fp pc (w_no_connect w) (w_client_end w) peer = Inr ()"
    unfolding quic_up_def make_endpoint_def by (auto simp: Let_def split: option.splits sum.splits)
  then obtain cc where cc: "quic_client_config (w_library w) (w_getenv w) cert fp pc = Inr cc"
    "handshake_result Dial (client_checks (w_crypto w) (w_pki w) (cc_tls cc)) (w_client_end w peer) = Inr ()"
    unfolding dial_quic_def by (auto split: sum.splits option.splits)
  then show ?thesis using False quic_configs_pin(1) [OF cc(1)] by (auto simp: handshake_result_ok client_checks_ok)
qed

lemma connect_to_ok:
  assumes "connect_to w pc cert loc (addr, fp, server) = Some (Inr con, probes)"
  shows "con_server con = server \<and> con_cert con = cert
    \<and> (\<exists>peer. parse_socket_addr addr = Some peer \<and> usable_peer peer
        \<and> con_peer con = corrected_peer peer (fst (punch_peer w peer))
        \<and> quic_up w pc cert fp server (con_peer con) = Some (Inr ())
        \<and> probes = snd (punch_peer w peer) @ start_helper (con_peer con) (w_helper w))"
  using assms unfolding connect_to_def
  by (auto simp: case_prod_beta Let_def map_sum_Inr split: option.splits if_splits)

lemma connect_with_ok:
  assumes "connect_with w pc relay_addr code = Some (Inr con, probes)"
  obtains loc addr fp where
    "generate_self_signed_cert (w_crypto w) (w_keypair w) (w_serial w) (w_clock w) (w_sign w) CERT_COMMON_NAME = Inr (con_cert con)"
    "register_and_exchange w loc (nameplate (w_crypto w) code) code (cert_fp (con_cert con)) pc = Some (Inr (addr, fp, con_server con))"
    "connect_to w pc (con_cert con) loc (addr, fp, con_server con) = Some (Inr con, probes)"
proof -
  from assms obtain cert loc res where r:
    "generate_self_signed_cert (w_crypto w) (w_keypair w) (w_serial w) (w_clock w) (w_sign w) CERT_COMMON_NAME = Inr cert"
    "register_and_exchange w loc (nameplate (w_crypto w) code) code (cert_fp cert) pc = Some (Inr res)"
    "connect_to w pc cert loc res = Some (Inr con, probes)"
    by (auto simp: connect_with_def Let_def split: sum.splits option.splits)
  obtain addr fp server where res: "res = (addr, fp, server)" by (cases res)
  with connect_to_ok r(3) have "con_cert con = cert \<and> con_server con = server" by blast
  with r that show thesis unfolding res by auto
qed

section \<open>Properties\<close>


text \<open>A world in which one peer connects.\<close>

definition demo_world :: "turn_input list \<Rightarrow> (zn, instant \<times> duration) world" where
  "demo_world turns = \<lparr>w_crypto = toy_crypto, w_pki = \<lparr>pki_readable = (\<lambda>_. True), pki_verify = (\<lambda>_ _ _. None)\<rparr>,
     w_library = \<lparr>lib_refuses = (\<lambda>_. None), lib_no_quic = None\<rparr>, w_getenv = (\<lambda>_. None), w_words = [], w_draws = (\<lambda>_. 0),
     w_keypair = Inr [7], w_serial = replicate 16 0, w_clock = 0, w_sign = (\<lambda>_ _. Inr [1, 1]),
     w_dns = (\<lambda>_. Inr [host_a]), w_services = None, w_socket = (\<lambda>_ _. Inr host_a),
     w_priv_m = nat_be 32 2, w_priv_n = nat_be 32 3, w_start = 0, w_turns = turns, w_rebind = (\<lambda>_. None),
     w_interval = plain_interval, w_punch_rand = replicate 355 0, w_punch_start = 0, w_punch_events = (\<lambda>_. [Punch_tick]),
     w_punch_reads = [], w_punch_in_time = False, w_helper = [Helper_tick], w_endpoint_error = None, w_accepts = [Incoming],
     w_server_end = Handshake_done (Inr (Some \<lparr>sh_cert = [9], sh_message = [], sh_scheme = ECDSA_NISTP256_SHA256, sh_signature = []\<rparr>)),
     w_no_connect = (\<lambda>_. None),
     w_client_end = (\<lambda>_. Handshake_done (Inr \<lparr>sh_cert = [9], sh_message = [], sh_scheme = ECDSA_NISTP256_SHA256, sh_signature = []\<rparr>))\<rparr>"

definition demo_own_cert :: self_signed_cert where
  "demo_own_cert = \<lparr>cert_der = [1, 1], cert_key = [7], cert_fp = nat_be 32 1\<rparr>"

lemma demo_world_cert:
  "generate_self_signed_cert (w_crypto (demo_world ts)) (w_keypair (demo_world ts)) (w_serial (demo_world ts)) (w_clock (demo_world ts))
     (w_sign (demo_world ts)) CERT_COMMON_NAME = Inr demo_own_cert"
  by (simp add: demo_world_def generate_self_signed_cert_def cert_fingerprint_def toy_crypto_def demo_own_cert_def)

lemma demo_world_relay: "resolve_udp_addr (w_dns (demo_world ts)) (w_services (demo_world ts)) '':'' = Inr (SockV4 0 0)"
proof -
  have "split_host_port '':'' = Inr ([], [])"
    using split_join [of "[]" "[]"] by (simp add: join_host_port_def host_text_def)
  then show ?thesis by (simp add: resolve_udp_addr_def demo_world_def empty_port_is_zero)
qed

lemma demo_world_room: "nameplate toy_crypto ''codecode'' = ''00000000''"
  by (simp add: nameplate_def is_generated_code_def toy_crypto_def) code_simp

lemma demo_world_connects: "\<exists>ts con probes. connect_with (demo_world ts) demo_cfg '':'' ''codecode'' = Some (Inr con, probes)"
proof -
  obtain ts st' out server where run:
    "exchange_run toy_crypto (demo_params toy_alice (nat_be 32 1)) ts (demo_state host_a)
       = Some (Some (Inr (my_addr (demo_state host_b), nat_be 32 2, server)), st', out)"
    by (rule demo_run)
  have w: "w_crypto (demo_world ts) = toy_crypto" "w_socket (demo_world ts) = (\<lambda>_ _. Inr host_a)" by (simp_all add: demo_world_def)
  have "register_and_exchange (demo_world ts) host_a ''00000000'' ''codecode'' (nat_be 32 1) demo_cfg
      = Some (Inr (my_addr (demo_state host_b), nat_be 32 2, server))"
    using run demo_start by (simp add: register_and_exchange_def demo_world_def)
  then have "connect_with (demo_world ts) demo_cfg '':'' ''codecode''
      = connect_to (demo_world ts) demo_cfg demo_own_cert host_a (my_addr (demo_state host_b), nat_be 32 2, server)"
    unfolding connect_with_def Let_def demo_world_cert demo_world_relay by (simp add: w demo_world_room) (simp add: demo_own_cert_def)
  moreover have "parse_socket_addr (my_addr (demo_state host_b)) = Some host_b"
  proof -
    have "my_addr (demo_state host_b) = sock_str host_b" by (simp add: demo_state_def host_b_def)
    then show ?thesis by (simp add: host_b_def parse_sock_str_v4 del: sock_str.simps)
  qed
  moreover have "usable_peer host_b" by (simp add: usable_peer_def host_b_def is_unspecified_def is_multicast_def)
  moreover have "quic_up (demo_world ts) demo_cfg demo_own_cert (nat_be 32 2) server peer = Some (Inr ())" for peer
    by (simp add: quic_up_def make_endpoint_def demo_world_def quic_server_config_def server_tls_config_def dial_quic_def
        quic_client_config_def client_tls_config_def accept_quic_def handshake_result_def server_checks_def client_checks_def
        verify_client_cert_def verify_server_cert_def check_fingerprint_def verify_tls13_signature_def verify_pinned_signature_def
        toy_crypto_def)
  moreover have "w_rebind (demo_world ts) host_a = None" by (simp add: demo_world_def)
  ultimately show ?thesis
    by (intro exI [of _ ts]) (simp add: connect_to_def case_prod_beta Let_def)
qed


end
