(* ===== verification/Tunnel_Guard.thy ===== *)
theory Tunnel_Guard
  imports Connect "HOL-Library.Multiset"
begin

text \<open>
  \<^verbatim>\<open>crates/qvole-app/src/tunnel.rs\<close>: the limits on concurrent streams. The outbound guard is one
  semaphore for the process that is replaced when a session asks for another size; the stream
  acceptor has a semaphore of its own. \<^verbatim>\<open>tokio::sync::Semaphore\<close> is a number of free permits;
  creating one with more than \<open>max_permits\<close> permits panics, as its documentation says.
\<close>

section \<open>A pool of permits\<close>

text \<open>
  What both limits promise: taking a permit fails exactly when none is free, otherwise it takes
  one, and giving one back frees one. A trace of takes and returns, in which nobody returns what
  was not taken, never has more permits out than were free at the start.
\<close>

datatype permit_event = Take | Give

locale permit_pool =
  fixes take_permit :: "'s \<Rightarrow> 's option" and give_permit :: "'s \<Rightarrow> 's" and free :: "'s \<Rightarrow> nat"
  assumes take_None: "take_permit s = None \<longleftrightarrow> free s = 0"
    and take_Some: "take_permit s = Some s' \<Longrightarrow> free s = Suc (free s')"
    and give_free: "free (give_permit s) = Suc (free s)"
begin

fun pool_run :: "permit_event list \<Rightarrow> 's \<times> nat \<Rightarrow> 's \<times> nat" where
  "pool_run [] (s, out) = (s, out)"
| "pool_run (Take # es) (s, out) =
     (case take_permit s of None \<Rightarrow> pool_run es (s, out) | Some s' \<Rightarrow> pool_run es (s', Suc out))"
| "pool_run (Give # es) (s, out) = (if out = 0 then pool_run es (s, out) else pool_run es (give_permit s, out - 1))"

lemma pool_run_conserves: "pool_run es (s, out) = (s', out') \<Longrightarrow> free s' + out' = free s + out"
proof (induction es arbitrary: s out)
  case (Cons e es)
  show ?case
  proof (cases e)
    case Take
    with Cons show ?thesis by (cases "take_permit s") (auto dest!: take_Some Cons.IH)
  next
    case Give
    with Cons show ?thesis by (auto simp: give_free dest!: Cons.IH split: if_splits)
  qed
qed simp

lemma pool_run_bound: "pool_run es (s, 0) = (s', out) \<Longrightarrow> out \<le> free s"
  using pool_run_conserves [of es s 0 s' out] by simp

lemma taken_iff: "(\<exists>s'. take_permit s = Some s') \<longleftrightarrow> 0 < free s"
  using take_None [of s] by (cases "take_permit s") auto

end

section \<open>The outbound guard\<close>

text \<open>
  The semaphores ever created are numbered; \<open>permits\<close> gives the free permits of each. The static
  \<^verbatim>\<open>OUTBOUND_GUARD\<close> is the size and number of the current one. The panic of \<^verbatim>\<open>Semaphore::new\<close> is
  \<open>None\<close>.
\<close>

record outbound =
  guard :: "(nat \<times> nat) option"
  created :: nat
  permits :: "nat \<Rightarrow> nat"

definition new_guard :: "nat \<Rightarrow> nat \<Rightarrow> outbound \<Rightarrow> outbound option" where
  "new_guard max_permits n g =
     (if n > max_permits then None
      else Some (g\<lparr>guard := Some (n, created g), created := created g + 1, permits := (permits g)(created g := n)\<rparr>))"

definition init_outbound_guard :: "nat \<Rightarrow> int \<Rightarrow> outbound \<Rightarrow> outbound option" where
  "init_outbound_guard max_permits n g =
     (let n = nat (max n 0)
      in case guard g of
           None \<Rightarrow> new_guard max_permits n g
         | Some (sz, _) \<Rightarrow> if sz \<noteq> n then new_guard max_permits n g else Some g)"

definition get_forward_max_streams :: "(string \<Rightarrow> string option) \<Rightarrow> u32 option \<Rightarrow> int" where
  "get_forward_max_streams getenv override_val =
     (case override_val of
        Some v \<Rightarrow> if v > 0 then uint v else env_int getenv ''QVOLE_FORWARD_MAX_STREAMS'' 200
      | None \<Rightarrow> env_int getenv ''QVOLE_FORWARD_MAX_STREAMS'' 200)"

text \<open>The number of the semaphore, creating it when there is none.\<close>

definition get_outbound_guard :: "nat \<Rightarrow> (string \<Rightarrow> string option) \<Rightarrow> outbound \<Rightarrow> (nat \<times> outbound) option" where
  "get_outbound_guard max_permits getenv g =
     (case guard g of
        Some (_, i) \<Rightarrow> Some (i, g)
      | None \<Rightarrow> map_option (\<lambda>g'. (created g, g'))
                  (new_guard max_permits (nat (max (get_forward_max_streams getenv None) 0)) g))"

definition try_acquire :: "nat \<Rightarrow> outbound \<Rightarrow> outbound option" where
  "try_acquire i g = (if permits g i = 0 then None else Some (g\<lparr>permits := (permits g)(i := permits g i - 1)\<rparr>))"

definition release :: "nat \<Rightarrow> outbound \<Rightarrow> outbound" where
  "release i g = g\<lparr>permits := (permits g)(i := permits g i + 1)\<rparr>"

interpretation outbound_pool: permit_pool "try_acquire i" "release i" "\<lambda>g. permits g i" for i
  by unfold_locales (auto simp: try_acquire_def release_def split: if_splits)

subsection \<open>The guard in a running process\<close>

text \<open>
  The process: sessions start and set the size, connections to a listener take a permit of the
  guard they find or are turned away, and end by giving the permit back to the semaphore they took
  it from, even when the guard has been replaced meanwhile. \<open>held\<close> lists the semaphores of the
  connections in flight.
\<close>

inductive guard_step :: "nat \<Rightarrow> (string \<Rightarrow> string option) \<Rightarrow> outbound \<times> nat multiset \<Rightarrow> outbound \<times> nat multiset \<Rightarrow> bool"
  for max_permits getenv where
  session: "init_outbound_guard max_permits n g = Some g' \<Longrightarrow> guard_step max_permits getenv (g, held) (g', held)"
| taken: "get_outbound_guard max_permits getenv g = Some (i, g') \<Longrightarrow> try_acquire i g' = Some g'' \<Longrightarrow>
    guard_step max_permits getenv (g, held) (g'', add_mset i held)"
| rejected: "get_outbound_guard max_permits getenv g = Some (i, g') \<Longrightarrow> try_acquire i g' = None \<Longrightarrow>
    guard_step max_permits getenv (g, held) (g', held)"
| finished: "i \<in># held \<Longrightarrow> guard_step max_permits getenv (g, held) (release i g, held - {#i#})"

inductive_cases guard_stepE: "guard_step max_permits getenv s s'"

inductive guard_reach :: "nat \<Rightarrow> (string \<Rightarrow> string option) \<Rightarrow> outbound \<times> nat multiset \<Rightarrow> bool"
  for max_permits getenv where
  start: "guard_reach max_permits getenv (\<lparr>guard = None, created = 0, permits = \<lambda>_. 0\<rparr>, {#})"
| more: "guard_reach max_permits getenv s \<Longrightarrow> guard_step max_permits getenv s s' \<Longrightarrow> guard_reach max_permits getenv s'"

definition guard_inv :: "outbound \<times> nat multiset \<Rightarrow> bool" where
  "guard_inv = (\<lambda>(g, held). (\<forall>i. created g \<le> i \<longrightarrow> i \<notin># held)
     \<and> (case guard g of None \<Rightarrow> True | Some (n, i) \<Rightarrow> i < created g \<and> permits g i + count held i = n))"

lemma new_guard_inv:
  assumes "new_guard m n g = Some g'" "guard_inv (g, held)"
  shows "guard_inv (g', held)" "guard g' = Some (n, created g)" "n \<le> m"
  using assms
  by (auto simp: new_guard_def guard_inv_def not_in_iff split: if_splits)

lemma init_guard_inv:
  assumes "init_outbound_guard m n g = Some g'" "guard_inv (g, held)"
  shows "guard_inv (g', held)" and "\<exists>i. guard g' = Some (nat (max n 0), i)"
  using assms new_guard_inv [of m _ g g' held]
  by (fastforce simp: init_outbound_guard_def Let_def split: option.splits if_splits)+

lemma get_guard_inv:
  assumes "get_outbound_guard m getenv g = Some (i, g')" "guard_inv (g, held)"
  shows "guard_inv (g', held)" and "\<exists>n. guard g' = Some (n, i)"
  using assms new_guard_inv [of m _ g g' held]
  by (auto simp: get_outbound_guard_def split: option.splits)

lemma acquire_inv:
  assumes "try_acquire i g = Some g'" "guard g = Some (n, i)" "guard_inv (g, held)"
  shows "guard_inv (g', add_mset i held)"
  using assms by (auto simp: try_acquire_def guard_inv_def split: if_splits)

lemma release_inv:
  assumes "i \<in># held" "guard_inv (g, held)"
  shows "guard_inv (release i g, held - {#i#})"
proof -
  have "0 < count held i" using assms(1) by simp
  with assms show ?thesis
    by (auto simp: release_def guard_inv_def dest: in_diffD split: option.splits)
qed

lemma guard_step_inv: "guard_step m getenv s s' \<Longrightarrow> guard_inv s \<Longrightarrow> guard_inv s'"
proof (induction rule: guard_step.induct)
  case (session n g g' held)
  then show ?case by (rule init_guard_inv(1))
next
  case (taken g i g' g'' held)
  from get_guard_inv [OF taken(1,3)] acquire_inv [OF taken(2)] show ?case by blast
next
  case (rejected g i g' held)
  show ?case by (rule get_guard_inv(1) [OF rejected(1,3)])
next
  case (finished i held g)
  then show ?case by (rule release_inv)
qed

lemma guard_reach_inv: "guard_reach m getenv s \<Longrightarrow> guard_inv s"
  by (induction rule: guard_reach.induct) (simp add: guard_inv_def, rule guard_step_inv)

section \<open>The acceptor's guard\<close>

text \<open>
  The loop of \<^verbatim>\<open>run_stream_acceptor\<close> waits for a stream, then for a permit, and starts a handler
  that gives the permit back when it ends; the loop ends when the session is cancelled or the
  connection fails. What happens is a list of events; one that the loop does not wait for at that
  point changes nothing but the count of handlers. An accept error is given with the answer of
  \<^verbatim>\<open>log_disconnect\<close>: whether the peer went away.
\<close>

datatype tunnel_error = Connect_failed connect_error | Canceled | Other string

definition is_canceled :: "tunnel_error \<Rightarrow> bool" where
  "is_canceled e \<longleftrightarrow> e = Canceled"

datatype accept_phase = Await_stream | Await_permit | Ended "tunnel_error + unit"

datatype accept_event = Stream_opened | Accept_failed bool string | Permit_free | Session_cancelled | Handler_done

record acceptor =
  phase :: accept_phase
  free_permits :: nat
  handlers :: nat

definition acceptor_start :: "nat \<Rightarrow> int \<Rightarrow> acceptor option" where
  "acceptor_start max_permits forward_max_streams =
     (let n = nat (max forward_max_streams 0)
      in if n > max_permits then None else Some \<lparr>phase = Await_stream, free_permits = n, handlers = 0\<rparr>)"

definition acceptor_take :: "acceptor \<Rightarrow> acceptor option" where
  "acceptor_take a = (if free_permits a = 0 then None else Some (a\<lparr>free_permits := free_permits a - 1\<rparr>))"

definition acceptor_give :: "acceptor \<Rightarrow> acceptor" where
  "acceptor_give a = a\<lparr>free_permits := free_permits a + 1\<rparr>"

interpretation acceptor_pool: permit_pool acceptor_take acceptor_give free_permits
  by unfold_locales (auto simp: acceptor_take_def acceptor_give_def split: if_splits)

fun acceptor_step :: "acceptor \<Rightarrow> accept_event \<Rightarrow> acceptor" where
  "acceptor_step a Handler_done =
     (if handlers a = 0 then a else (acceptor_give a)\<lparr>handlers := handlers a - 1\<rparr>)"
| "acceptor_step a Stream_opened = (if phase a = Await_stream then a\<lparr>phase := Await_permit\<rparr> else a)"
| "acceptor_step a (Accept_failed disconnect e) =
     (if phase a = Await_stream then a\<lparr>phase := Ended (if disconnect then Inr () else Inl (Other e))\<rparr> else a)"
| "acceptor_step a Permit_free =
     (if phase a = Await_permit
      then (case acceptor_take a of None \<Rightarrow> a | Some a' \<Rightarrow> a'\<lparr>phase := Await_stream, handlers := handlers a + 1\<rparr>)
      else a)"
| "acceptor_step a Session_cancelled =
     (case phase a of Ended _ \<Rightarrow> a | _ \<Rightarrow> a\<lparr>phase := Ended (Inl Canceled)\<rparr>)"

lemma acceptor_step_conserves:
  "free_permits (acceptor_step a e) + handlers (acceptor_step a e) = free_permits a + handlers a"
  by (cases e) (auto simp: acceptor_pool.give_free dest: acceptor_pool.take_Some split: accept_phase.splits option.splits)

lemma acceptor_run_conserves:
  "free_permits (foldl acceptor_step a es) + handlers (foldl acceptor_step a es) = free_permits a + handlers a"
  by (induction es arbitrary: a) (simp_all add: acceptor_step_conserves)

lemma acceptor_ended: "phase a = Ended r \<Longrightarrow> phase (foldl acceptor_step a es) = Ended r \<and> handlers (foldl acceptor_step a es) \<le> handlers a"
proof (induction es arbitrary: a)
  case (Cons e es)
  then have "phase (acceptor_step a e) = Ended r \<and> handlers (acceptor_step a e) \<le> handlers a"
    by (cases e) (auto simp: acceptor_give_def)
  with Cons.IH [of "acceptor_step a e"] show ?case by fastforce
qed simp

section \<open>Properties\<close>

text \<open>
  C26. The number of connections in flight that count against the current outbound guard is never
  more than its size, whatever sessions start, replace the guard and end: its free permits and the
  connections holding one always add up to its size, and a new connection is turned away exactly
  when that many are in flight.
\<close>

theorem outbound_guard_bound:
  assumes "guard_reach max_permits getenv (g, held)" "guard g = Some (n, i)"
  shows "permits g i + count held i = n \<and> count held i \<le> n
    \<and> get_outbound_guard max_permits getenv g = Some (i, g) \<and> (try_acquire i g = None \<longleftrightarrow> count held i = n)"
proof -
  from guard_reach_inv [OF assms(1)] assms(2) have "permits g i + count held i = n"
    by (simp add: guard_inv_def)
  then show ?thesis
    using outbound_pool.take_None [of i g] assms(2) by (auto simp: get_outbound_guard_def)
qed

definition two_out :: "outbound \<times> nat multiset" where
  "two_out = (\<lparr>guard = Some (2, 0), created = 1, permits = (\<lambda>_. 0)\<rparr>, {#0, 0#})"

lemma two_out_reached: "guard_reach 1000 (\<lambda>_. None) two_out"
proof -
  let ?g = "\<lambda>k. \<lparr>guard = Some (2, 0), created = 1, permits = (\<lambda>_. 0)(0 := k)\<rparr>"
  have "guard_reach 1000 (\<lambda>_. None) (?g 2, {#})"
    by (rule guard_reach.more [OF guard_reach.start], rule guard_step.session [of _ 2])
      (simp add: init_outbound_guard_def new_guard_def)
  then have "guard_reach 1000 (\<lambda>_. None) (?g 1, {#0#})"
    by (rule guard_reach.more, intro guard_step.taken [where g' = "?g 2"])
      (simp_all add: get_outbound_guard_def try_acquire_def)
  then have "guard_reach 1000 (\<lambda>_. None) (?g 0, {#0, 0#})"
    by (rule guard_reach.more, intro guard_step.taken [where g' = "?g 1"])
      (simp_all add: get_outbound_guard_def try_acquire_def)
  then show ?thesis by (simp add: two_out_def fun_upd_idem)
qed

theorem outbound_guard_bound_witness: "try_acquire 0 (fst two_out) = None"
  using outbound_guard_bound [of 1000 "\<lambda>_. None" "fst two_out" "snd two_out" 2 0] two_out_reached
  by (simp add: two_out_def)

text \<open>
  C27. The acceptor never runs more handlers than its limit, whatever the peer opens and in whatever
  order handlers end, and once it has ended it starts none.
\<close>

theorem acceptor_bound:
  assumes "acceptor_start max_permits fms = Some a"
  shows "handlers (foldl acceptor_step a es) \<le> nat (max fms 0)
    \<and> (\<forall>r es'. phase (foldl acceptor_step a es) = Ended r \<longrightarrow>
         phase (foldl acceptor_step a (es @ es')) = Ended r
         \<and> handlers (foldl acceptor_step a (es @ es')) \<le> handlers (foldl acceptor_step a es))"
proof -
  have "free_permits a = nat (max fms 0)" "handlers a = 0"
    using assms by (auto simp: acceptor_start_def Let_def split: if_splits)
  with acceptor_run_conserves [of a es] have "handlers (foldl acceptor_step a es) \<le> nat (max fms 0)" by simp
  moreover have "phase (foldl acceptor_step a es) = Ended r \<longrightarrow>
      phase (foldl acceptor_step a (es @ es')) = Ended r
      \<and> handlers (foldl acceptor_step a (es @ es')) \<le> handlers (foldl acceptor_step a es)" for r es'
    using acceptor_ended by simp
  ultimately show ?thesis by blast
qed

theorem acceptor_bound_witness:
  "handlers (foldl acceptor_step \<lparr>phase = Await_stream, free_permits = 1, handlers = 0\<rparr>
     [Stream_opened, Permit_free, Stream_opened, Permit_free]) \<le> 1"
  using acceptor_bound [of 1000 1 "\<lparr>phase = Await_stream, free_permits = 1, handlers = 0\<rparr>"
      "[Stream_opened, Permit_free, Stream_opened, Permit_free]"]
  by (simp add: acceptor_start_def)

end
