(* ===== verification/Tunnel.thy ===== *)
theory Tunnel
  imports Tunnel_Allow Tunnel_Guard
begin

text \<open>
  \<^verbatim>\<open>crates/qvole-app/src/tunnel.rs\<close>: the exchange of requests, what each side listens on and what it
  dials for a stream of the peer. QUIC streams, sockets and the name service are arguments: the
  events a \<^verbatim>\<open>select!\<close> sees in their order, the result of each write, the results of the reads, the
  result of each bind_at and dial. Error texts are values of a data type.
\<close>

section \<open>The exchange of requests\<close>

datatype config_error =
    Too_many nat | Accept_timeout | Accept_stream string | Open_stream string | Config_canceled
  | Write_accept string | Write_request nat string | Write_end string | Write_deadline
  | Read_deadline | Read_accept accept_error | Read_requests request_error

datatype open_event = Stream_ready | Stream_failed string | Timer_fired | Cancel_fired

text \<open>The control stream; only the server has a timer. \<open>None\<close> means that it is still waiting.\<close>

fun control_stream :: "bool \<Rightarrow> open_event list \<Rightarrow> (config_error + unit) option" where
  "control_stream srv [] = None"
| "control_stream srv (Stream_ready # es) = Some (Inr ())"
| "control_stream srv (Stream_failed e # es) = Some (Inl (if srv then Accept_stream e else Open_stream e))"
| "control_stream srv (Timer_fired # es) =
     (if srv then Some (Inl Accept_timeout) else control_stream srv es)"
| "control_stream srv (Cancel_fired # es) = Some (Inl Config_canceled)"

text \<open>The result of a write: done, failed, or still pending when the deadline of the phase passes.\<close>

datatype write_result = Written | Write_failed string | Write_stalled

fun write_requests :: "(nat \<Rightarrow> write_result) \<Rightarrow> nat \<Rightarrow> tunnel_request list \<Rightarrow> config_error + string" where
  "write_requests w i [] =
     (case w (Suc i) of Written \<Rightarrow> Inr (''END'' @ NL) | Write_failed e \<Rightarrow> Inl (Write_end e) | Write_stalled \<Rightarrow> Inl Write_deadline)"
| "write_requests w i (r # rs) =
     (case w (Suc i) of
        Written \<Rightarrow> map_sum id (\<lambda>t. request_line r @ t) (write_requests w (Suc i) rs)
      | Write_failed e \<Rightarrow> Inl (Write_request i e)
      | Write_stalled \<Rightarrow> Inl Write_deadline)"

definition write_config :: "(nat \<Rightarrow> write_result) \<Rightarrow> bool \<Rightarrow> tunnel_request list \<Rightarrow> config_error + string" where
  "write_config w accept reqs =
     (case w 0 of
        Written \<Rightarrow> map_sum id (\<lambda>t. ''ACCEPT '' @ bool_str accept @ NL @ t) (write_requests w 0 reqs)
      | Write_failed e \<Rightarrow> Inl (Write_accept e)
      | Write_stalled \<Rightarrow> Inl Write_deadline)"

text \<open>The read phase ends with an error when its deadline passes first, which \<open>late\<close> says.\<close>

definition read_config :: "bool \<Rightarrow> stream \<Rightarrow> config_error + bool \<times> tunnel_request list" where
  "read_config late s =
     (if late then Inl Read_deadline
      else case read_accept_line s of
             Inl e \<Rightarrow> Inl (Read_accept e)
           | Inr (peer_accept, rest, s') \<Rightarrow>
               (case read_requests_from_stream rest s' of
                  Some (Inr reqs) \<Rightarrow> Inr (peer_accept, reqs)
                | Some (Inl e) \<Rightarrow> Inl (Read_requests e)
                | None \<Rightarrow> Inl Read_deadline))"

definition canonical_order :: "bool \<Rightarrow> tunnel_request list \<Rightarrow> tunnel_request list \<Rightarrow> tunnel_request list \<times> nat" where
  "canonical_order srv my_reqs peer_reqs =
     (if srv then (peer_reqs @ my_reqs, length peer_reqs) else (my_reqs @ peer_reqs, 0))"

record config_io =
  io_open :: "open_event list"
  io_write :: "nat \<Rightarrow> write_result"
  io_late :: bool
  io_read :: stream

definition exchange_tunnel_config ::
    "config_io \<Rightarrow> tunnel_request list \<Rightarrow> tunnel_allow \<Rightarrow> bool \<Rightarrow> (config_error + bool \<times> tunnel_request list \<times> nat) option" where
  "exchange_tunnel_config io my_reqs allow srv =
     (if length my_reqs > MAX_TUNNEL_REQUESTS then Some (Inl (Too_many (length my_reqs)))
      else case control_stream srv (io_open io) of
             None \<Rightarrow> None
           | Some (Inl e) \<Rightarrow> Some (Inl e)
           | Some (Inr _) \<Rightarrow>
               (case write_config (io_write io) (accepts allow) my_reqs of
                  Inl e \<Rightarrow> Some (Inl e)
                | Inr _ \<Rightarrow>
                    (case read_config (io_late io) (io_read io) of
                       Inl e \<Rightarrow> Some (Inl e)
                     | Inr (peer_accept, peer_reqs) \<Rightarrow>
                         (let (reqs, start) = canonical_order srv my_reqs peer_reqs
                          in Some (Inr (peer_accept, reqs, start))))))"

section \<open>A session\<close>

definition stream_idle_timeout_from :: "duration \<Rightarrow> string option \<Rightarrow> duration" where
  "stream_idle_timeout_from override_val env_val =
     (if override_val > 0 then override_val
      else case (case env_val of None \<Rightarrow> None | Some v \<Rightarrow> parse_i64 v) of
             Some ms \<Rightarrow> if ms > 0 then from_millis (min (nat ms) ((2 ^ 63 - 1) div 1000)) else 0
           | None \<Rightarrow> 0)"

fun parse_specs :: "string \<Rightarrow> string list \<Rightarrow> (string \<times> string) + tunnel_request list" where
  "parse_specs ty [] = Inr []"
| "parse_specs ty (f # fs) =
     (case parse_tunnel_request f ty of
        Inl e \<Rightarrow> Inl (f, e)
      | Inr r \<Rightarrow> map_sum id (\<lambda>rs. r # rs) (parse_specs ty fs))"

definition my_requests :: "string list \<Rightarrow> string list \<Rightarrow> (string \<times> string) + tunnel_request list" where
  "my_requests local_tunnels remote_tunnels =
     (case parse_specs ''L'' local_tunnels of
        Inl e \<Rightarrow> Inl e
      | Inr ls \<Rightarrow> map_sum id (\<lambda>rs. ls @ rs) (parse_specs ''R'' remote_tunnels))"

definition mine :: "nat \<Rightarrow> nat \<Rightarrow> nat \<Rightarrow> bool" where
  "mine start cnt i \<longleftrightarrow> i \<ge> start \<and> i < start + cnt"

text \<open>What the operator is told of each request before the session starts.\<close>

datatype notice = Peer_rejected_L | Peer_rejected_R | Ignoring_peer | Forwarding_to string | No_notice

definition notice_for :: "(string \<Rightarrow> string) \<Rightarrow> tunnel_allow \<Rightarrow> bool \<Rightarrow> bool \<Rightarrow> tunnel_request \<Rightarrow> notice" where
  "notice_for lower allow my peer_accept req =
     (if my \<and> \<not> peer_accept \<and> tr_type req = ''L'' then Peer_rejected_L
      else if my \<and> \<not> peer_accept \<and> tr_type req = ''R'' then Peer_rejected_R
      else if \<not> my \<and> \<not> accepts allow then Ignoring_peer
      else if my \<and> peer_accept \<and> tr_type req = ''R'' then Forwarding_to (target_addr req)
      else if \<not> my \<and> tr_type req = ''L'' \<and> allows_forward lower allow (target_addr req) then Forwarding_to (target_addr req)
      else No_notice)"

definition session_limit :: "(string \<Rightarrow> string option) \<Rightarrow> int \<Rightarrow> int" where
  "session_limit getenv forward_max_streams =
     (if forward_max_streams > 0 then forward_max_streams else get_forward_max_streams getenv None)"

text \<open>
  The start of \<^verbatim>\<open>run_tunnel_with_config\<close>, up to the point where its two tasks run: the allowlist is
  checked and resolved, the peer connected, the specifications parsed, the requests exchanged and
  the outbound guard sized. The result of connecting is an argument, with the role. \<open>None\<close> is a wait
  for the control stream without end, or the panic of a semaphore that is too large.
\<close>

record tunnel_session =
  ts_reqs :: "tunnel_request list"
  ts_start :: nat
  ts_count :: nat
  ts_peer_accept :: bool
  ts_allow :: tunnel_allow
  ts_limit :: int
  ts_idle :: duration
  ts_notices :: "notice list"

datatype session_error =
    Bad_allow "(string \<times> string) list" | Not_connected connect_error | Bad_spec "string \<times> string" | Config config_error | No_requests

definition start_tunnel ::
    "(string \<Rightarrow> string option) \<Rightarrow> (string \<Rightarrow> string) \<Rightarrow> nat \<Rightarrow> lookup \<Rightarrow> connect_error + bool \<Rightarrow> config_io \<Rightarrow> string list \<Rightarrow> string list
      \<Rightarrow> tunnel_allow \<Rightarrow> int \<Rightarrow> duration \<Rightarrow> outbound \<Rightarrow> (session_error + tunnel_session \<times> outbound) option" where
  "start_tunnel getenv lower max_permits dns connected io local_tunnels remote_tunnels allow forward_max_streams idle_override g =
     (case validate allow of
        Inl bad \<Rightarrow> Some (Inl (Bad_allow bad))
      | Inr _ \<Rightarrow>
          let allow = allow_resolve dns allow;
              idle = stream_idle_timeout_from idle_override (getenv ''QVOLE_STREAM_IDLE_TIMEOUT_MS'')
          in case connected of
               Inl e \<Rightarrow> Some (Inl (Not_connected e))
             | Inr srv \<Rightarrow>
                 (case my_requests local_tunnels remote_tunnels of
                    Inl e \<Rightarrow> Some (Inl (Bad_spec e))
                  | Inr my_reqs \<Rightarrow>
                      (case exchange_tunnel_config io my_reqs allow srv of
                         None \<Rightarrow> None
                       | Some (Inl e) \<Rightarrow> Some (Inl (Config e))
                       | Some (Inr (peer_accept, reqs, start)) \<Rightarrow>
                           if reqs = [] then Some (Inl No_requests)
                           else let cnt = length my_reqs; fms = session_limit getenv forward_max_streams
                                in map_option (\<lambda>g'. Inr (\<lparr>ts_reqs = reqs, ts_start = start, ts_count = cnt,
                                       ts_peer_accept = peer_accept, ts_allow = allow, ts_limit = fms, ts_idle = idle,
                                       ts_notices = map (\<lambda>(i, q). notice_for lower allow (mine start cnt i) peer_accept q)
                                         (enumerate 0 reqs)\<rparr>, g'))
                                     (init_outbound_guard max_permits fms g))))"

text \<open>The two tasks cancel each other; an error of its own wins over the cancellation it caused.\<close>

fun session_result :: "tunnel_error + unit \<Rightarrow> tunnel_error + unit \<Rightarrow> tunnel_error + unit" where
  "session_result a l =
     (case a of
        Inl e \<Rightarrow> if \<not> is_canceled e then Inl e
                 else (case l of Inl e' \<Rightarrow> if \<not> is_canceled e' then Inl e' else Inl e | Inr _ \<Rightarrow> Inl e)
      | Inr _ \<Rightarrow> l)"

section \<open>Listeners\<close>

definition listens :: "(string \<Rightarrow> string) \<Rightarrow> tunnel_allow \<Rightarrow> bool \<Rightarrow> bool \<Rightarrow> tunnel_request \<Rightarrow> bool" where
  "listens lower allow peer_accept my_req req =
     (if my_req
      then (if tr_type req = ''R'' then False else if \<not> peer_accept then False else True)
      else (if tr_type req = ''L'' then False else if \<not> allows_listen lower allow (listen_addr req) then False else True))"

text \<open>The listeners in the order of the list; the first bind_at that fails ends the session.\<close>

fun open_listeners ::
    "(string \<Rightarrow> string) \<Rightarrow> tunnel_allow \<Rightarrow> bool \<Rightarrow> nat \<Rightarrow> nat \<Rightarrow> (string \<Rightarrow> string option) \<Rightarrow> nat \<Rightarrow> tunnel_request list
      \<Rightarrow> (string \<times> string) + nat list" where
  "open_listeners lower allow peer_accept start cnt bind_at i [] = Inr []"
| "open_listeners lower allow peer_accept start cnt bind_at i (req # reqs) =
     (if listens lower allow peer_accept (mine start cnt i) req
      then (case bind_at (listen_addr req) of
              Some e \<Rightarrow> Inl (listen_addr req, e)
            | None \<Rightarrow> map_sum id (\<lambda>is. i # is) (open_listeners lower allow peer_accept start cnt bind_at (Suc i) reqs))
      else open_listeners lower allow peer_accept start cnt bind_at (Suc i) reqs)"

text \<open>A connection to listener \<open>i\<close>: the header of the stream it opens, when it opens one.\<close>

datatype tcp_outcome = Index_too_large | Limit_reached | Not_opened | Header_failed | Bridged "byte list"

definition to_be_bytes :: "u16 \<Rightarrow> byte list" where
  "to_be_bytes w = [ucast (drop_bit 8 w), ucast w]"

definition handle_tunnel_tcp ::
    "nat \<Rightarrow> (string \<Rightarrow> string option) \<Rightarrow> bool \<Rightarrow> bool \<Rightarrow> nat \<Rightarrow> outbound \<Rightarrow> (tcp_outcome \<times> outbound) option" where
  "handle_tunnel_tcp max_permits getenv opens header_sent spec_idx g =
     (if spec_idx > 65535 then Some (Index_too_large, g)
      else case get_outbound_guard max_permits getenv g of
             None \<Rightarrow> None
           | Some (i, g) \<Rightarrow>
               (case try_acquire i g of
                  None \<Rightarrow> Some (Limit_reached, g)
                | Some g \<Rightarrow>
                    if \<not> opens then Some (Not_opened, release i g)
                    else if \<not> header_sent then Some (Header_failed, release i g)
                    else Some (Bridged (to_be_bytes (word_of_nat spec_idx)), release i g)))"

section \<open>Streams of the peer\<close>

text \<open>
  The header is a zeroed buffer that \<^verbatim>\<open>read_exact\<close> fills with the bytes that arrive; \<open>None\<close> is the
  timeout. When the stream ends before two bytes have come the read fails, but only the timeout
  makes the function return: the second half of its condition looks at the outer result again.
\<close>

definition read_header :: "byte list option \<Rightarrow> byte list option" where
  "read_header arrived =
     (case arrived of None \<Rightarrow> None | Some bs \<Rightarrow> Some (take 2 bs @ drop (length (take 2 bs)) [0, 0]))"

definition from_be_bytes :: "byte list \<Rightarrow> u16" where
  "from_be_bytes bs = push_bit 8 (ucast (bs ! 0)) OR ucast (bs ! 1)"

datatype dial_error = Dial_io string | Dial_deadline string | Dial_canceled | Invalid_port string

datatype dial_event = Dial_done "string + unit" | Dial_timer | Dial_cancel

definition dial_tcp :: "(string \<Rightarrow> dial_event) \<Rightarrow> string \<Rightarrow> dial_error + unit" where
  "dial_tcp net target =
     (case net target of
        Dial_done (Inr _) \<Rightarrow> Inr ()
      | Dial_done (Inl e) \<Rightarrow> Inl (Dial_io e)
      | Dial_timer \<Rightarrow> Inl (Dial_deadline target)
      | Dial_cancel \<Rightarrow> Inl Dial_canceled)"

datatype stream_outcome =
    No_header | Bad_index nat | Not_for_dialling | Rejected string | Dial_failed "dial_error option" | Connected nat

text \<open>Dial the addresses in order until one answers: the addresses tried and the outcome.\<close>

fun dial_ips :: "(string \<Rightarrow> dial_event) \<Rightarrow> nat \<Rightarrow> u16 \<Rightarrow> ip_addr list \<Rightarrow> dial_error option \<Rightarrow> string list \<times> stream_outcome" where
  "dial_ips net idx port [] err = ([], Dial_failed err)"
| "dial_ips net idx port (ip # ips) err =
     (let addr = sock_str (socket_addr_new ip port)
      in case dial_tcp net addr of
           Inr _ \<Rightarrow> ([addr], Connected idx)
         | Inl e \<Rightarrow> (let (tried, r) = dial_ips net idx port ips (Some e) in (addr # tried, r)))"

definition dial_for ::
    "lookup \<Rightarrow> (string \<Rightarrow> dial_event) \<Rightarrow> tunnel_allow \<Rightarrow> nat \<Rightarrow> bool \<Rightarrow> tunnel_request \<Rightarrow> string list \<times> stream_outcome" where
  "dial_for dns net allow idx my_req req =
     (if my_req
      then (case dial_tcp net (target_addr req) of
              Inr _ \<Rightarrow> ([target_addr req], Connected idx)
            | Inl e \<Rightarrow> ([target_addr req], Dial_failed (Some e)))
      else (case forward_ips dns allow (target_addr req) of
              (ips, port_str, ok) \<Rightarrow>
                if \<not> ok then ([], Rejected (target_addr req))
                else case parse_unsigned 16 port_str of
                       Some port \<Rightarrow> dial_ips net idx (word_of_nat port) ips None
                     | None \<Rightarrow> ([], Dial_failed (Some (Invalid_port port_str)))))"

text \<open>The first connection through a request is announced.\<close>

definition announce_tunnel_once :: "(nat \<rightharpoonup> bool) \<Rightarrow> nat \<Rightarrow> (nat \<rightharpoonup> bool) \<times> bool" where
  "announce_tunnel_once announced idx =
     (let announced = (if announced idx = None then announced(idx \<mapsto> False) else announced);
          first = (announced idx \<noteq> Some True)
      in (if first then announced(idx \<mapsto> True) else announced, first))"

definition handle_tunnel_stream ::
    "lookup \<Rightarrow> (string \<Rightarrow> dial_event) \<Rightarrow> byte list option \<Rightarrow> tunnel_request list \<Rightarrow> nat \<Rightarrow> nat \<Rightarrow> tunnel_allow
      \<Rightarrow> (nat \<rightharpoonup> bool) \<Rightarrow> string list \<times> stream_outcome \<times> (nat \<rightharpoonup> bool)" where
  "handle_tunnel_stream dns net arrived reqs start cnt allow announced =
     (case read_header arrived of
        None \<Rightarrow> ([], No_header, announced)
      | Some header \<Rightarrow>
          let idx = unat (from_be_bytes header)
          in if idx \<ge> length reqs then ([], Bad_index idx, announced)
             else let req = reqs ! idx; my_req = mine start cnt idx
                  in if tr_type req = ''L'' \<and> my_req then ([], Not_for_dialling, announced)
                     else if tr_type req = ''R'' \<and> \<not> my_req then ([], Not_for_dialling, announced)
                     else case dial_for dns net allow idx my_req req of
                            (tried, Connected i) \<Rightarrow> (tried, Connected i, fst (announce_tunnel_once announced i))
                          | (tried, r) \<Rightarrow> (tried, r, announced))"

section \<open>Headers\<close>

lemma be_bytes_roundtrip: "from_be_bytes (to_be_bytes w) = w"
  by (rule bit_eqI)
    (auto simp: from_be_bytes_def to_be_bytes_def bit_simps dest: bit_imp_le_length)

lemma read_header_bytes: "read_header (Some (to_be_bytes w @ rest)) = Some (to_be_bytes w)"
  by (simp add: read_header_def to_be_bytes_def)

section \<open>The exchange, both ways\<close>

lemma write_requests_text: "write_requests w i rs = Inr t \<Longrightarrow> t = concat (map request_line rs) @ ''END'' @ NL"
proof (induction rs arbitrary: i t)
  case Nil
  then show ?case by (simp split: write_result.splits)
next
  case (Cons r rs)
  then obtain t' where "write_requests w (Suc i) rs = Inr t'" "t = request_line r @ t'"
    by (cases "write_requests w (Suc i) rs") (auto split: write_result.splits)
  with Cons.IH show ?case by simp
qed

lemma write_config_text: "write_config w a reqs = Inr t \<Longrightarrow> t = config_text a reqs"
  by (cases "write_requests w 0 reqs")
    (auto simp: write_config_def config_text_def dest: write_requests_text split: write_result.splits)

lemma read_config_written:
  assumes "list_all request_ok reqs" "length reqs \<le> MAX_TUNNEL_REQUESTS"
    and "write_config w a reqs = Inr t" "[] \<notin> set cs" "concat cs = t"
  shows "read_config False (map Inr cs) = Inr (a, reqs)"
proof -
  obtain rest s where "read_accept_line (map Inr cs) = Inr (a, rest, s)"
    "read_requests_from_stream rest s = Some (Inr reqs)"
    using config_read_back [OF assms(1,2,4)] assms(5) write_config_text [OF assms(3)] by blast
  then show ?thesis by (simp add: read_config_def)
qed

lemma exchange_config_ok:
  assumes "length my \<le> MAX_TUNNEL_REQUESTS" "control_stream srv (io_open io) = Some (Inr ())"
    and "write_config (io_write io) (accepts allow) my = Inr t"
    and "read_config (io_late io) (io_read io) = Inr (pa, peer)"
  shows "exchange_tunnel_config io my allow srv =
    Some (Inr (pa, if srv then peer @ my else my @ peer, if srv then length peer else 0))"
  using assms by (simp add: exchange_tunnel_config_def canonical_order_def)

lemma not_too_many: "exchange_tunnel_config io my allow srv = Some (Inl (Too_many n)) \<Longrightarrow> length my > MAX_TUNNEL_REQUESTS"
proof -
  have c: "control_stream srv es \<noteq> Some (Inl (Too_many n))" for es
    by (induction srv es rule: control_stream.induct) auto
  have r: "write_requests w i rs \<noteq> Inl (Too_many n)" for w i rs
    by (induction rs arbitrary: i) (auto split: write_result.splits simp: map_sum_def split: sum.splits)
  have w: "write_config w a rs \<noteq> Inl (Too_many n)" for w a rs
    using r [of w 0 rs] by (auto simp: write_config_def map_sum_def split: write_result.splits sum.splits)
  have "read_config late s \<noteq> Inl (Too_many n)" for late s
    by (auto simp: read_config_def split: sum.splits option.splits)
  with c w show "exchange_tunnel_config io my allow srv = Some (Inl (Too_many n)) \<Longrightarrow> length my > MAX_TUNNEL_REQUESTS"
    by (auto simp: exchange_tunnel_config_def split: if_splits option.splits sum.splits prod.splits)
qed

lemma mine_complement:
  "i < length (c @ s) \<Longrightarrow> mine 0 (length c) i \<longleftrightarrow> \<not> mine (length c) (length s) i"
  by (auto simp: mine_def)

section \<open>Requests from specifications\<close>

lemma split_spec_parts:
  assumes "split_spec_loop s d cur ps = Some (d', cur', ps')"
    and "\<forall>p \<in> set (cur # ps). addr_text p \<and> length p \<le> n" "addr_text s" "length cur + length s \<le> n"
  shows "\<forall>p \<in> set (cur' # ps'). addr_text p \<and> length p \<le> n"
  using assms
proof (induction s d cur ps rule: split_spec_loop.induct)
  case (2 c cs d cur ps)
  have "addr_text (cur @ [c])" "addr_text cs" "addr_text []"
    using "2.prems"(2,3) by (auto simp: addr_text_def)
  with 2 show ?case by (auto split: if_splits)
qed simp

lemma split_request_parts:
  assumes "split_tunnel_request spec = Some ps" "addr_text spec" "p \<in> set ps"
  shows "addr_text p \<and> length p \<le> length spec"
proof -
  from assms(1) obtain cur ps' where *: "split_spec_loop spec 0 [] [] = Some (0, cur, ps')" "ps = ps' @ [cur]"
    by (auto simp: split_tunnel_request_def split: option.splits if_splits)
  have "addr_text []" by (simp add: addr_text_def)
  then have "\<forall>p \<in> set (cur # ps'). addr_text p \<and> length p \<le> length spec"
    by (intro split_spec_parts [OF *(1)]) (simp_all add: assms(2))
  with *(2) assms(3) show ?thesis by auto
qed

lemma strip_brackets_text: "addr_text p \<Longrightarrow> addr_text (strip_brackets p) \<and> length (strip_brackets p) \<le> length p"
  by (auto simp: strip_brackets_def addr_text_def dest!: in_set_takeD in_set_dropD)

lemma join_text:
  "addr_text h \<Longrightarrow> addr_text p \<Longrightarrow> addr_text (join_host_port h p) \<and> length (join_host_port h p) \<le> length h + length p + 3"
  by (auto simp: join_host_port_def addr_text_def)

lemma localhost_text: "addr_text LOCALHOST \<and> length LOCALHOST = 9"
  by (simp add: LOCALHOST_def addr_text_def)

definition spec_text :: "string \<Rightarrow> bool" where
  "spec_text f \<longleftrightarrow> addr_text f \<and> length f \<le> 900"

lemma parse_request_ok:
  assumes "parse_tunnel_request spec ty = Inr r" "spec_text spec" "ty \<in> {''L'', ''R''}"
  shows "request_ok r"
proof -
  obtain ps where ps: "split_tunnel_request spec = Some ps" "length ps = 3 \<or> length ps = 4"
    using assms(1) by (auto simp: parse_tunnel_request_def Let_def split: option.splits if_splits)
  have part: "addr_text (ps ! k) \<and> length (ps ! k) \<le> 900" if "k < length ps" for k
    using split_request_parts [OF ps(1), of "ps ! k"] that assms(2) by (auto simp: spec_text_def)
  have strip: "addr_text (strip_brackets (ps ! k)) \<and> length (strip_brackets (ps ! k)) \<le> 900" if "k < length ps" for k
    using strip_brackets_text part [OF that] by (meson le_trans)
  have joined: "addr_text (join_host_port h p) \<and> length (join_host_port h p) \<le> 1803"
    if "addr_text h \<and> length h \<le> 900" "addr_text p \<and> length p \<le> 900" for h p
    using join_text [of h p] that by auto
  have local_ok: "addr_text LOCALHOST \<and> length LOCALHOST \<le> 900" using localhost_text by simp
  from ps(2) show ?thesis
  proof
    assume l: "length ps = 3"
    with assms(1) ps have r: "r = \<lparr>tr_type = ty, listen_addr = join_host_port LOCALHOST (ps ! 0),
        target_addr = join_host_port (strip_brackets (ps ! 1)) (ps ! 2)\<rparr>"
      by (simp add: parse_tunnel_request_def)
    show ?thesis
      using joined [OF local_ok part [of 0]] joined [OF strip [of 1] part [of 2]] l assms(3) unfolding r by (auto simp: request_ok_def)
  next
    assume l: "length ps = 4"
    define h where "h = (if strip_brackets (ps ! 0) = [] then LOCALHOST else strip_brackets (ps ! 0))"
    have h: "addr_text h \<and> length h \<le> 900" using local_ok strip [of 0] l by (simp add: h_def)
    from l assms(1) ps have r: "r = \<lparr>tr_type = ty, listen_addr = join_host_port h (ps ! 1),
        target_addr = join_host_port (strip_brackets (ps ! 2)) (ps ! 3)\<rparr>"
      by (simp add: parse_tunnel_request_def h_def Let_def)
    show ?thesis
      using joined [OF h part [of 1]] joined [OF strip [of 2] part [of 3]] l assms(3) unfolding r by (auto simp: request_ok_def)
  qed
qed

lemma parse_specs_ok:
  "parse_specs ty fs = Inr rs \<Longrightarrow> list_all spec_text fs \<Longrightarrow> ty \<in> {''L'', ''R''} \<Longrightarrow>
   list_all request_ok rs \<and> length rs = length fs"
proof (induction fs arbitrary: rs)
  case (Cons f fs)
  then obtain r rs' where r: "parse_tunnel_request f ty = Inr r" "parse_specs ty fs = Inr rs'" "rs = r # rs'"
    by (cases "parse_specs ty fs") (auto split: sum.splits)
  with Cons parse_request_ok [OF r(1)] show ?case by simp
qed simp

lemma my_requests_ok:
  assumes "my_requests ls rs = Inr reqs" "list_all spec_text (ls @ rs)"
  shows "list_all request_ok reqs \<and> length reqs = length ls + length rs"
proof -
  from assms(1) obtain a b where "parse_specs ''L'' ls = Inr a" "parse_specs ''R'' rs = Inr b" "reqs = a @ b"
    by (cases "parse_specs ''R'' rs") (auto simp: my_requests_def split: sum.splits)
  with parse_specs_ok [of "''L''" ls a] parse_specs_ok [of "''R''" rs b] assms(2) show ?thesis by simp
qed

section \<open>What is dialled and listened on\<close>

lemma dial_ips_tried: "set (fst (dial_ips net idx port ips err)) \<subseteq> (\<lambda>ip. sock_str (socket_addr_new ip port)) ` set ips"
proof (induction ips arbitrary: err)
  case (Cons ip ips)
  show ?case
  proof (cases "dial_tcp net (sock_str (socket_addr_new ip port))")
    case (Inl e)
    with Cons.IH [of "Some e"] show ?thesis by (auto simp: Let_def split: prod.splits)
  qed (simp add: Let_def)
qed simp

lemma stream_tried:
  assumes "handle_tunnel_stream dns net arrived reqs start cnt allow announced = (tried, r, announced')" "addr \<in> set tried"
  obtains idx h where "idx < length reqs" "read_header arrived = Some h" "idx = unat (from_be_bytes h)"
    and "tr_type (reqs ! idx) = ''L'' \<longrightarrow> \<not> mine start cnt idx" "tr_type (reqs ! idx) = ''R'' \<longrightarrow> mine start cnt idx"
    and "addr \<in> set (fst (dial_for dns net allow idx (mine start cnt idx) (reqs ! idx)))"
proof -
  from assms obtain h where "read_header arrived = Some h"
    by (cases "read_header arrived") (auto simp: handle_tunnel_stream_def)
  with assms that [of "unat (from_be_bytes h)" h] show thesis
    by (auto simp: handle_tunnel_stream_def Let_def split: if_splits prod.splits stream_outcome.splits)
qed

lemma dial_for_tried:
  assumes "addr \<in> set (fst (dial_for dns net allow idx my req))"
  shows "my \<and> addr = target_addr req \<or>
    \<not> my \<and> (\<exists>ips p port ip. forward_ips dns allow (target_addr req) = (ips, p, True) \<and> parse_unsigned 16 p = Some port
       \<and> ip \<in> set ips \<and> addr = sock_str (socket_addr_new ip (word_of_nat port)))"
  using assms
  by (auto simp: dial_for_def split: if_splits sum.splits prod.splits option.splits dest!: subsetD [OF dial_ips_tried])

lemma open_listeners_exact:
  "open_listeners lower allow pa start cnt bind_at i reqs = Inr is \<Longrightarrow>
   set is = {j. i \<le> j \<and> j < i + length reqs \<and> listens lower allow pa (mine start cnt j) (reqs ! (j - i))} \<and> sorted is"
proof (induction reqs arbitrary: i "is")
  case (Cons r rs)
  let ?P = "\<lambda>j. listens lower allow pa (mine start cnt j) ((r # rs) ! (j - i))"
  have shift: "(r # rs) ! (j - i) = rs ! (j - Suc i)" if "Suc i \<le> j" for j
    using that by (simp add: Suc_diff_Suc nth_Cons')
  have *: "{j. i \<le> j \<and> j < i + length (r # rs) \<and> ?P j} =
      (if ?P i then {i} else {}) \<union> {j. Suc i \<le> j \<and> j < Suc i + length rs \<and> listens lower allow pa (mine start cnt j) (rs ! (j - Suc i))}"
    using shift by (auto simp: Suc_le_eq le_less)
  show ?case
  proof (cases "?P i")
    case True
    with Cons.prems obtain js where js: "open_listeners lower allow pa start cnt bind_at (Suc i) rs = Inr js" "is = i # js"
      by (cases "open_listeners lower allow pa start cnt bind_at (Suc i) rs") (auto split: option.splits)
    with Cons.IH [OF js(1)] True show ?thesis unfolding * by auto
  next
    case False
    with Cons.prems Cons.IH [of "Suc i" "is"] show ?thesis unfolding * by simp
  qed
qed simp

section \<open>Properties\<close>


definition no_allow :: tunnel_allow where
  "no_allow = \<lparr>allow_all = False, allow_listen = [], allow_forward = [], forward_rules = []\<rparr>"

definition web_spec :: "string" where "web_spec = ''8080:localhost:80''"

definition web_io :: "bool \<Rightarrow> tunnel_request list \<Rightarrow> config_io" where
  "web_io a reqs = \<lparr>io_open = [Stream_ready], io_write = \<lambda>_. Written, io_late = False, io_read = [Inr (config_text a reqs)]\<rparr>"

lemma write_config_written: "write_config (\<lambda>_. Written) a reqs = Inr (config_text a reqs)"
proof -
  have "write_requests (\<lambda>_. Written) i reqs = Inr (concat (map request_line reqs) @ ''END'' @ NL)" for i
    by (induction reqs arbitrary: i) simp_all
  then show ?thesis by (simp add: write_config_def config_text_def)
qed

lemma config_text_not_empty: "config_text a reqs \<noteq> []"
  by (simp add: config_text_def)

definition web_requests :: "tunnel_request list" where
  "web_requests = [\<lparr>tr_type = ''L'', listen_addr = ''127.0.0.1:8080'', target_addr = ''localhost:80''\<rparr>]"

lemma web_spec_parsed: "my_requests [web_spec] [] = Inr web_requests"
  by (simp add: my_requests_def parse_tunnel_request_def split_tunnel_request_def web_spec_def web_requests_def
      join_host_port_def strip_brackets_def LOCALHOST_def)



definition ssh_request :: tunnel_request where
  "ssh_request = \<lparr>tr_type = ''R'', listen_addr = ''127.0.0.1:2222'', target_addr = ''localhost:22''\<rparr>"

lemma own_request_dialled:
  assumes "length bs < 2" "list_all (\<lambda>b. b = 0) bs" "tr_type q = ''R''" "0 < cnt"
  shows "fst (handle_tunnel_stream dns net (Some bs) (q # reqs) 0 cnt allow announced) = [target_addr q]"
proof -
  have "read_header (Some bs) = Some [0, 0]"
    using assms(1,2) by (cases bs; cases "tl bs") (auto simp: read_header_def)
  moreover have "unat (from_be_bytes [0, 0]) = 0" by (simp add: from_be_bytes_def)
  moreover have "mine 0 cnt 0" using assms(4) by (simp add: mine_def)
  ultimately show ?thesis
    using assms(3) by (auto simp: handle_tunnel_stream_def dial_for_def split: sum.splits)
qed


text \<open>
  C15. Listening and dialling fit together. On the list both sides have, a request is listened on by
  at most one side; and a connection that this side's listener for request \<open>i\<close> turns into a stream
  is taken by the other side as request \<open>i\<close> and dialled, as the other side's own \<^verbatim>\<open>-R\<close> or as a
  peer's \<^verbatim>\<open>-L\<close>.
\<close>

theorem listener_meets_dialler:
  assumes req: "reqs = c @ s" "i < length reqs" "tr_type (reqs ! i) \<in> {''L'', ''R''}"
    and here: "start = (if srv then length c else 0)" "cnt = (if srv then length s else length c)"
    and there: "start' = (if srv then 0 else length c)" "cnt' = (if srv then length c else length s)"
    and listening: "listens lower allow peer_accept (mine start cnt i) (reqs ! i)"
    and conn: "handle_tunnel_tcp max_permits getenv opens header_sent i g = Some (Bridged header, g')"
  shows "\<not> listens lower' allow' peer_accept' (mine start' cnt' i) (reqs ! i)
    \<and> (let d = dial_for dns net allow' i (\<not> mine start cnt i) (reqs ! i);
           h = handle_tunnel_stream dns net (Some (header @ bytes)) reqs start' cnt' allow' announced
       in fst h = fst d \<and> fst (snd h) = snd d)"
proof -
  have i: "i < 65536" and header: "header = to_be_bytes (word_of_nat i)"
    using conn by (auto simp: handle_tunnel_tcp_def split: if_splits option.splits)
  have other: "mine start' cnt' i \<longleftrightarrow> \<not> mine start cnt i"
    using req(1,2) here there by (auto simp: mine_def)
  have role: "tr_type (reqs ! i) = ''L'' \<longleftrightarrow> mine start cnt i" "tr_type (reqs ! i) = ''R'' \<longleftrightarrow> \<not> mine start cnt i"
    using listening req(3) by (auto simp: listens_def split: if_splits)
  have "unat (word_of_nat i :: u16) = i" using i by (simp add: unat_of_nat take_bit_nat_eq_self_iff)
  then have "handle_tunnel_stream dns net (Some (header @ bytes)) reqs start' cnt' allow' announced =
      (case dial_for dns net allow' i (\<not> mine start cnt i) (reqs ! i) of
         (tried, Connected i) \<Rightarrow> (tried, Connected i, fst (announce_tunnel_once announced i))
       | (tried, r) \<Rightarrow> (tried, r, announced))"
    using req(2) role by (simp add: handle_tunnel_stream_def header read_header_bytes be_bytes_roundtrip other Let_def)
  moreover have "\<not> listens lower' allow' peer_accept' (mine start' cnt' i) (reqs ! i)"
    using role by (simp add: listens_def other)
  ultimately show ?thesis by (auto simp: Let_def split: prod.splits stream_outcome.splits)
qed

theorem listener_meets_dialler_witness:
  "\<not> listens id no_allow True (mine 1 0 0) (hd web_requests)"
proof -
  let ?g = "\<lparr>guard = Some (1, 0), created = 1, permits = \<lambda>_. 1\<rparr>"
  obtain g' where "handle_tunnel_tcp 1000 (\<lambda>_. None) True True 0 ?g = Some (Bridged (to_be_bytes 0), g')"
    by (simp add: handle_tunnel_tcp_def get_outbound_guard_def try_acquire_def)
  from listener_meets_dialler [of web_requests web_requests "[]" 0 0 False 1 1 0 id no_allow True, OF _ _ _ _ _ _ _ _ this]
  show ?thesis by (simp add: web_requests_def listens_def mine_def)
qed

text \<open>
  C16. The ports this side opens are exactly those of its own \<^verbatim>\<open>-L\<close> requests, when the peer accepts
  requests, and of the peer's \<^verbatim>\<open>-R\<close> requests whose listen address an \<^verbatim>\<open>-aL\<close> entry names or \<^verbatim>\<open>-a\<close>
  allows; each once and in the order of the list.
\<close>

theorem listeners_exact:
  assumes "open_listeners lower allow peer_accept start cnt bind_at 0 reqs = Inr is"
    and "list_all (\<lambda>q. tr_type q \<in> {''L'', ''R''}) reqs"
  shows "set is = {i. i < length reqs \<and> (if mine start cnt i then tr_type (reqs ! i) = ''L'' \<and> peer_accept
      else tr_type (reqs ! i) = ''R'' \<and> allows_listen lower allow (listen_addr (reqs ! i)))} \<and> sorted is"
proof -
  have "listens lower allow peer_accept (mine start cnt i) (reqs ! i) \<longleftrightarrow>
      (if mine start cnt i then tr_type (reqs ! i) = ''L'' \<and> peer_accept
       else tr_type (reqs ! i) = ''R'' \<and> allows_listen lower allow (listen_addr (reqs ! i)))" if "i < length reqs" for i
  proof -
    have "tr_type (reqs ! i) \<in> {''L'', ''R''}" using assms(2) that by (simp add: list_all_length)
    then show ?thesis by (auto simp: listens_def)
  qed
  then have "{i. i < length reqs \<and> listens lower allow peer_accept (mine start cnt i) (reqs ! i)} =
      {i. i < length reqs \<and> (if mine start cnt i then tr_type (reqs ! i) = ''L'' \<and> peer_accept
       else tr_type (reqs ! i) = ''R'' \<and> allows_listen lower allow (listen_addr (reqs ! i)))}"
    by (intro Collect_cong conj_cong refl)
  with open_listeners_exact [OF assms(1)] show ?thesis by simp
qed

theorem listeners_exact_witness: "set [0 :: nat] = {i. i < length web_requests \<and> (if mine 0 1 i then tr_type (web_requests ! i) = ''L'' \<and> True
      else tr_type (web_requests ! i) = ''R'' \<and> allows_listen id no_allow (listen_addr (web_requests ! i)))} \<and> sorted [0 :: nat]"
  by (rule listeners_exact [of id no_allow True 0 1 "\<lambda>_. None" web_requests "[0]"])
    (simp_all add: web_requests_def listens_def mine_def)

text \<open>
  A stream that ends before its header is complete is not dropped: the missing bytes count as
  zero. So a peer that opens a stream and closes it at once makes this side connect to the target
  of the first request of the list, when that is one this side dials.
\<close>

theorem short_header_dials:
  assumes "length bs < 2" "list_all (\<lambda>b. b = 0) bs" "tr_type q = ''R''" "0 < cnt"
  shows "fst (handle_tunnel_stream dns net (Some bs) (q # reqs) 0 cnt allow announced) = [target_addr q]
    \<and> fst (handle_tunnel_stream dns net None (q # reqs) 0 cnt allow announced) = []"
  using own_request_dialled [OF assms] by (simp add: handle_tunnel_stream_def read_header_def)

theorem short_header_dials_witness:
  "fst (handle_tunnel_stream (\<lambda>_. []) (\<lambda>_. Dial_timer) (Some []) [ssh_request] 0 1 no_allow Map.empty) = [target_addr ssh_request]"
proof -
  have "length ([] :: byte list) < 2" "list_all (\<lambda>b. b = 0) ([] :: byte list)" "tr_type ssh_request = ''R''" "0 < (1 :: nat)"
    by (simp_all add: ssh_request_def)
  from short_header_dials [OF this, of "\<lambda>_. []" "\<lambda>_. Dial_timer" "[]" no_allow Map.empty] show ?thesis by simp
qed

end
