(* ===== verification/Cli.thy ===== *)
theory Cli
  imports Tunnel Code_Gen "HOL-Library.Char_ord" "HOL-Library.List_Lexorder"
begin

text \<open>
  \<^verbatim>\<open>crates/qvole-bin/src/main.rs\<close>: flags, the connection code, validation of tunnel specifications,
  the hint for the peer, and the dispatch of the subcommands with their exit codes. A subcommand is
  modelled as the plan it carries out, the application function with its arguments, and its exit
  code as a function of that function's result. Texts with \<^verbatim>\<open>{:?}\<close> are vals of a data type.
\<close>

section \<open>Flags\<close>

datatype flag_type = Bool_flag | String_flag | Slice_flag

record flag_spec =
  flag_name :: string
  flag_ty :: flag_type
  flag_default :: "string option"
  flag_usage :: string

definition DEFAULT_LISTEN_ADDR :: string where "DEFAULT_LISTEN_ADDR = '':9009''"
definition DEFAULT_RELAY_ADDR :: string where "DEFAULT_RELAY_ADDR = ''relay.qvole.dev:9009''"

definition flag :: "string \<Rightarrow> flag_type \<Rightarrow> string option \<Rightarrow> string \<Rightarrow> flag_spec" where
  "flag n ty d u = \<lparr>flag_name = n, flag_ty = ty, flag_default = d, flag_usage = u\<rparr>"

definition SPECS_RELAY_FLAG :: flag_spec where "SPECS_RELAY_FLAG = flag ''relay'' String_flag None ''Relay address (host:port)''"
definition SPECS_DEBUG_FLAG :: flag_spec where "SPECS_DEBUG_FLAG = flag ''debug'' Bool_flag None ''Verbose debug logging to stderr''"
definition SPECS_CODE_FLAG :: flag_spec where "SPECS_CODE_FLAG = flag ''code'' String_flag None ''Connection code (or $QVOLE_CODE)''"
definition SPECS_LISTEN_FLAG :: flag_spec where
  "SPECS_LISTEN_FLAG = flag ''listen'' String_flag (Some DEFAULT_LISTEN_ADDR) ''UDP listen address (host:port)''"
definition SPECS_STATS_FLAG :: flag_spec where "SPECS_STATS_FLAG = flag ''stats'' Bool_flag None ''Log transfer statistics to stderr''"
definition SPECS_CMD_FLAG :: flag_spec where "SPECS_CMD_FLAG = flag ''cmd'' String_flag None ''Run command''"
definition SPECS_A_FLAG :: flag_spec where "SPECS_A_FLAG = flag ''a'' Bool_flag None ''Allow ALL peer tunnel requests (not safe)''"
definition SPECS_L_FLAG :: flag_spec where
  "SPECS_L_FLAG = flag ''L'' Slice_flag None ''Local tunnel request ([laddr:]lport:raddr:rport)''"
definition SPECS_R_FLAG :: flag_spec where
  "SPECS_R_FLAG = flag ''R'' Slice_flag None ''Remote tunnel request ([raddr:]rport:laddr:lport)''"
definition SPECS_AL_FLAG :: flag_spec where
  "SPECS_AL_FLAG = flag ''aL'' Slice_flag None ''Allow peer to open a listening port on this addr (allow peer's -R; repeatable)''"
definition SPECS_AF_FLAG :: flag_spec where
  "SPECS_AF_FLAG = flag ''aF'' Slice_flag None ''Allow peer to connect to the addr:port thru you (allow peer's -L; repeatable)''"

lemmas flag_defs = flag_def SPECS_RELAY_FLAG_def SPECS_DEBUG_FLAG_def SPECS_CODE_FLAG_def SPECS_LISTEN_FLAG_def
  SPECS_STATS_FLAG_def SPECS_CMD_FLAG_def SPECS_A_FLAG_def SPECS_L_FLAG_def SPECS_R_FLAG_def SPECS_AL_FLAG_def SPECS_AF_FLAG_def

definition flag_specs_for :: "string \<Rightarrow> flag_spec list" where
  "flag_specs_for set_name =
     (if set_name = ''relay'' then [SPECS_LISTEN_FLAG, SPECS_DEBUG_FLAG]
      else if set_name = ''qvole'' then [SPECS_CODE_FLAG, SPECS_RELAY_FLAG, SPECS_DEBUG_FLAG, SPECS_STATS_FLAG]
      else if set_name = ''exec'' then [SPECS_CODE_FLAG, SPECS_RELAY_FLAG, SPECS_DEBUG_FLAG, SPECS_CMD_FLAG]
      else if set_name = ''tunnel'' then
        [SPECS_CODE_FLAG, SPECS_RELAY_FLAG, SPECS_DEBUG_FLAG, SPECS_A_FLAG, SPECS_L_FLAG, SPECS_R_FLAG, SPECS_AL_FLAG, SPECS_AF_FLAG]
      else [])"

record flag_values =
  bools :: "string \<rightharpoonup> bool"
  strings :: "string \<rightharpoonup> string"
  slices :: "string \<rightharpoonup> string list"

definition no_values :: flag_values where
  "no_values = \<lparr>bools = Map.empty, strings = Map.empty, slices = Map.empty\<rparr>"

definition bool_value :: "flag_values \<Rightarrow> string \<Rightarrow> bool" where
  "bool_value v n = (case bools v n of Some b \<Rightarrow> b | None \<Rightarrow> False)"

definition string_value :: "flag_values \<Rightarrow> string \<Rightarrow> string" where
  "string_value v n = (case strings v n of Some s \<Rightarrow> s | None \<Rightarrow> [])"

definition slice_value :: "flag_values \<Rightarrow> string \<Rightarrow> string list" where
  "slice_value v n = (case slices v n of Some l \<Rightarrow> l | None \<Rightarrow> [])"

datatype flags_error = Help | Bad_syntax string | Not_defined string | Bad_bool string string | Needs_argument string

definition parse_bool_value :: "string \<Rightarrow> bool option" where
  "parse_bool_value s =
     (if s \<in> {''1'', ''t'', ''T'', ''true'', ''TRUE'', ''True''} then Some True
      else if s \<in> {''0'', ''f'', ''F'', ''false'', ''FALSE'', ''False''} then Some False
      else None)"

text \<open>An argument that is a flag: its name and its inline value. \<open>Inr None\<close> ends the flags.\<close>

definition split_flag :: "string \<Rightarrow> flags_error + (string \<times> string option) option" where
  "split_flag s =
     (if length s < 2 \<or> \<not> starts_with s ''-'' then Inr None
      else if s ! 1 = CHR ''-'' \<and> length s = 2 then Inr None
      else let name = drop (if s ! 1 = CHR ''-'' then 2 else 1) s
           in if name = [] \<or> starts_with name ''-'' \<or> starts_with name ''='' then Inl (Bad_syntax s)
              else case split_first (CHR ''='') name of
                     Some (n, v) \<Rightarrow> Inr (Some (n, Some v))
                   | None \<Rightarrow> Inr (Some (name, None)))"

definition find_flag :: "flag_spec list \<Rightarrow> string \<Rightarrow> flag_spec option" where
  "find_flag specs n = find (\<lambda>f. flag_name f = n) specs"

definition store_value :: "flag_spec \<Rightarrow> string \<Rightarrow> flag_values \<Rightarrow> flag_values" where
  "store_value spec v vals =
     (if flag_ty spec = String_flag then vals\<lparr>strings := (strings vals)(flag_name spec \<mapsto> v)\<rparr>
      else vals\<lparr>slices := (slices vals)(flag_name spec \<mapsto> slice_value vals (flag_name spec) @ [v])\<rparr>)"

fun parse_flags_loop :: "flag_spec list \<Rightarrow> flag_values \<Rightarrow> string list \<Rightarrow> flags_error + flag_values" where
  "parse_flags_loop specs vals [] = Inr vals"
| "parse_flags_loop specs vals (s # rest) =
     (case split_flag s of
        Inl e \<Rightarrow> Inl e
      | Inr None \<Rightarrow> Inr vals
      | Inr (Some (name, inline)) \<Rightarrow>
          (case find_flag specs name of
             None \<Rightarrow> Inl (if name = ''help'' \<or> name = ''h'' then Help else Not_defined name)
           | Some spec \<Rightarrow>
               if flag_ty spec = Bool_flag
               then (case inline of
                       None \<Rightarrow> parse_flags_loop specs (vals\<lparr>bools := (bools vals)(flag_name spec \<mapsto> True)\<rparr>) rest
                     | Some v \<Rightarrow>
                         (case parse_bool_value v of
                            None \<Rightarrow> Inl (Bad_bool v (flag_name spec))
                          | Some b \<Rightarrow> parse_flags_loop specs (vals\<lparr>bools := (bools vals)(flag_name spec \<mapsto> b)\<rparr>) rest))
               else (case inline of
                       Some v \<Rightarrow> parse_flags_loop specs (store_value spec v vals) rest
                     | None \<Rightarrow>
                         (case rest of
                            [] \<Rightarrow> Inl (Needs_argument (flag_name spec))
                          | v # rest' \<Rightarrow> parse_flags_loop specs (store_value spec v vals) rest'))))"

definition parse_flags :: "string list \<Rightarrow> flag_spec list \<Rightarrow> flags_error + flag_values" where
  "parse_flags args specs = parse_flags_loop specs no_values args"

definition TAB :: string where "TAB = [CHR 9]"
definition DQ :: string where "DQ = [CHR 34]"

definition usage_line :: "flag_spec \<Rightarrow> string" where
  "usage_line f =
     (let type_name = (case flag_ty f of Bool_flag \<Rightarrow> '''' | String_flag \<Rightarrow> ''string'' | Slice_flag \<Rightarrow> ''value'');
          line = ''  -'' @ flag_name f;
          line = (if type_name \<noteq> [] then line @ '' '' @ type_name else line);
          line = (if length line \<le> 4 then line @ TAB else line @ NL @ ''    '' @ TAB);
          line = line @ flag_usage f;
          line = (case flag_default f of
                    Some d \<Rightarrow> if d \<noteq> [] then line @ '' (default '' @ DQ @ d @ DQ @ '')'' else line
                  | None \<Rightarrow> line)
      in line @ NL)"

definition flagset_usage :: "string \<Rightarrow> flag_spec list \<Rightarrow> string" where
  "flagset_usage set_name specs =
     ''Usage of '' @ set_name @ '':'' @ NL @ concat (map usage_line (sort_key flag_name specs))"

section \<open>The connection code\<close>

definition MIN_CODE_LEN :: nat where "MIN_CODE_LEN = 8"
definition MAX_CODE_LEN :: nat where "MAX_CODE_LEN = 256"
definition MAX_TUNNEL_SPECS :: nat where "MAX_TUNNEL_SPECS = 100"
definition EXIT_CODE_INTERRUPT :: int where "EXIT_CODE_INTERRUPT = 130"

datatype code_problem = Too_short nat | Too_long | Not_generated code_error

definition resolve_code_from :: "string \<Rightarrow> string option \<Rightarrow> code_problem + string" where
  "resolve_code_from flag_val env_val =
     (let val = (if flag_val = [] then (case env_val of Some v \<Rightarrow> v | None \<Rightarrow> []) else flag_val)
      in if val = [] then Inr []
         else if length val < MIN_CODE_LEN then Inl (Too_short (length val))
         else if length val > MAX_CODE_LEN then Inl Too_long
         else Inr val)"

definition resolve_or_generate_code_from ::
    "string list \<Rightarrow> (nat \<Rightarrow> u16) \<Rightarrow> string \<Rightarrow> string option \<Rightarrow> (code_problem + string \<times> bool) option" where
  "resolve_or_generate_code_from words draws flag_val env_val =
     (case resolve_code_from flag_val env_val of
        Inl e \<Rightarrow> Some (Inl e)
      | Inr code \<Rightarrow>
          if code \<noteq> [] then Some (Inr (code, False))
          else (case generate_code words draws of
                  None \<Rightarrow> None
                | Some (Inl e) \<Rightarrow> Some (Inl (Not_generated e))
                | Some (Inr code) \<Rightarrow> Some (Inr (code, True))))"

section \<open>Tunnel specifications\<close>

datatype spec_problem = Spec_format string string string | Spec_address string string string | Spec_port string string string

definition parse_i32 :: "string \<Rightarrow> int option" where
  "parse_i32 s = (case parse_i64 s of Some n \<Rightarrow> if - (2 ^ 31) \<le> n \<and> n < 2 ^ 31 then Some n else None | None \<Rightarrow> None)"

definition check_addr :: "string \<Rightarrow> string \<Rightarrow> string \<Rightarrow> spec_problem option" where
  "check_addr spec ty addr =
     (case split_host_port addr of
        Inl e \<Rightarrow> Some (Spec_address ty spec e)
      | Inr (_, port) \<Rightarrow>
          (case parse_i32 port of
             Some p \<Rightarrow> if 1 \<le> p \<and> p \<le> 65535 then None else Some (Spec_port ty spec port)
           | None \<Rightarrow> Some (Spec_port ty spec port)))"

definition validate_tunnel_spec :: "string \<Rightarrow> string \<Rightarrow> spec_problem option" where
  "validate_tunnel_spec spec ty =
     (case parse_tunnel_request spec ty of
        Inl e \<Rightarrow> Some (Spec_format ty spec e)
      | Inr req \<Rightarrow>
          (case check_addr spec ty (listen_addr req) of
             Some e \<Rightarrow> Some e
           | None \<Rightarrow> check_addr spec ty (target_addr req)))"

fun validate_specs :: "string \<Rightarrow> string list \<Rightarrow> spec_problem option" where
  "validate_specs ty [] = None"
| "validate_specs ty (f # fs) = (case validate_tunnel_spec f ty of Some e \<Rightarrow> Some e | None \<Rightarrow> validate_specs ty fs)"

datatype config_problem = Too_many_specs nat | Bad_tunnel_spec spec_problem | Bad_allowlist "(string \<times> string) list"

definition allow_of :: "bool \<Rightarrow> string list \<Rightarrow> string list \<Rightarrow> tunnel_allow" where
  "allow_of all listen forward = \<lparr>allow_all = all, allow_listen = listen, allow_forward = forward, forward_rules = []\<rparr>"

definition validate_tunnel_config ::
    "string list \<Rightarrow> string list \<Rightarrow> string list \<Rightarrow> string list \<Rightarrow> bool \<Rightarrow> config_problem option" where
  "validate_tunnel_config local_tunnels remote_tunnels listen forward all =
     (let n = length local_tunnels + length remote_tunnels
      in if n > MAX_TUNNEL_SPECS then Some (Too_many_specs n)
         else case validate_specs ''L'' local_tunnels of
                Some e \<Rightarrow> Some (Bad_tunnel_spec e)
              | None \<Rightarrow>
                  (case validate_specs ''R'' remote_tunnels of
                     Some e \<Rightarrow> Some (Bad_tunnel_spec e)
                   | None \<Rightarrow>
                       (case validate (allow_of all listen forward) of Inl bad \<Rightarrow> Some (Bad_allowlist bad) | Inr _ \<Rightarrow> None)))"

section \<open>The hint for the peer\<close>

text \<open>The addresses of the specifications in order, without repetition.\<close>

fun hint_addrs :: "(tunnel_request \<Rightarrow> string) \<Rightarrow> string \<Rightarrow> string list \<Rightarrow> string list \<Rightarrow> string + string list" where
  "hint_addrs addr ty [] acc = Inr acc"
| "hint_addrs addr ty (spec # specs) acc =
     (case parse_tunnel_request spec ty of
        Inl e \<Rightarrow> Inl e
      | Inr req \<Rightarrow> hint_addrs addr ty specs (if addr req \<in> set acc then acc else acc @ [addr req]))"

definition peer_command :: "string \<Rightarrow> string list \<Rightarrow> string list \<Rightarrow> string" where
  "peer_command code a_l a_f =
     ''QVOLE_CODE='' @ code @ '' qvole tunnel'' @ concat (map (\<lambda>v. '' -aL '' @ v) a_l) @ concat (map (\<lambda>v. '' -aF '' @ v) a_f)"

definition tunnel_peer_command :: "string \<Rightarrow> string list \<Rightarrow> string list \<Rightarrow> string + string" where
  "tunnel_peer_command code local_tunnels remote_tunnels =
     (case hint_addrs listen_addr ''R'' remote_tunnels [] of
        Inl e \<Rightarrow> Inl e
      | Inr a_l \<Rightarrow>
          (case hint_addrs target_addr ''L'' local_tunnels [] of
             Inl e \<Rightarrow> Inl e
           | Inr a_f \<Rightarrow>
               if a_l = [] \<and> a_f = [] then Inr []
               else Inr (peer_command code a_l a_f)))"

definition peer_hint_block :: "string \<Rightarrow> string" where
  "peer_hint_block peer_cmd = ''# peer command'' @ NL @ peer_cmd @ NL"

section \<open>Subcommands\<close>

datatype plan =
    Exit_plan int
  | Relay_plan string
  | Pipe_plan string string bool
  | Exec_plan string string string bool
  | Tunnel_plan string string "string list" "string list" tunnel_allow

text \<open>What a subcommand depends on: the environment, the word list and the random draws.\<close>

record cli =
  cli_env :: "string \<Rightarrow> string option"
  cli_words :: "string list"
  cli_draws :: "nat \<Rightarrow> u16"

definition resolve_relay :: "string \<Rightarrow> string" where
  "resolve_relay addr = (if addr = [] then DEFAULT_RELAY_ADDR else addr)"

definition resolve_or_generate_code :: "cli \<Rightarrow> string \<Rightarrow> (code_problem + string \<times> bool) option" where
  "resolve_or_generate_code c flag_val =
     resolve_or_generate_code_from (cli_words c) (cli_draws c) flag_val (cli_env c ''QVOLE_CODE'')"

definition run_relay :: "string list \<Rightarrow> plan" where
  "run_relay args =
     (case parse_flags args (flag_specs_for ''relay'') of
        Inl _ \<Rightarrow> Exit_plan 1
      | Inr vals \<Rightarrow>
          (let listen = string_value vals ''listen''
           in Relay_plan (if listen = [] then DEFAULT_LISTEN_ADDR else listen)))"

text \<open>The hint printed before the run, when the code is fresh, and the plan.\<close>

definition run_pipe :: "cli \<Rightarrow> string list \<Rightarrow> (string \<times> plan) option" where
  "run_pipe c args =
     (case parse_flags args (flag_specs_for ''qvole'') of
        Inl _ \<Rightarrow> Some ([], Exit_plan 1)
      | Inr vals \<Rightarrow>
          (case resolve_or_generate_code c (string_value vals ''code'') of
             None \<Rightarrow> None
           | Some (Inl _) \<Rightarrow> Some ([], Exit_plan 1)
           | Some (Inr (code, generated)) \<Rightarrow>
               Some (if generated then peer_hint_block (''QVOLE_CODE='' @ code @ '' qvole pipe'') else [],
                     Pipe_plan (resolve_relay (string_value vals ''relay'')) code (bool_value vals ''stats''))))"

definition run_exec :: "cli \<Rightarrow> string list \<Rightarrow> (string \<times> plan) option" where
  "run_exec c args =
     (case parse_flags args (flag_specs_for ''exec'') of
        Inl _ \<Rightarrow> Some ([], Exit_plan 1)
      | Inr vals \<Rightarrow>
          (case resolve_or_generate_code c (string_value vals ''code'') of
             None \<Rightarrow> None
           | Some (Inl _) \<Rightarrow> Some ([], Exit_plan 1)
           | Some (Inr (code, generated)) \<Rightarrow>
               (let cmd = string_value vals ''cmd''
                in Some (if generated then peer_hint_block (''QVOLE_CODE='' @ code @ '' qvole exec'') else [],
                         Exec_plan (resolve_relay (string_value vals ''relay'')) code cmd (cmd \<noteq> [])))))"

definition run_tunnel :: "cli \<Rightarrow> string list \<Rightarrow> (string \<times> plan) option" where
  "run_tunnel c args =
     (case parse_flags args (flag_specs_for ''tunnel'') of
        Inl _ \<Rightarrow> Some ([], Exit_plan 1)
      | Inr vals \<Rightarrow>
          let ls = slice_value vals ''L''; rs = slice_value vals ''R'';
              al = slice_value vals ''aL''; af = slice_value vals ''aF''; all = bool_value vals ''a''
          in if validate_tunnel_config ls rs al af all \<noteq> None then Some ([], Exit_plan 1)
             else case resolve_or_generate_code c (string_value vals ''code'') of
                    None \<Rightarrow> None
                  | Some (Inl _) \<Rightarrow> Some ([], Exit_plan 1)
                  | Some (Inr (code, generated)) \<Rightarrow>
                      Some (if generated
                            then (case tunnel_peer_command code ls rs of
                                    Inl e \<Rightarrow> ''peer hint unavailable: '' @ e @ NL
                                  | Inr hint \<Rightarrow> peer_hint_block (if hint = [] then ''QVOLE_CODE='' @ code @ '' qvole tunnel'' else hint))
                            else [],
                            Tunnel_plan (resolve_relay (string_value vals ''relay'')) code ls rs (allow_of all al af)))"

datatype main_action = Usage | Version | Subcommand "(string \<times> plan) option"

definition main_action_for :: "cli \<Rightarrow> string list \<Rightarrow> main_action" where
  "main_action_for c args =
     (case args of
        [] \<Rightarrow> Usage
      | first # rest \<Rightarrow>
          if first = ''-v'' \<or> first = ''--version'' then Version
          else if first = ''relay'' then Subcommand (Some ([], run_relay rest))
          else if first = ''exec'' then Subcommand (run_exec c rest)
          else if first = ''tunnel'' then Subcommand (run_tunnel c rest)
          else if first = ''pipe'' then Subcommand (run_pipe c rest)
          else Usage)"

section \<open>Exit codes\<close>

datatype pipe_error = Pipe_connect connect_error | Pipe_canceled | Pipe_quic string

datatype exec_error = Exec_connect connect_error | Exec_canceled | Exec_quic string | Exec_other string | Exec_exit int | Exec_killed

definition exec_error_of :: "pipe_error \<Rightarrow> exec_error" where
  "exec_error_of e =
     (case e of Pipe_connect c \<Rightarrow> Exec_connect c | Pipe_canceled \<Rightarrow> Exec_canceled | Pipe_quic s \<Rightarrow> Exec_quic s)"

definition relay_exit :: "string + unit \<Rightarrow> int" where
  "relay_exit r = (case r of Inr _ \<Rightarrow> 0 | Inl _ \<Rightarrow> 1)"

definition pipe_exit :: "pipe_error + unit \<Rightarrow> int" where
  "pipe_exit r = (case r of Inr _ \<Rightarrow> 0 | Inl Pipe_canceled \<Rightarrow> 0 | Inl _ \<Rightarrow> 1)"

definition exec_exit :: "bool \<Rightarrow> exec_error + unit \<Rightarrow> int" where
  "exec_exit cancelled r =
     (case r of
        Inr _ \<Rightarrow> 0
      | Inl Exec_canceled \<Rightarrow> 0
      | Inl (Exec_exit code) \<Rightarrow> if code \<ge> 0 then code else 1
      | Inl Exec_killed \<Rightarrow> if cancelled then EXIT_CODE_INTERRUPT else 0
      | Inl _ \<Rightarrow> 1)"

definition tunnel_exit :: "tunnel_error + unit \<Rightarrow> int" where
  "tunnel_exit r = (case r of Inr _ \<Rightarrow> 0 | Inl Canceled \<Rightarrow> 0 | Inl _ \<Rightarrow> 1)"

section \<open>Reading flags back\<close>

text \<open>A flag written as two arguments, name and value, is stored as the value.\<close>

lemma parse_two_words:
  assumes "split_flag a = Inr (Some (n, None))" "find_flag specs n = Some f" "flag_ty f \<noteq> Bool_flag"
  shows "parse_flags_loop specs vals (concat (map (\<lambda>x. [a, x]) xs) @ rest) =
    parse_flags_loop specs (foldl (\<lambda>v x. store_value f x v) vals xs) rest"
  using assms by (induction xs arbitrary: vals) simp_all

lemma slice_store:
  "flag_ty f = Slice_flag \<Longrightarrow>
   slice_value (store_value f x v) n = slice_value v n @ (if n = flag_name f then [x] else [])"
  by (simp add: store_value_def slice_value_def)

lemma slice_store_all:
  "flag_ty f = Slice_flag \<Longrightarrow>
   slice_value (foldl (\<lambda>v x. store_value f x v) v xs) n = slice_value v n @ (if n = flag_name f then xs else [])"
  by (induction xs arbitrary: v) (simp_all add: slice_store)

lemma bools_store_all:
  "bools (foldl (\<lambda>v x. store_value f x v) v xs) = bools v"
  by (induction xs arbitrary: v) (simp_all add: store_value_def)

lemma hint_flags:
  "split_flag ''-aL'' = Inr (Some (''aL'', None))" "split_flag ''-aF'' = Inr (Some (''aF'', None))"
  "find_flag (flag_specs_for ''tunnel'') ''aL'' = Some SPECS_AL_FLAG"
  "find_flag (flag_specs_for ''tunnel'') ''aF'' = Some SPECS_AF_FLAG"
  by (simp_all add: split_flag_def starts_with_def find_flag_def flag_specs_for_def flag_defs)

lemma parse_hint_flags:
  obtains v where "parse_flags (concat (map (\<lambda>x. [''-aL'', x]) al) @ concat (map (\<lambda>x. [''-aF'', x]) af))
      (flag_specs_for ''tunnel'') = Inr v"
    "slice_value v ''aL'' = al" "slice_value v ''aF'' = af" "bool_value v ''a'' = False"
proof -
  let ?store = "\<lambda>f xs v. foldl (\<lambda>v x. store_value f x v) v xs"
  have ty: "flag_ty SPECS_AL_FLAG = Slice_flag" "flag_ty SPECS_AF_FLAG = Slice_flag"
    "flag_name SPECS_AL_FLAG = ''aL''" "flag_name SPECS_AF_FLAG = ''aF''"
    by (simp_all add: flag_defs)
  let ?v = "?store SPECS_AF_FLAG af (?store SPECS_AL_FLAG al no_values)"
  have "parse_flags (concat (map (\<lambda>x. [''-aL'', x]) al) @ concat (map (\<lambda>x. [''-aF'', x]) af))
      (flag_specs_for ''tunnel'') = Inr ?v"
    using parse_two_words [OF hint_flags(1,3), of no_values al "concat (map (\<lambda>x. [''-aF'', x]) af)"]
      parse_two_words [OF hint_flags(2,4), of "?store SPECS_AL_FLAG al no_values" af "[]"]
    by (simp add: parse_flags_def ty)
  moreover have "slice_value ?v ''aL'' = al" "slice_value ?v ''aF'' = af"
    by (simp_all add: slice_store_all ty) (simp_all add: slice_value_def no_values_def)
  moreover have "bool_value ?v ''a'' = False"
    by (simp add: bool_value_def bools_store_all no_values_def)
  ultimately show thesis by (rule that)
qed

section \<open>What validation promises\<close>

lemma hint_addrs_ok:
  "parse_specs ty fs = Inr rs \<Longrightarrow> \<exists>out. hint_addrs addr ty fs acc = Inr out \<and> set out = set acc \<union> addr ` set rs"
proof (induction fs arbitrary: rs acc)
  case (Cons f fs)
  then obtain r rs' where r: "parse_tunnel_request f ty = Inr r" "parse_specs ty fs = Inr rs'" "rs = r # rs'"
    by (cases "parse_specs ty fs") (auto split: sum.splits)
  from Cons.IH [OF r(2), of "if addr r \<in> set acc then acc else acc @ [addr r]"] r show ?case by (auto simp: insert_absorb)
qed simp

lemma check_addr_good:
  assumes "check_addr spec ty addr = None"
  shows "\<not> bad_entry addr"
proof -
  from assms obtain host port p where s: "split_host_port addr = Inr (host, port)" "parse_i32 port = Some p"
    by (auto simp: check_addr_def split: sum.splits option.splits)
  have "parse_i32 [] = None" by (simp add: parse_i32_def parse_i64_def)
  with s(2) have "port \<noteq> []" by auto
  with s(1) show ?thesis by (simp add: bad_entry_def split_agree)
qed

lemma validate_specs_ok:
  "validate_specs ty fs = None \<Longrightarrow>
   \<exists>rs. parse_specs ty fs = Inr rs \<and> length rs = length fs
     \<and> (\<forall>r \<in> set rs. tr_type r = ty \<and> \<not> bad_entry (listen_addr r) \<and> \<not> bad_entry (target_addr r))"
proof (induction fs)
  case (Cons f fs)
  then obtain r where r: "parse_tunnel_request f ty = Inr r" "check_addr f ty (listen_addr r) = None"
    "check_addr f ty (target_addr r) = None" and rest: "validate_specs ty fs = None"
    by (auto simp: validate_tunnel_spec_def split: option.splits sum.splits)
  have "tr_type r = ty" using r(1) by (auto simp: parse_tunnel_request_def Let_def split: if_splits)
  with Cons.IH [OF rest] r(1) check_addr_good [OF r(2)] check_addr_good [OF r(3)] show ?case by auto
qed simp

lemma good_entry_matches:
  "addr \<in> set es \<Longrightarrow> \<not> bad_entry addr \<Longrightarrow> match_addr lower es addr"
  by (auto simp: match_addr_def bad_entry_def allow_match_iff split: option.splits)

lemma validate_all_good: "\<forall>e \<in> set (l @ f). \<not> bad_entry e \<Longrightarrow> validate (allow_of a l f) = Inr ()"
  by (auto simp: validate_def allow_of_def filter_empty_conv)

lemma validated_requests:
  assumes "validate_tunnel_config ls rs al af all = None"
  obtains l r where "parse_specs ''L'' ls = Inr l" "parse_specs ''R'' rs = Inr r" "my_requests ls rs = Inr (l @ r)"
    "length (l @ r) \<le> MAX_TUNNEL_REQUESTS" "validate (allow_of all al af) = Inr ()"
    "\<forall>q \<in> set l. tr_type q = ''L'' \<and> \<not> bad_entry (target_addr q)" "\<forall>q \<in> set r. tr_type q = ''R'' \<and> \<not> bad_entry (listen_addr q)"
proof -
  have v: "validate_specs ''L'' ls = None" "validate_specs ''R'' rs = None" "length ls + length rs \<le> MAX_TUNNEL_SPECS"
    "validate (allow_of all al af) = Inr ()"
    using assms by (auto simp: validate_tunnel_config_def Let_def split: if_splits option.splits sum.splits)
  obtain l where l: "parse_specs ''L'' ls = Inr l" "length l = length ls"
    "\<forall>q \<in> set l. tr_type q = ''L'' \<and> \<not> bad_entry (target_addr q)" using validate_specs_ok [OF v(1)] by blast
  obtain r where r: "parse_specs ''R'' rs = Inr r" "length r = length rs"
    "\<forall>q \<in> set r. tr_type q = ''R'' \<and> \<not> bad_entry (listen_addr q)" using validate_specs_ok [OF v(2)] by blast
  show thesis
    using that [OF l(1) r(1)] l r v(3,4) by (simp add: my_requests_def MAX_TUNNEL_SPECS_def MAX_TUNNEL_REQUESTS_def)
qed

lemma split_words:
  "\<forall>w \<in> set ws. CHR '' '' \<notin> set w \<Longrightarrow> CHR '' '' \<notin> set a \<Longrightarrow>
   split_on (CHR '' '') (a @ concat (map (\<lambda>w. CHR '' '' # w) ws)) = a # ws"
proof (induction ws arbitrary: a)
  case (Cons w ws)
  then show ?case using split_on_append [of "CHR '' ''" a "w @ concat (map (\<lambda>w. CHR '' '' # w) ws)"] by simp
qed (simp add: split_on_no)

lemma hint_words:
  "concat (map (\<lambda>v. '' -aL '' @ v) al) @ concat (map (\<lambda>v. '' -aF '' @ v) af) =
   concat (map (\<lambda>w. CHR '' '' # w) (concat (map (\<lambda>x. [''-aL'', x]) al) @ concat (map (\<lambda>x. [''-aF'', x]) af)))"
proof -
  have "concat (map (\<lambda>v. '' -aL '' @ v) al) = concat (map (\<lambda>w. CHR '' '' # w) (concat (map (\<lambda>x. [''-aL'', x]) al)))"
    by (induction al) simp_all
  moreover have "concat (map (\<lambda>v. '' -aF '' @ v) af) = concat (map (\<lambda>w. CHR '' '' # w) (concat (map (\<lambda>x. [''-aF'', x]) af)))"
    by (induction af) simp_all
  ultimately show ?thesis by simp
qed

lemma peer_command_words:
  assumes "CHR '' '' \<notin> set code" "\<forall>x \<in> set (al @ af). CHR '' '' \<notin> set x"
  shows "split_on (CHR '' '') (peer_command code al af) =
    [''QVOLE_CODE='' @ code, ''qvole'', ''tunnel''] @ concat (map (\<lambda>x. [''-aL'', x]) al) @ concat (map (\<lambda>x. [''-aF'', x]) af)"
  unfolding peer_command_def hint_words
  using split_words [of "''qvole'' # ''tunnel'' # concat (map (\<lambda>x. [''-aL'', x]) al) @ concat (map (\<lambda>x. [''-aF'', x]) af)"
      "''QVOLE_CODE='' @ code"] assms by auto

section \<open>Properties\<close>

text \<open>
  Specifications that pass the check made before the session starts never fail later: they all
  parse, there are at most as many requests as the exchange takes, the allowlist is well formed,
  and the hint for the peer can be printed.
\<close>

theorem validated_config_starts:
  assumes "validate_tunnel_config ls rs al af all = None"
  shows "\<exists>reqs hint. my_requests ls rs = Inr reqs \<and> length reqs \<le> MAX_TUNNEL_REQUESTS
    \<and> validate (allow_of all al af) = Inr () \<and> tunnel_peer_command code ls rs = Inr hint
    \<and> start_tunnel getenv lower max_permits dns connected io ls rs (allow_of all al af) fms idle g
        \<notin> {Some (Inl (Bad_allow bad)), Some (Inl (Bad_spec e)), Some (Inl (Config (Too_many n)))}"
proof -
  obtain l r where v: "parse_specs ''L'' ls = Inr l" "parse_specs ''R'' rs = Inr r" "my_requests ls rs = Inr (l @ r)"
    "length (l @ r) \<le> MAX_TUNNEL_REQUESTS" "validate (allow_of all al af) = Inr ()"
    using validated_requests [OF assms] by metis
  obtain hint where h: "tunnel_peer_command code ls rs = Inr hint"
    using hint_addrs_ok [OF v(1), of target_addr "[]"] hint_addrs_ok [OF v(2), of listen_addr "[]"]
    by (cases "hint_addrs listen_addr ''R'' rs [] = Inr [] \<and> hint_addrs target_addr ''L'' ls [] = Inr []")
      (auto simp: tunnel_peer_command_def)
  have n: "exchange_tunnel_config io (l @ r) a srv \<noteq> Some (Inl (Too_many n))" for a srv
    using v(4) not_too_many [of io "l @ r" a srv n] by auto
  have "start_tunnel getenv lower max_permits dns connected io ls rs (allow_of all al af) fms idle g
        \<notin> {Some (Inl (Bad_allow bad)), Some (Inl (Bad_spec e)), Some (Inl (Config (Too_many n)))}"
    using n v(3,5) by (auto simp: start_tunnel_def Let_def split: sum.splits option.splits if_splits)
  with v h show ?thesis by blast
qed

lemma web_config_valid: "validate_tunnel_config [web_spec] [] [] [] False = None"
proof -
  let ?q = "\<lparr>tr_type = ''L'', listen_addr = ''127.0.0.1:8080'', target_addr = ''localhost:80''\<rparr>"
  have p: "parse_tunnel_request web_spec ''L'' = Inr ?q"
    by (simp add: parse_tunnel_request_def split_tunnel_request_def web_spec_def join_host_port_def strip_brackets_def LOCALHOST_def)
  have "split_host_port ''127.0.0.1:8080'' = Inr (''127.0.0.1'', ''8080'')" "split_host_port ''localhost:80'' = Inr (''localhost'', ''80'')"
    by (simp_all add: split_host_port_def rposition_def starts_with_def)
  moreover have "parse_i32 ''8080'' = Some 8080" "parse_i32 ''80'' = Some 80"
    by (simp_all add: parse_i32_def parse_i64_def digit_val_def is_ascii_digit_def)
  ultimately have "validate_tunnel_spec web_spec ''L'' = None"
    by (simp add: validate_tunnel_spec_def p check_addr_def)
  then show ?thesis by (simp add: validate_tunnel_config_def MAX_TUNNEL_SPECS_def validate_def allow_of_def)
qed

theorem validated_config_starts_witness:
  "\<exists>reqs. my_requests [web_spec] [] = Inr reqs \<and> length reqs \<le> MAX_TUNNEL_REQUESTS"
  using validated_config_starts [OF web_config_valid] by blast



end
