(* ===== verification/Copy.thy ===== *)
theory Copy
  imports Prelude "HOL-Library.Sublist"
begin

text \<open>
  \<^verbatim>\<open>crates/qvole-app/src/copy.rs\<close>, \<^verbatim>\<open>crates/qvole-protocol/src/disconnect.rs\<close> and \<^verbatim>\<open>pool.rs\<close>, and
  the bridge \<^verbatim>\<open>start_stdin_pipe\<close> of \<^verbatim>\<open>pipe.rs\<close>. The two directions of a copy are polled by one task;
  a poll is given by the reads and writes that complete in it. The errors of the QUIC library are
  the variants the source distinguishes.
\<close>

section \<open>Errors\<close>

datatype conn_error =
    VersionMismatch | TransportError | ConnectionClosed | ApplicationClosed nat | Reset | TimedOut
  | LocallyClosed | CidsExhausted

definition is_peer_disconnect :: "conn_error \<Rightarrow> bool" where
  "is_peer_disconnect e =
     (case e of
        ApplicationClosed _ \<Rightarrow> True | ConnectionClosed \<Rightarrow> True | TransportError \<Rightarrow> True | Reset \<Rightarrow> True | TimedOut \<Rightarrow> True
      | _ \<Rightarrow> False)"

text \<open>Whether it was a disconnect, which is what \<^verbatim>\<open>log_disconnect\<close> returns after its message.\<close>

definition log_disconnect :: "conn_error \<Rightarrow> bool" where
  "log_disconnect e = (if \<not> is_peer_disconnect e then False else True)"

datatype copy_kind = Benign | Disconnect | Timeout | Error

definition conn_close_kind :: "conn_error \<Rightarrow> copy_kind" where
  "conn_close_kind e =
     (case e of
        ApplicationClosed code \<Rightarrow> if code = 0 then Benign else Disconnect
      | ConnectionClosed \<Rightarrow> Disconnect | TransportError \<Rightarrow> Disconnect | Reset \<Rightarrow> Disconnect | TimedOut \<Rightarrow> Disconnect
      | LocallyClosed \<Rightarrow> Benign
      | VersionMismatch \<Rightarrow> Error | CidsExhausted \<Rightarrow> Error)"

datatype read_error = Read_reset | Read_lost conn_error | Read_closed | Read_illegal | Read_rejected
datatype write_error = Write_stopped | Write_lost conn_error | Write_closed | Write_rejected
datatype io_kind = Kind_timed_out | Kind_aborted | Kind_broken_pipe | Kind_other
datatype io_error = Quic_read read_error | Quic_write write_error | Quic_conn conn_error | Plain io_kind

fun copy_error_kind :: "io_error \<Rightarrow> copy_kind" where
  "copy_error_kind (Quic_read re) =
     (case re of Read_reset \<Rightarrow> Error | Read_lost ce \<Rightarrow> conn_close_kind ce | Read_closed \<Rightarrow> Benign
      | Read_illegal \<Rightarrow> Error | Read_rejected \<Rightarrow> Error)"
| "copy_error_kind (Quic_write we) =
     (case we of Write_stopped \<Rightarrow> Error | Write_lost ce \<Rightarrow> conn_close_kind ce | Write_closed \<Rightarrow> Benign | Write_rejected \<Rightarrow> Error)"
| "copy_error_kind (Quic_conn ce) = conn_close_kind ce"
| "copy_error_kind (Plain k) =
     (case k of Kind_timed_out \<Rightarrow> Timeout | Kind_aborted \<Rightarrow> Benign | Kind_broken_pipe \<Rightarrow> Benign | Kind_other \<Rightarrow> Error)"

text \<open>The level a failed copy is logged at.\<close>

datatype log_level = Debug_level | Error_level

definition log_copy_error :: "io_error \<Rightarrow> log_level option" where
  "log_copy_error e =
     (case copy_error_kind e of
        Timeout \<Rightarrow> Some Debug_level | Disconnect \<Rightarrow> Some Debug_level | Error \<Rightarrow> Some Error_level | Benign \<Rightarrow> None)"

section \<open>The buffer pool\<close>

definition BUFFER_POOL_SIZE :: nat where "BUFFER_POOL_SIZE = 32 * 1024"

type_synonym pool = "byte list list"

definition get_buffer :: "pool \<Rightarrow> byte list \<times> pool" where
  "get_buffer pool = (if pool = [] then (replicate BUFFER_POOL_SIZE 0, []) else (last pool, butlast pool))"

definition put_buffer :: "byte list \<Rightarrow> pool \<Rightarrow> pool" where
  "put_buffer buf pool =
     (let buf = map (\<lambda>_. 0) buf
      in if length buf = BUFFER_POOL_SIZE then pool @ [buf] else pool)"

section \<open>One direction\<close>

text \<open>
  The loop of \<^verbatim>\<open>copy_inner\<close>: a read, then a write of what was read; the stop token is looked at
  only while the loop waits for a read, and before the read. \<open>consumed\<close> is all that was read,
  \<open>written\<close> all that the destination took, \<open>refreshed\<close> the number of calls of \<^verbatim>\<open>refresh\<close>. A write that
  fails may have taken some of the bytes.
\<close>

record direction =
  consumed :: "byte list"
  written :: "byte list"
  writing :: "byte list option"
  refreshed :: nat
  outcome :: "(io_error + unit) option"

definition idle_direction :: direction where
  "idle_direction = \<lparr>consumed = [], written = [], writing = None, refreshed = 0, outcome = None\<rparr>"

datatype io_event = Read_done "io_error + byte list" | Write_done "(nat \<times> io_error) option"

definition check_stop :: "bool \<Rightarrow> direction \<Rightarrow> direction" where
  "check_stop stop d = (if stop \<and> outcome d = None \<and> writing d = None then d\<lparr>outcome := Some (Inr ())\<rparr> else d)"

fun copy_event :: "io_event \<Rightarrow> direction \<Rightarrow> direction" where
  "copy_event (Read_done r) d =
     (if outcome d \<noteq> None \<or> writing d \<noteq> None then d
      else case r of
             Inl e \<Rightarrow> d\<lparr>outcome := Some (Inl e)\<rparr>
           | Inr bs \<Rightarrow> if bs = [] then d\<lparr>outcome := Some (Inr ())\<rparr>
                       else d\<lparr>consumed := consumed d @ bs, refreshed := refreshed d + 1, writing := Some bs\<rparr>)"
| "copy_event (Write_done w) d =
     (case writing d of
        None \<Rightarrow> d
      | Some bs \<Rightarrow>
          (case w of
             None \<Rightarrow> d\<lparr>written := written d @ bs, writing := None\<rparr>
           | Some (k, e) \<Rightarrow> d\<lparr>written := written d @ take k bs, writing := None, outcome := Some (Inl e)\<rparr>))"

text \<open>One poll of a direction.\<close>

fun copy_poll :: "bool \<Rightarrow> io_event list \<Rightarrow> direction \<Rightarrow> direction" where
  "copy_poll stop [] d = check_stop stop d"
| "copy_poll stop (e # es) d = copy_poll stop es (copy_event e (check_stop stop d))"

definition dir_done :: "direction \<Rightarrow> bool" where
  "dir_done d \<longleftrightarrow> outcome d \<noteq> None"

text \<open>
  The copy from its start, given by the polls of its task: \<open>None\<close> while it runs. The reads go through
  a buffer of the pool, which is given back at the end; \<open>read_into\<close> is what a read leaves in it.
  \<^verbatim>\<open>copy_direction_fair\<close> differs from \<^verbatim>\<open>copy_direction\<close> in that a poll ends after each write; both are
  covered by the polls being arbitrary.
\<close>

definition copy_run :: "(bool \<times> io_event list) list \<Rightarrow> direction" where
  "copy_run polls = foldl (\<lambda>d (stop, es). copy_poll stop es d) idle_direction polls"

definition read_into :: "byte list \<Rightarrow> io_event \<Rightarrow> byte list" where
  "read_into buf e = (case e of Read_done (Inr bs) \<Rightarrow> take (length buf) bs @ drop (length bs) buf | _ \<Rightarrow> buf)"

definition copy_stream :: "(bool \<times> io_event list) list \<Rightarrow> pool \<Rightarrow> ((io_error + unit) \<times> pool) option" where
  "copy_stream polls pool =
     (let (buf, pool) = get_buffer pool;
          d = copy_run polls;
          buf = foldl read_into buf (concat (map snd polls))
      in case outcome d of None \<Rightarrow> None | Some result \<Rightarrow> Some (result, put_buffer buf pool))"

definition copy_direction :: "(bool \<times> io_event list) list \<Rightarrow> pool \<Rightarrow> (log_level option \<times> pool) option" where
  "copy_direction polls pool =
     (case copy_stream polls pool of
        None \<Rightarrow> None
      | Some (Inl e, pool) \<Rightarrow> Some (log_copy_error e, pool)
      | Some (Inr _, pool) \<Rightarrow> Some (None, pool))"

section \<open>Two directions\<close>

text \<open>\<^verbatim>\<open>bidirectional_copy\<close>: the flags of its poll function.\<close>

record pair =
  dir_ab :: direction
  dir_ba :: direction
  fired :: bool
  stopped :: bool
  interrupts :: nat

definition pair_start :: pair where
  "pair_start = \<lparr>dir_ab = idle_direction, dir_ba = idle_direction, fired = False, stopped = False, interrupts = 0\<rparr>"

text \<open>The caller's token stops both directions too.\<close>

definition pair_poll :: "bool \<Rightarrow> io_event list \<Rightarrow> io_event list \<Rightarrow> pair \<Rightarrow> pair" where
  "pair_poll cancelled ea eb p =
     (let stop = cancelled \<or> stopped p;
          a = (if dir_done (dir_ab p) then dir_ab p else copy_poll stop ea (dir_ab p));
          b = (if dir_done (dir_ba p) then dir_ba p else copy_poll stop eb (dir_ba p));
          p = p\<lparr>dir_ab := a, dir_ba := b\<rparr>
      in if (dir_done a \<or> dir_done b) \<and> \<not> fired p
         then p\<lparr>fired := True, interrupts := interrupts p + 1, stopped := True\<rparr> else p)"

definition pair_ready :: "pair \<Rightarrow> bool" where
  "pair_ready p \<longleftrightarrow> dir_done (dir_ab p) \<and> dir_done (dir_ba p)"

section \<open>The stdin bridge\<close>

text \<open>
  \<^verbatim>\<open>start_stdin_pipe\<close>: the end of stdin closes the sending half of the stream, which is the flag
  \<open>fin_sent\<close>, and leaves the other direction alone; the end of the peer stops the reading of stdin.
\<close>

record bridge =
  stdin_dir :: direction
  inbound_dir :: direction
  closed_stdin :: nat
  stdin_stop :: bool

definition bridge_start :: bridge where
  "bridge_start = \<lparr>stdin_dir = idle_direction, inbound_dir = idle_direction, closed_stdin = 0, stdin_stop = False\<rparr>"

definition fin_sent :: "bridge \<Rightarrow> bool" where
  "fin_sent b \<longleftrightarrow> dir_done (stdin_dir b)"

definition bridge_poll :: "bool \<Rightarrow> io_event list \<Rightarrow> io_event list \<Rightarrow> bridge \<Rightarrow> bridge" where
  "bridge_poll cancelled es ei b =
     (let s = (if dir_done (stdin_dir b) then stdin_dir b else copy_poll (cancelled \<or> stdin_stop b) es (stdin_dir b));
          i = (if dir_done (inbound_dir b) then inbound_dir b else copy_poll cancelled ei (inbound_dir b));
          first = ((dir_done s \<or> dir_done i) \<and> closed_stdin b = 0)
      in b\<lparr>stdin_dir := s, inbound_dir := i,
           closed_stdin := (if first then 1 else closed_stdin b),
           stdin_stop := (stdin_stop b \<or> (dir_done i \<and> \<not> dir_done s))\<rparr>)"

definition bridge_ready :: "bridge \<Rightarrow> bool" where
  "bridge_ready b \<longleftrightarrow> dir_done (stdin_dir b) \<and> dir_done (inbound_dir b)"

section \<open>A direction keeps its bytes\<close>

text \<open>
  What is read and not yet written is in the write that is under way; a direction that ended
  without an error has written all it read, and one that failed has written a prefix of it.
\<close>

definition dir_ok :: "direction \<Rightarrow> bool" where
  "dir_ok d = (case outcome d of
     None \<Rightarrow> consumed d = written d @ (case writing d of None \<Rightarrow> [] | Some bs \<Rightarrow> bs)
   | Some (Inr _) \<Rightarrow> writing d = None \<and> consumed d = written d
   | Some (Inl _) \<Rightarrow> writing d = None \<and> prefix (written d) (consumed d))"

lemma idle_direction_ok: "dir_ok idle_direction"
  by (simp add: dir_ok_def idle_direction_def)

lemma check_stop_ok: "dir_ok d \<Longrightarrow> dir_ok (check_stop stop d)"
  by (auto simp: dir_ok_def check_stop_def)

lemma copy_event_ok: "dir_ok d \<Longrightarrow> dir_ok (copy_event e d)"
  by (cases e)
    (auto simp: dir_ok_def take_is_prefix split: option.splits sum.splits)

lemma copy_poll_ok: "dir_ok d \<Longrightarrow> dir_ok (copy_poll stop es d)"
  by (induction es arbitrary: d) (simp_all add: check_stop_ok copy_event_ok)

lemma check_stop_done: "dir_done d \<Longrightarrow> check_stop stop d = d"
  by (simp add: dir_done_def check_stop_def)

lemma copy_event_done: "dir_done d \<Longrightarrow> dir_ok d \<Longrightarrow> copy_event e d = d"
  by (cases e) (auto simp: dir_done_def dir_ok_def split: option.splits sum.splits)

lemma copy_poll_done: "dir_done d \<Longrightarrow> dir_ok d \<Longrightarrow> copy_poll stop es d = d"
  by (induction es) (simp_all add: check_stop_done copy_event_done)

text \<open>A stopped direction ends in its next poll, unless a write is still under way at the end of it.\<close>

lemma check_stop_ends: "writing (check_stop True d) = None \<Longrightarrow> dir_done (check_stop True d)"
  by (auto simp: check_stop_def dir_done_def split: if_splits)

lemma copy_poll_stopped: "writing (copy_poll True es d) = None \<Longrightarrow> dir_done (copy_poll True es d)"
  by (induction es arbitrary: d) (simp_all add: check_stop_ends)

section \<open>Two directions, in general\<close>

text \<open>
  What the two bridges share: a poll advances each direction that has not ended by one poll of its
  own, with a stop flag the bridge decides on. Then bytes are neither lost, repeated nor reordered
  in either direction, and a direction that has ended stays as it is.
\<close>

locale two_way =
  fixes left right :: "'s \<Rightarrow> direction"
    and poll :: "bool \<Rightarrow> io_event list \<Rightarrow> io_event list \<Rightarrow> 's \<Rightarrow> 's"
    and left_stop right_stop :: "bool \<Rightarrow> 's \<Rightarrow> bool"
  assumes poll_left: "left (poll c el er s) =
      (if dir_done (left s) then left s else copy_poll (left_stop c s) el (left s))"
    and poll_right: "right (poll c el er s) =
      (if dir_done (right s) then right s else copy_poll (right_stop c s) er (right s))"
begin

fun run_polls :: "(bool \<times> io_event list \<times> io_event list) list \<Rightarrow> 's \<Rightarrow> 's" where
  "run_polls [] s = s"
| "run_polls ((c, el, er) # ps) s = run_polls ps (poll c el er s)"

lemma poll_ok:
  "dir_ok (left s) \<Longrightarrow> dir_ok (left (poll c el er s))" "dir_ok (right s) \<Longrightarrow> dir_ok (right (poll c el er s))"
  by (simp_all add: poll_left poll_right copy_poll_ok)

lemma run_polls_ok:
  "dir_ok (left s) \<Longrightarrow> dir_ok (right s) \<Longrightarrow> dir_ok (left (run_polls ps s)) \<and> dir_ok (right (run_polls ps s))"
  by (induction ps s rule: run_polls.induct) (simp_all add: poll_ok)

lemma run_polls_left_done: "dir_done (left s) \<Longrightarrow> left (run_polls ps s) = left s"
  by (induction ps s rule: run_polls.induct) (simp_all add: poll_left)

lemma run_polls_right_done: "dir_done (right s) \<Longrightarrow> right (run_polls ps s) = right s"
  by (induction ps s rule: run_polls.induct) (simp_all add: poll_right)

end

interpretation pair_way: two_way dir_ab dir_ba pair_poll "\<lambda>c p. c \<or> stopped p" "\<lambda>c p. c \<or> stopped p"
  by unfold_locales (simp_all add: pair_poll_def Let_def)

interpretation bridge_way: two_way stdin_dir inbound_dir bridge_poll "\<lambda>c b. c \<or> stdin_stop b" "\<lambda>c b. c"
  by unfold_locales (simp_all add: bridge_poll_def Let_def)

section \<open>The interrupt and the end of a pair\<close>

definition pair_inv :: "pair \<Rightarrow> bool" where
  "pair_inv p \<longleftrightarrow> dir_ok (dir_ab p) \<and> dir_ok (dir_ba p)
     \<and> (fired p \<longleftrightarrow> dir_done (dir_ab p) \<or> dir_done (dir_ba p)) \<and> stopped p = fired p
     \<and> interrupts p = (if fired p then 1 else 0)"

lemma pair_poll_inv: "pair_inv p \<Longrightarrow> pair_inv (pair_poll c ea eb p)"
  using pair_way.poll_ok [of p c ea eb]
  by (auto simp: pair_inv_def pair_poll_def Let_def)

lemma pair_run_inv: "pair_inv p \<Longrightarrow> pair_inv (pair_way.run_polls ps p)"
  by (induction ps p rule: pair_way.run_polls.induct) (simp_all add: pair_poll_inv)

lemma pair_start_inv: "pair_inv pair_start"
  by (simp add: pair_inv_def pair_start_def idle_direction_ok) (simp add: idle_direction_def dir_done_def)

definition bridge_inv :: "bridge \<Rightarrow> bool" where
  "bridge_inv b \<longleftrightarrow> dir_ok (stdin_dir b) \<and> dir_ok (inbound_dir b)
     \<and> closed_stdin b = (if dir_done (stdin_dir b) \<or> dir_done (inbound_dir b) then 1 else 0)
     \<and> (stdin_stop b \<longrightarrow> dir_done (inbound_dir b))"

lemma bridge_poll_inv: "bridge_inv b \<Longrightarrow> bridge_inv (bridge_poll c es ei b)"
  using bridge_way.poll_ok [of b c es ei]
  by (auto simp: bridge_inv_def bridge_poll_def Let_def)

lemma bridge_run_inv: "bridge_inv b \<Longrightarrow> bridge_inv (bridge_way.run_polls ps b)"
  by (induction ps b rule: bridge_way.run_polls.induct) (simp_all add: bridge_poll_inv)

lemma bridge_start_inv: "bridge_inv bridge_start"
  by (simp add: bridge_inv_def bridge_start_def idle_direction_ok) (simp add: idle_direction_def dir_done_def)

text \<open>Without a stop a direction ends only by the end of its source or an error.\<close>

definition ends_reading :: "io_event list \<Rightarrow> bool" where
  "ends_reading es \<longleftrightarrow> Read_done (Inr []) \<in> set es \<or> (\<exists>e. Read_done (Inl e) \<in> set es) \<or> (\<exists>k e. Write_done (Some (k, e)) \<in> set es)"

lemma copy_event_running: "\<not> dir_done d \<Longrightarrow> \<not> ends_reading [e] \<Longrightarrow> \<not> dir_done (copy_event e d)"
  by (cases e) (auto simp: dir_done_def ends_reading_def split: option.splits sum.splits)

lemma copy_poll_running: "\<not> dir_done d \<Longrightarrow> \<not> ends_reading es \<Longrightarrow> \<not> dir_done (copy_poll False es d)"
proof (induction es arbitrary: d)
  case (Cons e es)
  then have "\<not> ends_reading [e]" "\<not> ends_reading es" by (auto simp: ends_reading_def)
  with Cons copy_event_running show ?case by (simp add: check_stop_def)
qed (simp add: check_stop_def)

lemma inbound_keeps_running:
  "\<not> dir_done (inbound_dir b) \<Longrightarrow> \<forall>(c, es, ei) \<in> set ps. \<not> c \<and> \<not> ends_reading ei \<Longrightarrow>
   \<not> dir_done (inbound_dir (bridge_way.run_polls ps b))"
proof (induction ps b rule: bridge_way.run_polls.induct)
  case (2 c el er ps b)
  then have "\<not> dir_done (inbound_dir (bridge_poll c el er b))"
    by (simp add: bridge_way.poll_right copy_poll_running)
  with 2 show ?case by simp
qed simp

section \<open>The pool stays clean\<close>

definition clean_buffer :: "byte list \<Rightarrow> bool" where
  "clean_buffer b \<longleftrightarrow> b = replicate BUFFER_POOL_SIZE 0"

text \<open>A use of the pool: take a buffer, or give one back with some contents.\<close>

datatype pool_use = Get | Put "byte list"

fun pool_run :: "pool_use list \<Rightarrow> pool \<Rightarrow> byte list list \<times> pool" where
  "pool_run [] p = ([], p)"
| "pool_run (Get # us) p = (let (b, p) = get_buffer p; (bs, p) = pool_run us p in (b # bs, p))"
| "pool_run (Put b # us) p = pool_run us (put_buffer b p)"

lemma put_buffer_clean: "list_all clean_buffer p \<Longrightarrow> list_all clean_buffer (put_buffer b p)"
  by (auto simp: put_buffer_def clean_buffer_def Let_def map_replicate_const)

lemma get_buffer_clean:
  "list_all clean_buffer p \<Longrightarrow> get_buffer p = (b, p') \<Longrightarrow> clean_buffer b \<and> list_all clean_buffer p'"
  by (cases p rule: rev_cases) (auto simp: get_buffer_def clean_buffer_def split: if_splits)

lemma pool_run_clean:
  "list_all clean_buffer p \<Longrightarrow> list_all clean_buffer (fst (pool_run us p)) \<and> list_all clean_buffer (snd (pool_run us p))"
proof (induction us p rule: pool_run.induct)
  case (2 us p)
  obtain b p' where g: "get_buffer p = (b, p')" by fastforce
  with 2 get_buffer_clean [OF 2(2) g] show ?case by (simp add: split_beta Let_def)
qed (simp_all add: put_buffer_clean)

text \<open>A copy ends with all it read written, or with the error it returns, and leaves the pool clean.\<close>

lemma copy_run_ok: "dir_ok (copy_run polls)"
proof -
  have "dir_ok d \<Longrightarrow> dir_ok (foldl (\<lambda>d (stop, es). copy_poll stop es d) d polls)" for d
    by (induction polls arbitrary: d) (auto simp: copy_poll_ok)
  then show ?thesis by (simp add: copy_run_def idle_direction_ok)
qed

lemma copy_stream_result:
  assumes "copy_stream polls pool = Some (result, pool')" "list_all clean_buffer pool"
  shows "outcome (copy_run polls) = Some result \<and> list_all clean_buffer pool'
    \<and> (result = Inr () \<longrightarrow> written (copy_run polls) = consumed (copy_run polls))"
proof -
  obtain buf q where g: "get_buffer pool = (buf, q)" by fastforce
  have "list_all clean_buffer q" using get_buffer_clean [OF assms(2) g] by blast
  with assms g copy_run_ok [of polls] show ?thesis
    by (auto simp: copy_stream_def Let_def dir_ok_def put_buffer_clean split: option.splits)
qed

lemma pair_run_fold: "foldl (\<lambda>p (c, ea, eb). pair_poll c ea eb p) q polls = pair_way.run_polls polls q"
  by (induction polls arbitrary: q) auto

lemma bridge_run_fold: "foldl (\<lambda>b (c, es, ei). bridge_poll c es ei b) q polls = bridge_way.run_polls polls q"
  by (induction polls arbitrary: q) auto

lemma dir_ok_prefix: "dir_ok d \<Longrightarrow> prefix (written d) (consumed d)"
  by (auto simp: dir_ok_def split: option.splits sum.splits)

lemma dir_ok_complete: "dir_ok d \<Longrightarrow> outcome d = Some (Inr ()) \<Longrightarrow> written d = consumed d"
  by (auto simp: dir_ok_def)

lemma pair_stops:
  assumes "pair_inv p" "0 < interrupts p"
    and "writing (dir_ab (pair_poll c ea eb p)) = None" "writing (dir_ba (pair_poll c ea eb p)) = None"
  shows "pair_ready (pair_poll c ea eb p)"
  using assms copy_poll_stopped
  by (auto simp: pair_inv_def pair_ready_def pair_way.poll_left pair_way.poll_right split: if_splits)

section \<open>Properties\<close>


definition echo_polls :: "(bool \<times> io_event list \<times> io_event list) list" where
  "echo_polls = [(False, [Read_done (Inr [1, 2]), Write_done None], [Read_done (Inr [3])]), (False, [Read_done (Inr [])], [])]"



definition eof_polls :: "(bool \<times> io_event list \<times> io_event list) list" where
  "eof_polls = [(False, [Read_done (Inr [])], [])]"


text \<open>
  A buffer taken from the pool is 32 KiB of zeros, whatever was in the buffers given back and in
  whatever order buffers were taken and given back.
\<close>

theorem pool_buffers_clean:
  "\<forall>b \<in> set (fst (pool_run uses [])). b = replicate BUFFER_POOL_SIZE 0"
  using pool_run_clean [of "[]" uses] by (simp add: list_all_iff clean_buffer_def)

theorem pool_buffers_clean_witness:
  "fst (pool_run [Put (replicate BUFFER_POOL_SIZE 255), Get] []) = [replicate BUFFER_POOL_SIZE 0]"
proof -
  let ?r = "fst (pool_run [Put (replicate BUFFER_POOL_SIZE 255), Get] [])"
  have "length ?r = 1" by (simp add: split_beta Let_def)
  moreover have "\<forall>b \<in> set ?r. b = replicate BUFFER_POOL_SIZE 0" by (rule pool_buffers_clean)
  ultimately show ?thesis by (cases ?r) auto
qed

end
