(* ===== verification/Exec.thy ===== *)
theory Exec
  imports Cli Copy
begin

text \<open>
  \<^verbatim>\<open>crates/qvole-app/src/exec.rs\<close>: splitting a command line, and the life of the command a peer runs.
  The child, its pipes and the connection are events: the child ends with a status, the session is
  cancelled or the connection lost, the copy of the peer's bytes to the child ends, the drain timer
  fires, the copy of the child's output ends. Between events the function goes on as far as it can.
\<close>

section \<open>Splitting a command line\<close>

definition owned_string :: "string \<Rightarrow> string" where
  "owned_string bytes = (if utf8_valid bytes then bytes else from_utf8_lossy bytes)"

definition SQ :: char where "SQ = CHR 39"
definition DQc :: char where "DQc = CHR 34"

record split_state =
  sp_args :: "string list"
  sp_current :: string
  sp_started :: bool
  sp_single :: bool
  sp_double :: bool

definition split_byte :: "char \<Rightarrow> split_state \<Rightarrow> split_state" where
  "split_byte c s =
     (if sp_single s then (if c = SQ then s\<lparr>sp_single := False\<rparr> else s\<lparr>sp_current := sp_current s @ [c]\<rparr>)
      else if sp_double s then (if c = DQc then s\<lparr>sp_double := False\<rparr> else s\<lparr>sp_current := sp_current s @ [c]\<rparr>)
      else if c = SQ then s\<lparr>sp_single := True, sp_started := True\<rparr>
      else if c = DQc then s\<lparr>sp_double := True, sp_started := True\<rparr>
      else if c = CHR '' '' \<or> c = CHR 9 then
        (if sp_started s
         then s\<lparr>sp_args := sp_args s @ [owned_string (sp_current s)], sp_current := [], sp_started := False\<rparr> else s)
      else s\<lparr>sp_current := sp_current s @ [c], sp_started := True\<rparr>)"

definition split_start :: split_state where
  "split_start = \<lparr>sp_args = [], sp_current = [], sp_started = False, sp_single = False, sp_double = False\<rparr>"

definition split_command :: "string \<Rightarrow> string list option" where
  "split_command cmd =
     (let s = foldl (\<lambda>s c. split_byte c s) split_start cmd
      in if sp_single s \<or> sp_double s then None
         else Some (if sp_started s then sp_args s @ [owned_string (sp_current s)] else sp_args s))"

section \<open>The life of a command\<close>

datatype child_status = Exited int | Signaled | Wait_failed string

definition status_error :: "child_status \<Rightarrow> exec_error option" where
  "status_error st =
     (case st of
        Exited c \<Rightarrow> if c = 0 then None else Some (Exec_exit c)
      | Signaled \<Rightarrow> Some Exec_killed
      | Wait_failed e \<Rightarrow> Some (Exec_other (''wait: '' @ e)))"

text \<open>
  Before the child runs: the stream is opened and announced, the command split, the child spawned.
  \<open>cancelled\<close> is whether the session is cancelled when an error is looked at.
\<close>

definition exec_prepare ::
    "bool \<Rightarrow> string + unit \<Rightarrow> string + unit \<Rightarrow> (string list \<Rightarrow> string option) \<Rightarrow> string \<Rightarrow> exec_error + string list" where
  "exec_prepare cancelled opened announced spawn command =
     (let failed = (\<lambda>e. if cancelled then Inl Exec_canceled else Inl (Exec_quic e))
      in case opened of
           Inl e \<Rightarrow> failed e
         | Inr _ \<Rightarrow>
             (case announced of
                Inl e \<Rightarrow> failed e
              | Inr _ \<Rightarrow>
                  (case split_command command of
                     None \<Rightarrow> Inl (Exec_other ''empty command'')
                   | Some args \<Rightarrow>
                       if args = [] then Inl (Exec_other ''empty command'')
                       else (case spawn args of Some e \<Rightarrow> Inl (Exec_other e) | None \<Rightarrow> Inr args))))"

datatype exec_event =
    Stop_requested | Child_ended child_status | Stdin_copy_ended | Drain_timer | Stdout_ended "string + unit"

datatype exec_phase =
    Await_child | Draining "exec_error option" | Await_copy "exec_error option" | Await_stdout "exec_error option"
  | Returned "exec_error + unit"

record exec_run =
  ex_phase :: exec_phase
  exec_stop :: bool
  copy_stop :: bool
  copy_done :: bool
  stdout_result :: "(string + unit) option"
  child_killed :: bool
  recv_stopped :: bool
  stdin_shut :: bool
  stream_finished :: bool

definition exec_start :: exec_run where
  "exec_start = \<lparr>ex_phase = Await_child, exec_stop = False, copy_stop = False, copy_done = False, stdout_result = None,
     child_killed = False, recv_stopped = False, stdin_shut = False, stream_finished = False\<rparr>"

definition finish :: "exec_error option \<Rightarrow> string + unit \<Rightarrow> exec_error + unit" where
  "finish cmd_err stdout =
     (case stdout of
        Inl e \<Rightarrow> Inl (Exec_other (''stdout copy: '' @ e))
      | Inr _ \<Rightarrow> (case cmd_err of Some e \<Rightarrow> Inl e | None \<Rightarrow> Inr ()))"

text \<open>How far the function gets without another event.\<close>

definition go_stdout :: "exec_run \<Rightarrow> exec_run" where
  "go_stdout r = (case ex_phase r of
     Await_stdout err \<Rightarrow>
       (case stdout_result r of None \<Rightarrow> r | Some out \<Rightarrow> r\<lparr>ex_phase := Returned (finish err out), exec_stop := True, copy_stop := True\<rparr>)
   | _ \<Rightarrow> r)"

definition go_copy :: "exec_run \<Rightarrow> exec_run" where
  "go_copy r = (case ex_phase r of
     Await_copy err \<Rightarrow> if copy_done r then r\<lparr>ex_phase := Await_stdout err\<rparr> else r
   | _ \<Rightarrow> r)"

definition go_drain :: "exec_run \<Rightarrow> exec_run" where
  "go_drain r = (case ex_phase r of
     Draining err \<Rightarrow>
       if copy_done r then r\<lparr>ex_phase := Await_stdout err\<rparr>
       else if exec_stop r then r\<lparr>copy_stop := True, ex_phase := Await_copy err\<rparr> else r
   | _ \<Rightarrow> r)"

definition go_child :: "exec_run \<Rightarrow> exec_run" where
  "go_child r = (if ex_phase r = Await_child \<and> exec_stop r then r\<lparr>child_killed := True\<rparr> else r)"

definition settle :: "exec_run \<Rightarrow> exec_run" where
  "settle r = go_stdout (go_copy (go_drain (go_child r)))"

definition exec_apply :: "exec_event \<Rightarrow> exec_run \<Rightarrow> exec_run" where
  "exec_apply e r =
     (case e of
        Stop_requested \<Rightarrow> r\<lparr>exec_stop := True, copy_stop := True\<rparr>
      | Child_ended st \<Rightarrow> if ex_phase r = Await_child then r\<lparr>ex_phase := Draining (status_error st)\<rparr> else r
      | Stdin_copy_ended \<Rightarrow>
          if copy_done r then r
          else r\<lparr>recv_stopped := copy_stop r, stdin_shut := True, copy_done := True\<rparr>
      | Drain_timer \<Rightarrow> (case ex_phase r of Draining err \<Rightarrow> r\<lparr>copy_stop := True, ex_phase := Await_copy err\<rparr> | _ \<Rightarrow> r)
      | Stdout_ended out \<Rightarrow>
          if stdout_result r = None
          then r\<lparr>stdout_result := Some out, stream_finished := (case out of Inr _ \<Rightarrow> True | Inl _ \<Rightarrow> False)\<rparr> else r)"

definition exec_events :: "exec_event list \<Rightarrow> exec_run" where
  "exec_events es = foldl (\<lambda>r e. settle (exec_apply e r)) exec_start es"

definition run_exec_command ::
    "bool \<Rightarrow> string + unit \<Rightarrow> string + unit \<Rightarrow> (string list \<Rightarrow> string option) \<Rightarrow> string \<Rightarrow> exec_event list \<Rightarrow> (exec_error + unit) option" where
  "run_exec_command cancelled opened announced spawn command es =
     (case exec_prepare cancelled opened announced spawn command of
        Inl e \<Rightarrow> Some (Inl e)
      | Inr _ \<Rightarrow> (case ex_phase (exec_events es) of Returned res \<Rightarrow> Some res | _ \<Rightarrow> None))"

text \<open>How long the drain waits for the copy, in milliseconds.\<close>

definition EXEC_DRAIN_TIMEOUT :: nat where "EXEC_DRAIN_TIMEOUT = 5000"

definition exec_drain_ms :: "(string \<Rightarrow> string option) \<Rightarrow> nat" where
  "exec_drain_ms getenv = env_duration_ms getenv ''QVOLE_EXEC_DRAIN_TIMEOUT_MS'' EXEC_DRAIN_TIMEOUT"

section \<open>Quoting\<close>

lemma split_byte_single:
  "sp_single s \<Longrightarrow> c \<noteq> SQ \<Longrightarrow> split_byte c s = s\<lparr>sp_current := sp_current s @ [c]\<rparr>"
  "sp_single s \<Longrightarrow> split_byte SQ s = s\<lparr>sp_single := False\<rparr>"
  by (simp_all add: split_byte_def)

lemma split_quoted:
  "SQ \<notin> set a \<Longrightarrow> sp_single s \<Longrightarrow> foldl (\<lambda>s c. split_byte c s) s (a @ [SQ]) = s\<lparr>sp_current := sp_current s @ a, sp_single := False\<rparr>"
proof (induction a arbitrary: s)
  case (Cons c a)
  then show ?case by (auto simp: split_byte_single Cons.IH [of "s\<lparr>sp_current := sp_current s @ [c]\<rparr>", simplified])
qed (simp add: split_byte_single)

definition quote :: "string \<Rightarrow> string" where
  "quote a = SQ # a @ [SQ]"

definition between :: "string list \<Rightarrow> split_state" where
  "between as = \<lparr>sp_args = as, sp_current = [], sp_started = False, sp_single = False, sp_double = False\<rparr>"

definition after_arg :: "string list \<Rightarrow> string \<Rightarrow> split_state" where
  "after_arg as a = \<lparr>sp_args = as, sp_current = a, sp_started = True, sp_single = False, sp_double = False\<rparr>"

lemma split_one:
  assumes "SQ \<notin> set a"
  shows "foldl (\<lambda>s c. split_byte c s) (between as) (quote a) = after_arg as a"
proof -
  have "split_byte SQ (between as) = (between as)\<lparr>sp_single := True, sp_started := True\<rparr>"
    by (simp add: split_byte_def between_def)
  then show ?thesis
    using split_quoted [OF assms, of "(between as)\<lparr>sp_single := True, sp_started := True\<rparr>"]
    by (simp add: quote_def between_def after_arg_def)
qed

lemma split_space: "utf8_valid a \<Longrightarrow> split_byte (CHR '' '') (after_arg as a) = between (as @ [a])"
  by (simp add: split_byte_def after_arg_def between_def owned_string_def SQ_def DQc_def)

lemma split_many:
  assumes "list_all (\<lambda>a. SQ \<notin> set a \<and> utf8_valid a) (a # rest)"
  shows "foldl (\<lambda>s c. split_byte c s) (between as) (quote a @ concat (map (\<lambda>b. CHR '' '' # quote b) rest)) =
    after_arg (as @ butlast (a # rest)) (last (a # rest))"
  using assms
proof (induction rest arbitrary: a as)
  case (Cons b rest)
  then show ?case using Cons.IH [of b "as @ [a]"] by (simp add: split_one split_space)
qed (simp add: split_one)

text \<open>The command line that quotes every argument.\<close>

definition quoted_line :: "string list \<Rightarrow> string" where
  "quoted_line args = (case args of [] \<Rightarrow> [] | a # rest \<Rightarrow> quote a @ concat (map (\<lambda>b. CHR '' '' # quote b) rest))"

section \<open>A run and its events\<close>

fun first_status :: "exec_event list \<Rightarrow> child_status option" where
  "first_status [] = None"
| "first_status (e # es) = (case e of Child_ended st \<Rightarrow> Some st | _ \<Rightarrow> first_status es)"

fun first_stdout :: "exec_event list \<Rightarrow> (string + unit) option" where
  "first_stdout [] = None"
| "first_stdout (e # es) = (case e of Stdout_ended x \<Rightarrow> Some x | _ \<Rightarrow> first_stdout es)"

lemma first_snoc:
  "first_status (es @ [e]) = (case first_status es of Some st \<Rightarrow> Some st | None \<Rightarrow> (case e of Child_ended st \<Rightarrow> Some st | _ \<Rightarrow> None))"
  "first_stdout (es @ [e]) = (case first_stdout es of Some x \<Rightarrow> Some x | None \<Rightarrow> (case e of Stdout_ended x \<Rightarrow> Some x | _ \<Rightarrow> None))"
  by (induction es) (auto split: exec_event.splits)

text \<open>What a run has of its events, and which waits can be open after it has gone on.\<close>

definition result_inv :: "exec_event list \<Rightarrow> exec_run \<Rightarrow> bool" where
  "result_inv es r \<longleftrightarrow>
     (case ex_phase r of
        Await_child \<Rightarrow> first_status es = None
      | Draining err \<Rightarrow> map_option status_error (first_status es) = Some err \<and> \<not> copy_done r
      | Await_copy err \<Rightarrow> map_option status_error (first_status es) = Some err \<and> \<not> copy_done r
      | Await_stdout err \<Rightarrow> map_option status_error (first_status es) = Some err \<and> first_stdout es = None
      | Returned res \<Rightarrow> (\<exists>st out. first_status es = Some st \<and> first_stdout es = Some out \<and> res = finish (status_error st) out))
     \<and> stdout_result r = first_stdout es
     \<and> (copy_done r \<longleftrightarrow> Stdin_copy_ended \<in> set es)"

definition stop_inv :: "exec_event list \<Rightarrow> exec_run \<Rightarrow> bool" where
  "stop_inv es r \<longleftrightarrow>
     (case ex_phase r of Await_stdout err \<Rightarrow> copy_done r | Returned res \<Rightarrow> copy_done r
      | _ \<Rightarrow> exec_stop r \<longrightarrow> Stop_requested \<in> set es)
     \<and> (exec_stop r \<longrightarrow> Stop_requested \<in> set es \<or> ex_phase r \<in> range Returned)
     \<and> (child_killed r \<longrightarrow> Stop_requested \<in> set es)
     \<and> (copy_stop r \<longrightarrow> Stop_requested \<in> set es \<or> Drain_timer \<in> set es \<or> copy_done r)
     \<and> (recv_stopped r \<longrightarrow> Stop_requested \<in> set es \<or> Drain_timer \<in> set es)"

lemmas exec_step_defs = exec_apply_def settle_def go_child_def go_drain_def go_copy_def go_stdout_def

lemma result_inv_step:
  assumes "result_inv es r"
  shows "result_inv (es @ [e]) (settle (exec_apply e r))"
  using assms
  by (cases e; cases "ex_phase r") (auto simp: result_inv_def exec_step_defs first_snoc split: option.splits)

lemma stop_inv_step:
  assumes "stop_inv es r"
  shows "stop_inv (es @ [e]) (settle (exec_apply e r))"
  using assms
  by (cases e; cases "ex_phase r") (auto simp: stop_inv_def exec_step_defs split: option.splits)

lemma exec_events_inv: "result_inv es (exec_events es) \<and> stop_inv es (exec_events es)"
proof (induction es rule: rev_induct)
  case Nil
  show ?case by (simp add: exec_events_def exec_start_def result_inv_def stop_inv_def)
next
  case (snoc e es)
  with result_inv_step [of es _ e] stop_inv_step [of es _ e] show ?case by (simp add: exec_events_def)
qed

lemma exec_prepare_started:
  assumes "exec_prepare cancelled opened announced spawn command = Inr args"
  shows "args \<noteq> [] \<and> split_command command = Some args \<and> spawn args = None"
  using assms by (auto simp: exec_prepare_def Let_def split: sum.splits option.splits if_splits)

section \<open>Properties\<close>

text \<open>
  C29. Splitting a command line inverts quoting: arguments of any bytes but the single quote, also
  empty ones and ones with blanks, come back as they were.
\<close>

theorem split_command_quoted:
  assumes "list_all (\<lambda>a. SQ \<notin> set a \<and> utf8_valid a) args"
  shows "split_command (quoted_line args) = Some args"
proof (cases args)
  case Nil
  then show ?thesis by (simp add: quoted_line_def split_command_def split_start_def)
next
  case (Cons a rest)
  have "owned_string (last (a # rest)) = last (a # rest)"
    using assms Cons by (metis list_all_iff last_in_set list.distinct(1) owned_string_def)
  moreover have "split_start = between []" by (simp add: split_start_def between_def)
  ultimately show ?thesis
    using split_many [of a rest "[]"] assms Cons
    by (simp add: quoted_line_def split_command_def after_arg_def append_butlast_last_id [of "a # rest"] del: butlast.simps last.simps)
qed

theorem split_command_quoted_witness:
  "split_command (quoted_line [''sh'', ''-c'', ''ls  *'', []]) = Some [''sh'', ''-c'', ''ls  *'', []]"
  by (rule split_command_quoted) (simp add: SQ_def)



end
