(* ===== verification/Logger.thy ===== *)
theory Logger
  imports Net
begin

text \<open>
  \<^verbatim>\<open>crates/qvole-protocol/src/logger.rs\<close> and \<^verbatim>\<open>role.rs\<close>: the lines a logger prints. The time stamp is
  an argument, as is the environment; the debug switch is the state.
\<close>

section \<open>Definitions\<close>

definition PREFIX_WIDTH :: nat where "PREFIX_WIDTH = 10"
definition ESC :: char where "ESC = CHR 0x1B"
definition ansi :: "string \<Rightarrow> string" where "ansi code = ESC # ''['' @ code @ ''m''"
definition ANSI_DIM :: string where "ANSI_DIM = ansi ''2''"
definition ANSI_BOLD :: string where "ANSI_BOLD = ansi ''1''"
definition ANSI_RED :: string where "ANSI_RED = ansi ''31''"
definition ANSI_GREEN :: string where "ANSI_GREEN = ansi ''32''"
definition ANSI_YELLOW :: string where "ANSI_YELLOW = ansi ''33''"
definition ANSI_RESET :: string where "ANSI_RESET = ansi ''0''"

text \<open>The switches: whether debug output is on, and whether \<^verbatim>\<open>NO_COLOR\<close> turned colours off.\<close>

record log_switches =
  debug_on :: bool
  no_colors :: bool

definition set_debug :: "bool \<Rightarrow> log_switches \<Rightarrow> log_switches" where
  "set_debug on s = s\<lparr>debug_on := on\<rparr>"

definition colors_disabled :: "(string \<Rightarrow> string option) \<Rightarrow> bool" where
  "colors_disabled getenv = (case getenv ''NO_COLOR'' of Some v \<Rightarrow> v \<noteq> [] | None \<Rightarrow> False)"

definition format_bold :: "string \<Rightarrow> bool \<Rightarrow> string" where
  "format_bold t no_color = (if no_color then t else ANSI_BOLD @ t @ ANSI_RESET)"

definition bold :: "log_switches \<Rightarrow> string \<Rightarrow> string" where
  "bold s t = format_bold t (no_colors s)"

definition pad_right :: "nat \<Rightarrow> string \<Rightarrow> string" where
  "pad_right w t = t @ replicate (w - length t) (CHR '' '')"

definition format_line :: "string \<Rightarrow> string \<Rightarrow> string \<Rightarrow> string \<Rightarrow> string \<Rightarrow> bool \<Rightarrow> string" where
  "format_line prefix color msg_color msg ts no_color =
     (let tag = pad_right PREFIX_WIDTH prefix
      in if no_color then ts @ ''  '' @ tag @ ''  '' @ msg
         else let colored_msg = (if msg_color = [] then msg else msg_color @ msg @ ANSI_RESET)
              in ANSI_DIM @ ts @ ANSI_RESET @ ''  '' @ color @ tag @ ANSI_RESET @ ''  '' @ colored_msg)"

record logger =
  lg_prefix :: string
  lg_color :: string

text \<open>A call of a logger: the line it writes, if it writes one.\<close>

definition logf :: "log_switches \<Rightarrow> string \<Rightarrow> logger \<Rightarrow> string \<Rightarrow> string \<Rightarrow> string" where
  "logf s ts l msg_color msg = format_line (lg_prefix l) (lg_color l) msg_color msg ts (no_colors s)"

definition printf_debug :: "log_switches \<Rightarrow> string \<Rightarrow> logger \<Rightarrow> string \<Rightarrow> string option" where
  "printf_debug s ts l msg = (if debug_on s then Some (logf s ts l [] msg) else None)"

definition printf_info :: "log_switches \<Rightarrow> string \<Rightarrow> logger \<Rightarrow> string \<Rightarrow> string option" where
  "printf_info s ts l msg = Some (logf s ts l [] msg)"

definition printf_error :: "log_switches \<Rightarrow> string \<Rightarrow> logger \<Rightarrow> string \<Rightarrow> string option" where
  "printf_error s ts l msg = Some (logf s ts l ANSI_RED msg)"

definition printf_warn :: "log_switches \<Rightarrow> string \<Rightarrow> logger \<Rightarrow> string \<Rightarrow> string option" where
  "printf_warn s ts l msg = Some (logf s ts l ANSI_YELLOW msg)"

definition printf_success :: "log_switches \<Rightarrow> string \<Rightarrow> logger \<Rightarrow> string \<Rightarrow> string option" where
  "printf_success s ts l msg = Some (logf s ts l ANSI_GREEN msg)"

definition LOG_PIPE :: logger where "LOG_PIPE = \<lparr>lg_prefix = ''Pipe'', lg_color = ansi ''36''\<rparr>"
definition LOG_TUNNEL :: logger where "LOG_TUNNEL = \<lparr>lg_prefix = ''Tunnel'', lg_color = ansi ''32''\<rparr>"
definition LOG_RELAY :: logger where "LOG_RELAY = \<lparr>lg_prefix = ''Relay'', lg_color = ansi ''33''\<rparr>"
definition LOG_HOLE :: logger where "LOG_HOLE = \<lparr>lg_prefix = ''HolePunch'', lg_color = ansi ''34''\<rparr>"
definition LOG_SPAKE2 :: logger where "LOG_SPAKE2 = \<lparr>lg_prefix = ''SPAKE2'', lg_color = ansi ''35''\<rparr>"
definition LOG_COPY :: logger where "LOG_COPY = \<lparr>lg_prefix = ''Copy'', lg_color = ansi ''90''\<rparr>"
definition LOG_EXEC :: logger where "LOG_EXEC = \<lparr>lg_prefix = ''Exec'', lg_color = ansi ''96''\<rparr>"

definition role_string :: "bool \<Rightarrow> string" where
  "role_string server = (if server then ''server'' else ''client'')"

section \<open>Colours change nothing else\<close>

text \<open>A text without its escape sequences, which run from the escape character to the letter m.\<close>

fun strip_ansi :: "bool \<Rightarrow> string \<Rightarrow> string" where
  "strip_ansi inside [] = []"
| "strip_ansi True (c # cs) = strip_ansi (c \<noteq> CHR ''m'') cs"
| "strip_ansi False (c # cs) = (if c = ESC then strip_ansi True cs else c # strip_ansi False cs)"

lemma strip_plain: "ESC \<notin> set t \<Longrightarrow> strip_ansi False (t @ u) = t @ strip_ansi False u"
  by (induction t) auto

lemma strip_code: "CHR ''m'' \<notin> set code \<Longrightarrow> strip_ansi True (code @ ''m'' @ u) = strip_ansi False u"
  by (induction code) auto

lemma strip_ansi_code:
  assumes "CHR ''m'' \<notin> set code"
  shows "strip_ansi False (ansi code @ u) = strip_ansi False u"
proof -
  have "strip_ansi False (ansi code @ u) = strip_ansi True (code @ ''m'' @ u)" by (simp add: ansi_def)
  then show ?thesis using strip_code [OF assms] by simp
qed

lemmas ansi_codes = ANSI_DIM_def ANSI_BOLD_def ANSI_RED_def ANSI_GREEN_def ANSI_YELLOW_def ANSI_RESET_def

lemma strip_end: "ESC \<notin> set t \<Longrightarrow> strip_ansi False t = t"
  using strip_plain [of t "[]"] by simp

lemma strip_line:
  assumes "ESC \<notin> set prefix" "ESC \<notin> set msg" "ESC \<notin> set ts" "CHR ''m'' \<notin> set code" "CHR ''m'' \<notin> set mcode"
    and mc: "msg_color = [] \<or> msg_color = ansi mcode"
  shows "strip_ansi False (format_line prefix (ansi code) msg_color msg ts False) = format_line prefix (ansi code) msg_color msg ts True"
proof -
  have tag: "ESC \<notin> set (pad_right PREFIX_WIDTH prefix)" and blank: "ESC \<notin> set ''  ''"
    using assms(1) by (auto simp: pad_right_def ESC_def)
  have reset: "strip_ansi False (ANSI_RESET @ u) = strip_ansi False u" "strip_ansi False (ANSI_DIM @ u) = strip_ansi False u" for u
    by (simp_all add: ansi_codes strip_ansi_code)
  have "strip_ansi False (if msg_color = [] then msg else msg_color @ msg @ ANSI_RESET) = msg"
    using mc assms(2,5) reset(1) [of "[]"] by (auto simp: strip_ansi_code strip_plain strip_end)
  then show ?thesis
    using assms(3,4) tag blank by (simp add: format_line_def Let_def strip_plain strip_ansi_code reset del: append_Cons)
qed

text \<open>
  Colours change nothing but colours: a line of any logger in any of the four colours of a message
  is, once the escape sequences are taken out, the line printed when \<^verbatim>\<open>NO_COLOR\<close> is set.
\<close>

theorem colors_only_decorate:
  assumes "ESC \<notin> set msg" "ESC \<notin> set ts" "l \<in> {LOG_PIPE, LOG_TUNNEL, LOG_RELAY, LOG_HOLE, LOG_SPAKE2, LOG_COPY, LOG_EXEC}"
    and "mc \<in> {[], ANSI_RED, ANSI_YELLOW, ANSI_GREEN}"
  shows "strip_ansi False (logf \<lparr>debug_on = d, no_colors = False\<rparr> ts l mc msg) = logf \<lparr>debug_on = d, no_colors = True\<rparr> ts l mc msg"
proof -
  obtain p code where l: "lg_prefix l = p" "ESC \<notin> set p" "lg_color l = ansi code" "CHR ''m'' \<notin> set code"
    using assms(3) by (auto simp: LOG_PIPE_def LOG_TUNNEL_def LOG_RELAY_def LOG_HOLE_def LOG_SPAKE2_def LOG_COPY_def LOG_EXEC_def ESC_def)
  obtain mcode where "mc = [] \<or> mc = ansi mcode" "CHR ''m'' \<notin> set mcode"
  proof -
    have "CHR ''m'' \<notin> set ''31''" "CHR ''m'' \<notin> set ''32''" "CHR ''m'' \<notin> set ''33''" by simp_all
    with assms(4) that show thesis unfolding ansi_codes by blast
  qed
  from strip_line [OF l(2) assms(1,2) l(4) this(2,1)] show ?thesis by (simp add: logf_def l(1,3))
qed

theorem colors_only_decorate_witness:
  "strip_ansi False (logf \<lparr>debug_on = False, no_colors = False\<rparr> [] LOG_HOLE ANSI_YELLOW ''timed out'')
     = logf \<lparr>debug_on = False, no_colors = True\<rparr> [] LOG_HOLE ANSI_YELLOW ''timed out''"
  by (rule colors_only_decorate) (simp_all add: ESC_def)

end
