(* ===== verification/Stats.thy ===== *)
theory Stats
  imports Logger Prelude Complex_Main
begin

text \<open>
  \<^verbatim>\<open>crates/qvole-protocol/src/stats.rs\<close>: the byte counters, the reporter and the text of sizes. A
  floating-point number is its exact value, a rational; the conversion of an integer rounds to 53
  bits, half to even, and the divisions by powers of two are exact. The elapsed time and the
  quotients of the rates are arguments. Printing with a fixed number of decimals rounds the exact
  value half to even, as the standard library does.
\<close>

section \<open>Counters\<close>

text \<open>The counters are 64-bit words, read as signed.\<close>

record stats_tracker =
  tx_bytes :: u64
  rx_bytes :: u64
  stats_done :: bool
  stats_stopped :: bool

definition stats_new :: stats_tracker where
  "stats_new = \<lparr>tx_bytes = 0, rx_bytes = 0, stats_done = False, stats_stopped = False\<rparr>"

text \<open>The result of a write of the writer inside: pending, failed, or a number of bytes.\<close>

datatype write_poll = Write_pending | Write_error string | Write_ready nat

definition count_tx :: "write_poll \<Rightarrow> stats_tracker \<Rightarrow> write_poll \<times> stats_tracker" where
  "count_tx w s = (w, case w of Write_ready n \<Rightarrow> s\<lparr>tx_bytes := tx_bytes s + of_nat n\<rparr> | _ \<Rightarrow> s)"

definition count_rx :: "write_poll \<Rightarrow> stats_tracker \<Rightarrow> write_poll \<times> stats_tracker" where
  "count_rx w s = (w, case w of Write_ready n \<Rightarrow> s\<lparr>rx_bytes := rx_bytes s + of_nat n\<rparr> | _ \<Rightarrow> s)"

section \<open>The text of sizes\<close>

definition round_half_even :: "rat \<Rightarrow> int" where
  "round_half_even x =
     (let f = floor x; r = x - of_int f
      in if r < 1 / 2 then f else if r > 1 / 2 then f + 1 else if even f then f else f + 1)"

text \<open>\<^verbatim>\<open>n as f64\<close>: the shift that leaves 53 bits, the rounded quotient, and the value.\<close>

fun excess_bits :: "nat \<Rightarrow> nat" where
  "excess_bits n = (if n < 2 ^ 53 then 0 else Suc (excess_bits (n div 2)))"

declare excess_bits.simps [simp del]

definition f64_of_int :: "int \<Rightarrow> rat" where
  "f64_of_int n =
     (let k = excess_bits (nat \<bar>n\<bar>); m = round_half_even (of_nat (nat \<bar>n\<bar>) / 2 ^ k) * 2 ^ k
      in of_int (if n < 0 then - m else m))"

definition int_text :: "int \<Rightarrow> string" where
  "int_text n = (if n < 0 then ''-'' @ dec_str (nat (- n)) else dec_str (nat n))"

text \<open>\<^verbatim>\<open>{:.2}\<close> of a value that is not negative, and \<^verbatim>\<open>{:.0}\<close>.\<close>

definition fixed2 :: "rat \<Rightarrow> string" where
  "fixed2 x =
     (let h = nat (round_half_even (x * 100))
      in dec_str (h div 100) @ ''.'' @ dec_str (h mod 100 div 10) @ dec_str (h mod 10))"

definition fixed0 :: "rat \<Rightarrow> string" where
  "fixed0 x = int_text (round_half_even x)"

definition format_bytes_value :: "rat \<Rightarrow> string \<Rightarrow> bool \<Rightarrow> string" where
  "format_bytes_value val suffix exact_int =
     (if val \<ge> 1073741824 then fixed2 (val / 1073741824) @ '' G'' @ suffix
      else if val \<ge> 1048576 then fixed2 (val / 1048576) @ '' M'' @ suffix
      else if val \<ge> 1024 then fixed2 (val / 1024) @ '' K'' @ suffix
      else if exact_int then int_text (if val < 0 then - floor (- val) else floor val) @ '' '' @ suffix
      else fixed0 val @ '' '' @ suffix)"

definition format_bytes :: "int \<Rightarrow> string" where
  "format_bytes n = format_bytes_value (f64_of_int n) ''B'' True"

definition format_bytes_rate :: "rat \<Rightarrow> string" where
  "format_bytes_rate r = format_bytes_value r ''B/s'' False"

section \<open>The reporter\<close>

record reporter =
  last_tx :: u64
  last_rx :: u64
  last_time :: instant
  first_tick :: bool

definition reporter_start :: "instant \<Rightarrow> reporter" where
  "reporter_start t = \<lparr>last_tx = 0, last_rx = 0, last_time = t, first_tick = True\<rparr>"

text \<open>The arrows of the report, as the bytes they are encoded in.\<close>

definition up_arrow :: string where "up_arrow = map char_of [0xE2, 0x86, 0x91 :: nat]"
definition down_arrow :: string where "down_arrow = map char_of [0xE2, 0x86, 0x93 :: nat]"

text \<open>A tick at time \<open>t\<close>; \<open>rate d e\<close> is the quotient of the bytes \<open>d\<close> by the elapsed time \<open>e\<close>.\<close>

definition report_tick ::
    "log_switches \<Rightarrow> (int \<Rightarrow> duration \<Rightarrow> rat) \<Rightarrow> instant \<Rightarrow> stats_tracker \<Rightarrow> reporter \<Rightarrow> string option \<times> reporter" where
  "report_tick sw rate t s r =
     (let tx = tx_bytes s; rx = rx_bytes s; elapsed = duration_since t (last_time r);
          r' = \<lparr>last_tx = tx, last_rx = rx, last_time = t, first_tick = False\<rparr>
      in if first_tick r then (None, r')
         else let dt = tx - last_tx r; dr = rx - last_rx r
              in (if 0 < sint dt \<or> 0 < sint dr
                  then Some (up_arrow @ '' '' @ format_bytes (sint tx) @ '' ('' @ bold sw (format_bytes_rate (rate (sint dt) elapsed)) @ '')  ''
                         @ down_arrow @ '' '' @ format_bytes (sint rx) @ '' ('' @ bold sw (format_bytes_rate (rate (sint dr) elapsed)) @ '')'')
                  else None, r'))"

fun reporter_run ::
    "log_switches \<Rightarrow> (int \<Rightarrow> duration \<Rightarrow> rat) \<Rightarrow> (instant \<times> stats_tracker) list \<Rightarrow> reporter \<Rightarrow> string list" where
  "reporter_run sw rate [] r = []"
| "reporter_run sw rate ((t, s) # ticks) r =
     (if stats_done s then []
      else let (line, r') = report_tick sw rate t s r
           in (case line of None \<Rightarrow> [] | Some l \<Rightarrow> [l]) @ reporter_run sw rate ticks r')"

definition stop_and_log :: "log_switches \<Rightarrow> stats_tracker \<Rightarrow> string option \<times> stats_tracker" where
  "stop_and_log sw s =
     (if stats_stopped s then (None, s)
      else (Some (if 0 < sint (tx_bytes s) \<or> 0 < sint (rx_bytes s)
                  then ''Total: '' @ up_arrow @ '' '' @ bold sw (format_bytes (sint (tx_bytes s))) @ ''  ''
                         @ down_arrow @ '' '' @ bold sw (format_bytes (sint (rx_bytes s)))
                  else ''Done!''),
            s\<lparr>stats_stopped := True, stats_done := True\<rparr>))"

section \<open>Lemmas\<close>

lemma round_half_even_error: "\<bar>of_int (round_half_even x) - x\<bar> \<le> 1 / 2"
proof -
  have "0 \<le> x - of_int \<lfloor>x\<rfloor>" "x - of_int \<lfloor>x\<rfloor> < 1" by linarith+
  then show ?thesis by (simp add: round_half_even_def Let_def abs_le_iff)
qed

lemma round_half_even_int: "round_half_even (of_int n) = n"
  by (simp add: round_half_even_def)

lemma excess_bits_small: "n < 2 ^ 53 \<Longrightarrow> excess_bits n = 0"
  by (simp add: excess_bits.simps [of n])

lemma f64_of_int_exact:
  assumes "0 \<le> n" "n < 2 ^ 53"
  shows "f64_of_int n = of_int n"
proof -
  have "nat n < 2 ^ 53" using assms by simp
  then have "excess_bits (nat \<bar>n\<bar>) = 0" using assms(1) by (intro excess_bits_small) simp
  moreover have "(of_nat (nat \<bar>n\<bar>) :: rat) = of_int n" using assms(1) by simp
  ultimately show ?thesis using assms(1) by (simp add: f64_of_int_def round_half_even_int)
qed

lemma counted_tx:
  "tx_bytes (fold (\<lambda>w s. snd (count_tx w s)) ws s) = tx_bytes s + of_nat (sum_list (map (\<lambda>w. case w of Write_ready n \<Rightarrow> n | _ \<Rightarrow> 0) ws))"
  by (induction ws arbitrary: s) (auto simp: count_tx_def algebra_simps split: write_poll.splits)

section \<open>Properties\<close>

text \<open>The number of hundredths of the unit that is shown, and the unit.\<close>

definition shown_as :: "rat \<Rightarrow> int \<times> rat" where
  "shown_as v =
     (let u = (if v \<ge> 1073741824 then 1073741824 else if v \<ge> 1048576 then 1048576 else 1024) in (round_half_even (v / u * 100), u))"

text \<open>
  Sizes are shown accurately: a count of at most 53 bits below 1024 is shown exactly, and a larger
  one as a number with two decimals of the largest unit that is not larger than it, off by at most
  half a percent of the count.
\<close>

theorem format_bytes_accurate:
  assumes "0 \<le> n" "n < 2 ^ 53"
  shows "if n < 1024 then format_bytes n = dec_str (nat n) @ '' B''
    else \<exists>h u. shown_as (of_int n) = (h, u)
      \<and> format_bytes n = fixed2 (of_int n / u) @ (if u = 1073741824 then '' GB'' else if u = 1048576 then '' MB'' else '' KB'')
      \<and> u \<le> of_int n \<and> \<bar>of_int h / 100 * u - of_int n\<bar> \<le> of_int n / 200"
proof (cases "n < 1024")
  case True
  then show ?thesis using assms by (simp add: format_bytes_def format_bytes_value_def f64_of_int_exact int_text_def)
next
  case False
  define v :: rat where "v = of_int n"
  obtain h u where hu: "shown_as v = (h, u)" by (cases "shown_as v")
  have v: "v \<ge> 1024" using False by (simp add: v_def)
  have u: "0 < u" "u \<le> v" "h = round_half_even (v / u * 100)" "u \<in> {1073741824, 1048576, 1024}"
    using hu v by (auto simp: shown_as_def Let_def split: if_splits)
  have "format_bytes n = fixed2 (v / u) @ (if u = 1073741824 then '' GB'' else if u = 1048576 then '' MB'' else '' KB'')"
    using hu v assms by (auto simp: format_bytes_def format_bytes_value_def f64_of_int_exact v_def [symmetric] shown_as_def Let_def split: if_splits)
  moreover have "\<bar>of_int h / 100 * u - v\<bar> \<le> v / 200"
  proof -
    have "\<bar>of_int h - v / u * 100\<bar> \<le> 1 / 2" using round_half_even_error u(3) by simp
    moreover have "of_int h / 100 * u - v = (of_int h - v / u * 100) * (u / 100)" using u(1) by (simp add: field_simps)
    moreover have "\<bar>of_int h - v / u * 100\<bar> * (u / 100) \<le> 1 / 2 * (u / 100)"
      using calculation(1) u(1) by (intro mult_right_mono) simp_all
    moreover have "\<bar>(of_int h - v / u * 100) * (u / 100)\<bar> = \<bar>of_int h - v / u * 100\<bar> * (u / 100)"
      using u(1) unfolding abs_mult by simp
    ultimately have "\<bar>of_int h / 100 * u - v\<bar> \<le> 1 / 2 * (u / 100)" by metis
    then show ?thesis using u(2) by simp
  qed
  ultimately show ?thesis using False hu u(2) by (auto simp: v_def)
qed

theorem format_bytes_accurate_witness: "format_bytes 1000 = dec_str (nat 1000) @ '' B''"
  using format_bytes_accurate [of 1000] by simp

end
