(* ===== verification/Pipe.thy ===== *)
theory Pipe
  imports Exec Stats
begin

text \<open>
  \<^verbatim>\<open>crates/qvole-app/src/pipe.rs\<close> around its copies. The calls on the connection are given by their
  results; the copies themselves are those of the theory Copy, the counters those of Stats.
\<close>

section \<open>Pipe mode of exec\<close>

text \<open>The accept is biased: a cancellation that is there wins.\<close>

datatype accept_result = Accept_canceled | Accepted | Accept_failed_with conn_error string

definition accept_outcome :: "conn_error \<Rightarrow> string \<Rightarrow> pipe_error + unit" where
  "accept_outcome e t =
     (case conn_close_kind e of Benign \<Rightarrow> Inr () | Disconnect \<Rightarrow> Inr () | _ \<Rightarrow> Inl (Pipe_quic t))"

definition run_pipe_mode :: "accept_result \<Rightarrow> bool \<Rightarrow> pipe_error + unit" where
  "run_pipe_mode accept cancelled_after =
     (case accept of
        Accept_canceled \<Rightarrow> Inl Pipe_canceled
      | Accept_failed_with e t \<Rightarrow> accept_outcome e t
      | Accepted \<Rightarrow> if cancelled_after then Inl Pipe_canceled else Inr ())"

section \<open>The pipe\<close>

datatype pipe_action =
    Open_outbound | Start_stdin_copy | Stop_stdin | Copy_inbound | Await_stdin_copy
  | Stop_stats | Finish_delay | Close_connection | Flush_close

definition run_pipe_body :: "bool \<Rightarrow> string + unit \<Rightarrow> string + unit \<Rightarrow> accept_result \<Rightarrow> pipe_action list \<times> (pipe_error + unit)" where
  "run_pipe_body stdin_is_terminal opened announced accept =
     (let inbound = (\<lambda>has_task acts.
            case accept of
              Accept_canceled \<Rightarrow> (acts @ [Stop_stdin], Inr ())
            | Accept_failed_with e t \<Rightarrow> (acts @ [Stop_stdin], accept_outcome e t)
            | Accepted \<Rightarrow> (acts @ [Copy_inbound] @ (if has_task then [Await_stdin_copy, Stop_stdin] else []), Inr ()))
      in if stdin_is_terminal then inbound False []
         else case opened of
                Inl e \<Rightarrow> ([Open_outbound], Inl (Pipe_quic e))
              | Inr _ \<Rightarrow>
                  (case announced of
                     Inl e \<Rightarrow> ([Open_outbound], Inl (Pipe_quic e))
                   | Inr _ \<Rightarrow> inbound True [Open_outbound, Start_stdin_copy]))"

definition run_pipe_connected ::
    "bool \<Rightarrow> string + unit \<Rightarrow> string + unit \<Rightarrow> accept_result \<Rightarrow> pipe_action list \<times> (pipe_error + unit)" where
  "run_pipe_connected stdin_is_terminal opened announced accept =
     (let (acts, result) = run_pipe_body stdin_is_terminal opened announced accept
      in (acts @ [Stop_stats, Finish_delay, Close_connection, Flush_close], result))"

definition run_pipe_app :: "connect_error + unit \<Rightarrow> bool \<Rightarrow> string + unit \<Rightarrow> string + unit \<Rightarrow> accept_result \<Rightarrow> pipe_error + unit" where
  "run_pipe_app conn_result stdin_is_terminal opened announced accept =
     (case conn_result of
        Inl e \<Rightarrow> Inl (Pipe_connect e)
      | Inr _ \<Rightarrow> snd (run_pipe_connected stdin_is_terminal opened announced accept))"

section \<open>Exec\<close>

datatype exec_action = Run_command | Bridge_stdin | Sleep_finish | Close_empty | Close_done | Flush

definition run_exec_app ::
    "connect_error + unit \<Rightarrow> bool \<Rightarrow> exec_error + unit \<Rightarrow> pipe_error + unit \<Rightarrow> exec_action list \<times> (exec_error + unit)" where
  "run_exec_app conn_result cmd_mode command_result bridge_result =
     (case conn_result of
        Inl e \<Rightarrow> ([], Inl (Exec_connect e))
      | Inr _ \<Rightarrow>
          if cmd_mode then ([Run_command, Sleep_finish, Close_empty, Flush], command_result)
          else ([Bridge_stdin, Close_done, Flush], map_sum exec_error_of id bridge_result))"

section \<open>Lemmas\<close>

lemma accept_outcome_exit: "pipe_exit (accept_outcome e t) = (if e \<in> {VersionMismatch, CidsExhausted} then 1 else 0)"
  by (cases e) (auto simp: accept_outcome_def conn_close_kind_def pipe_exit_def)

lemma disconnect_not_failure: "is_peer_disconnect e \<Longrightarrow> e \<notin> {VersionMismatch, CidsExhausted}"
  by (auto simp: is_peer_disconnect_def)

section \<open>Properties\<close>



text \<open>
  Every run of the pipe, on every path, ends by stopping the counters, the delay, the close of
  the connection and its flush, in this order and each once; and stopping the counters prints the
  final line at most once, with the number of bytes that were sent.
\<close>

theorem pipe_teardown:
  "\<exists>acts. fst (run_pipe_connected tty opened announced accept) = acts @ [Stop_stats, Finish_delay, Close_connection, Flush_close]
      \<and> set acts \<inter> {Stop_stats, Finish_delay, Close_connection, Flush_close} = {}
   \<and> fst (stop_and_log sw (snd (stop_and_log sw s))) = None
   \<and> tx_bytes (fold (\<lambda>w s. snd (count_tx w s)) ws stats_new) = of_nat (sum_list (map (\<lambda>w. case w of Write_ready n \<Rightarrow> n | _ \<Rightarrow> 0) ws))"
proof -
  have "set (fst (run_pipe_body tty opened announced accept)) \<inter> {Stop_stats, Finish_delay, Close_connection, Flush_close} = {}"
    by (auto simp: run_pipe_body_def Let_def split: sum.splits accept_result.splits if_splits)
  moreover have "fst (stop_and_log sw (snd (stop_and_log sw s))) = None" by (simp add: stop_and_log_def)
  ultimately show ?thesis
    by (intro exI [of _ "fst (run_pipe_body tty opened announced accept)"])
      (simp add: run_pipe_connected_def counted_tx split_beta stats_new_def)
qed

end
