(* ===== verification/Stream_Conn.thy ===== *)
theory Stream_Conn
  imports Net Limiter
begin

text \<open>
  \<^verbatim>\<open>crates/qvole-app/src/stream_conn.rs\<close>: a QUIC stream as one endpoint for reading and writing. The
  results of the calls on the two halves of the stream are arguments; what the code asks of the
  QUIC library is the list of actions.
\<close>

definition STREAM_CLOSE_DELAY :: duration where "STREAM_CLOSE_DELAY = from_millis 500"

datatype stream_action = Finish | Sleep duration | Close_conn u32 string | Write_empty

text \<open>Who keeps the endpoint alive: the stream itself, or its creator.\<close>

record 'c stream_conn =
  qs_conn :: 'c
  qs_owns_endpoint :: bool

definition stream_conn_new :: "'c \<Rightarrow> 'c stream_conn" where
  "stream_conn_new c = \<lparr>qs_conn = c, qs_owns_endpoint = False\<rparr>"

definition stream_conn_with_endpoint :: "'c \<Rightarrow> 'c stream_conn" where
  "stream_conn_with_endpoint c = \<lparr>qs_conn = c, qs_owns_endpoint = True\<rparr>"

definition announce_stream :: "string + nat \<Rightarrow> stream_action list \<times> (string + unit)" where
  "announce_stream written = ([Write_empty], map_sum id (\<lambda>_. ()) written)"

definition close_write :: "string + unit \<Rightarrow> stream_action list \<times> (string + unit)" where
  "close_write finished = ([Finish], finished)"

definition stream_close :: "string + unit \<Rightarrow> stream_action list \<times> (string + unit)" where
  "stream_close finished = ([Finish, Sleep STREAM_CLOSE_DELAY, Close_conn 0 ''normal close''], finished)"

end
