(* ===== verification/Tunnel_Session.thy ===== *)
theory Tunnel_Session
  imports Tunnel
begin

text \<open>
  The two tasks of a tunnel session in \<^verbatim>\<open>crates/qvole-app/src/tunnel.rs\<close>: \<^verbatim>\<open>run_tcp_listeners\<close> with the
  accept loops it spawns, and \<^verbatim>\<open>run_stream_acceptor\<close> (theory Tunnel\_Guard), run against one session
  token as \<^verbatim>\<open>run_tunnel_with_config\<close> does. Tasks interleave at every await and at every pair of calls
  that is not atomic, so the session is a step relation.
\<close>

section \<open>The listeners\<close>

record listeners =
  loops :: "nat list"
  token :: bool
  unsent :: "string list"
  queue :: "string list"
  served :: "nat list"
  outcome :: "(tunnel_error + unit) option"

text \<open>The listeners bound before the first that cannot be; their loops run already when it fails.\<close>

definition bound_listeners ::
    "(string \<Rightarrow> string) \<Rightarrow> tunnel_allow \<Rightarrow> bool \<Rightarrow> nat \<Rightarrow> nat \<Rightarrow> (string \<Rightarrow> string option) \<Rightarrow> tunnel_request list \<Rightarrow> nat list" where
  "bound_listeners lower allow peer_accept start cnt bind_at reqs =
     map fst (takeWhile (\<lambda>(i, req). bind_at (listen_addr req) = None)
       (filter (\<lambda>(i, req). listens lower allow peer_accept (mine start cnt i) req) (enumerate 0 reqs)))"

definition listeners_start ::
    "(string \<Rightarrow> string) \<Rightarrow> tunnel_allow \<Rightarrow> bool \<Rightarrow> nat \<Rightarrow> nat \<Rightarrow> (string \<Rightarrow> string option) \<Rightarrow> tunnel_request list \<Rightarrow> listeners" where
  "listeners_start lower allow peer_accept start cnt bind_at reqs =
     \<lparr>loops = bound_listeners lower allow peer_accept start cnt bind_at reqs,
      token = False, unsent = [], queue = [], served = [],
      outcome = (case open_listeners lower allow peer_accept start cnt bind_at 0 reqs of
                   Inl (addr, e) \<Rightarrow> Some (Inl (Other (''listen on '' @ addr @ '': '' @ e)))
                 | Inr _ \<Rightarrow> None)\<rparr>"

text \<open>
  One step of an accept loop or of the function itself. A loop stops when it sees the token
  cancelled, also after an accept that failed. A loop whose accept fails cancels the token
  and only then sends the error, which is the text in \<open>unsent\<close> until it is in the queue; the
  function's \<^verbatim>\<open>select!\<close> is unbiased and takes whichever of its two branches is ready.
\<close>

inductive listener_step :: "tunnel_request list \<Rightarrow> listeners \<Rightarrow> listeners \<Rightarrow> bool" for reqs where
  connection: "i \<in> set (loops l) \<Longrightarrow> listener_step reqs l (l\<lparr>served := served l @ [i]\<rparr>)"
| stopped: "i \<in> set (loops l) \<Longrightarrow> token l \<Longrightarrow> listener_step reqs l (l\<lparr>loops := removeAll i (loops l)\<rparr>)"
| failed: "i \<in> set (loops l) \<Longrightarrow> \<not> token l \<Longrightarrow>
    listener_step reqs l (l\<lparr>loops := removeAll i (loops l), token := True,
      unsent := (''accept on '' @ listen_addr (reqs ! i) @ '': '' @ e) # unsent l\<rparr>)"
| sends: "x \<in> set (unsent l) \<Longrightarrow> listener_step reqs l (l\<lparr>unsent := remove1 x (unsent l), queue := queue l @ [x]\<rparr>)"
| takes_error: "outcome l = None \<Longrightarrow> queue l = x # xs \<Longrightarrow>
    listener_step reqs l (l\<lparr>queue := xs, outcome := Some (Inl (Other x))\<rparr>)"
| takes_cancel: "outcome l = None \<Longrightarrow> token l \<Longrightarrow> listener_step reqs l (l\<lparr>outcome := Some (Inl Canceled)\<rparr>)"

section \<open>The session\<close>

record session =
  ss_acceptor :: acceptor
  ss_listeners :: listeners
  ss_cancelled :: bool
  ss_result :: "(tunnel_error + unit) option"

definition session_start :: "acceptor \<Rightarrow> listeners \<Rightarrow> session" where
  "session_start a l = \<lparr>ss_acceptor = a, ss_listeners = l, ss_cancelled = False, ss_result = None\<rparr>"

text \<open>
  Each task cancels the token when it ends, and with it the listeners' own, which is its child. The
  result is there when both have ended.
\<close>

definition cancel_session :: "session \<Rightarrow> session" where
  "cancel_session s = s\<lparr>ss_cancelled := True, ss_listeners := (ss_listeners s)\<lparr>token := True\<rparr>\<rparr>"

inductive session_step :: "tunnel_request list \<Rightarrow> session \<Rightarrow> session \<Rightarrow> bool" for reqs where
  user_cancels: "session_step reqs s (cancel_session s)"
| acceptor: "ev \<noteq> Session_cancelled \<Longrightarrow> session_step reqs s (s\<lparr>ss_acceptor := acceptor_step (ss_acceptor s) ev\<rparr>)"
| acceptor_cancelled: "ss_cancelled s \<Longrightarrow>
    session_step reqs s (s\<lparr>ss_acceptor := acceptor_step (ss_acceptor s) Session_cancelled\<rparr>)"
| acceptor_ends: "phase (ss_acceptor s) = Ended r \<Longrightarrow> session_step reqs s (cancel_session s)"
| listeners: "listener_step reqs (ss_listeners s) l \<Longrightarrow> session_step reqs s (s\<lparr>ss_listeners := l\<rparr>)"
| listeners_end: "outcome (ss_listeners s) = Some r \<Longrightarrow> session_step reqs s (cancel_session s)"
| joined: "ss_result s = None \<Longrightarrow> phase (ss_acceptor s) = Ended ra \<Longrightarrow> outcome (ss_listeners s) = Some rl \<Longrightarrow>
    session_step reqs s (s\<lparr>ss_result := Some (session_result ra rl)\<rparr>)"

inductive session_reach :: "tunnel_request list \<Rightarrow> session \<Rightarrow> session \<Rightarrow> bool" for reqs s where
  start: "session_reach reqs s s"
| more: "session_reach reqs s s' \<Longrightarrow> session_step reqs s' s'' \<Longrightarrow> session_reach reqs s s''"

lemma open_listeners_bound:
  assumes "open_listeners lower allow pa start cnt bind_at i reqs = Inr is"
  shows "is = map fst (takeWhile (\<lambda>(i, req). bind_at (listen_addr req) = None)
    (filter (\<lambda>(i, req). listens lower allow pa (mine start cnt i) req) (enumerate i reqs)))"
  using assms
proof (induction reqs arbitrary: i "is")
  case (Cons req reqs)
  then show ?case
    by (cases "open_listeners lower allow pa start cnt bind_at (Suc i) reqs") (auto split: if_splits option.splits)
qed simp

text \<open>When no port fails to bind, the loops are those of the listeners opened.\<close>

lemma listeners_start_loops:
  "open_listeners lower allow pa start cnt bind_at 0 reqs = Inr is \<Longrightarrow> loops (listeners_start lower allow pa start cnt bind_at reqs) = is"
  by (drule open_listeners_bound) (simp add: listeners_start_def bound_listeners_def)

lemma session_listeners:
  assumes "listener_step reqs l l'"
  shows "session_step reqs \<lparr>ss_acceptor = a, ss_listeners = l, ss_cancelled = c, ss_result = r\<rparr>
    \<lparr>ss_acceptor = a, ss_listeners = l', ss_cancelled = c, ss_result = r\<rparr>"
  using session_step.listeners [of reqs "\<lparr>ss_acceptor = a, ss_listeners = l, ss_cancelled = c, ss_result = r\<rparr>" l'] assms by simp

lemma session_reach_step: "session_step reqs s s' \<Longrightarrow> session_reach reqs s s'"
  by (blast intro: session_reach.intros)

lemma session_reach_trans:
  assumes "session_reach reqs s' s''" "session_reach reqs s s'"
  shows "session_reach reqs s s''"
  using assms by (induction rule: session_reach.induct) (auto intro: session_reach.more)

section \<open>What an ended session says\<close>

text \<open>The errors the listeners can report: a port that could not be bound, or an accept that failed.\<close>

definition listener_error :: "tunnel_request list \<Rightarrow> string \<Rightarrow> bool" where
  "listener_error reqs t \<longleftrightarrow>
     (\<exists>addr e. t = ''listen on '' @ addr @ '': '' @ e) \<or> (\<exists>i e. t = ''accept on '' @ listen_addr (reqs ! i) @ '': '' @ e)"

definition listeners_inv :: "tunnel_request list \<Rightarrow> listeners \<Rightarrow> bool" where
  "listeners_inv reqs l \<longleftrightarrow>
     (\<forall>t \<in> set (unsent l) \<union> set (queue l). listener_error reqs t)
     \<and> (case outcome l of
          None \<Rightarrow> True
        | Some r \<Rightarrow> r = Inl Canceled \<and> token l \<or> (\<exists>t. r = Inl (Other t) \<and> listener_error reqs t))"

lemma listeners_start_inv: "listeners_inv reqs (listeners_start lower allow peer_accept start cnt bind_at reqs)"
  by (auto simp: listeners_inv_def listeners_start_def listener_error_def split: sum.splits)

lemma listener_step_inv: "listener_step reqs l l' \<Longrightarrow> listeners_inv reqs l \<Longrightarrow> listeners_inv reqs l'"
proof (induction rule: listener_step.induct)
  case (failed i l e)
  then show ?case by (auto simp: listeners_inv_def listener_error_def split: option.splits)
qed (auto simp: listeners_inv_def split: option.splits dest: subsetD [OF set_remove1_subset])

lemma listener_step_token: "listener_step reqs l l' \<Longrightarrow> token l \<Longrightarrow> token l'"
  by (induction rule: listener_step.induct) auto

definition session_inv :: "tunnel_request list \<Rightarrow> session \<Rightarrow> bool" where
  "session_inv reqs s \<longleftrightarrow>
     listeners_inv reqs (ss_listeners s) \<and> (ss_cancelled s \<longrightarrow> token (ss_listeners s))
     \<and> (\<forall>r. ss_result s = Some r \<longrightarrow>
          (\<exists>ra rl. phase (ss_acceptor s) = Ended ra \<and> outcome (ss_listeners s) = Some rl \<and> r = session_result ra rl))"

lemma acceptor_step_ended: "phase a = Ended r \<Longrightarrow> phase (acceptor_step a e) = Ended r"
  using acceptor_ended [of a r "[e]"] by simp

lemma listener_step_outcome: "listener_step reqs l l' \<Longrightarrow> outcome l = Some r \<Longrightarrow> outcome l' = Some r"
  by (induction rule: listener_step.induct) auto

lemma session_step_inv: "session_step reqs s s' \<Longrightarrow> session_inv reqs s \<Longrightarrow> session_inv reqs s'"
proof (induction rule: session_step.induct)
  case (listeners s l)
  then show ?case
    using listener_step_inv listener_step_token listener_step_outcome by (fastforce simp: session_inv_def)
qed (auto simp: session_inv_def cancel_session_def listeners_inv_def acceptor_step_ended split: option.splits)

lemma session_reach_inv:
  assumes "session_reach reqs s0 s" "session_inv reqs s0"
  shows "session_inv reqs s"
  using assms by (induction rule: session_reach.induct) (auto intro: session_step_inv)

section \<open>A session that is coming down\<close>

lemma acceptor_comes_down:
  assumes "ss_cancelled s"
  shows "\<exists>s' r. session_reach reqs s s' \<and> phase (ss_acceptor s') = Ended r \<and> ss_listeners s' = ss_listeners s \<and> ss_result s' = ss_result s"
proof -
  let ?s = "s\<lparr>ss_acceptor := acceptor_step (ss_acceptor s) Session_cancelled\<rparr>"
  have "session_reach reqs s ?s" using assms by (intro session_reach_step session_step.acceptor_cancelled)
  moreover have "\<exists>r. phase (ss_acceptor ?s) = Ended r" by (cases "phase (ss_acceptor s)") simp_all
  ultimately show ?thesis by (metis session.surjective session.update_convs(1) session.select_convs(2,4))
qed

lemma listeners_come_down:
  assumes "token (ss_listeners s)"
  shows "\<exists>s' r. session_reach reqs s s' \<and> outcome (ss_listeners s') = Some r \<and> ss_acceptor s' = ss_acceptor s \<and> ss_result s' = ss_result s"
proof (cases "outcome (ss_listeners s)")
  case None
  let ?s = "s\<lparr>ss_listeners := (ss_listeners s)\<lparr>outcome := Some (Inl Canceled)\<rparr>\<rparr>"
  have "session_reach reqs s ?s"
    using None assms by (intro session_reach_step session_step.listeners listener_step.takes_cancel)
  then show ?thesis by (intro exI [of _ ?s]) simp
next
  case (Some r)
  then show ?thesis by (intro exI [of _ s]) (auto intro: session_reach.start)
qed

lemma session_comes_down:
  assumes "session_inv reqs s" "ss_cancelled s"
  shows "\<exists>s'. session_reach reqs s s' \<and> ss_result s' \<noteq> None"
proof (cases "ss_result s")
  case None
  obtain s1 ra where s1: "session_reach reqs s s1" "phase (ss_acceptor s1) = Ended ra" "ss_listeners s1 = ss_listeners s" "ss_result s1 = None"
    using acceptor_comes_down [OF assms(2)] None by metis
  moreover have "token (ss_listeners s1)" using assms s1(3) by (simp add: session_inv_def)
  ultimately obtain s2 rl where s2: "session_reach reqs s1 s2" "outcome (ss_listeners s2) = Some rl" "ss_acceptor s2 = ss_acceptor s1" "ss_result s2 = None"
    using listeners_come_down [of s1] by metis
  let ?s = "s2\<lparr>ss_result := Some (session_result ra rl)\<rparr>"
  have "session_reach reqs s2 ?s"
    using s1 s2 by (intro session_reach_step session_step.joined) simp_all
  with s1(1) s2(1) have "session_reach reqs s ?s" by (meson session_reach_trans)
  then show ?thesis by (intro exI [of _ ?s]) simp
qed (auto intro: session_reach.start)

section \<open>Properties\<close>


text \<open>
  An error can get lost. A loop whose accept fails cancels the token before it sends the error, and
  the function takes the cancellation when it looks in between: the session then ends as cancelled,
  with exit code 0, though nobody cancelled it and the connection was fine.
\<close>

theorem accept_error_lost:
  fixes a :: acceptor
  assumes "phase a = Await_stream" "i \<in> set (loops l)" "\<not> token l" "outcome l = None"
  shows "\<exists>s. session_reach reqs (session_start a l) s \<and> ss_result s = Some (Inl Canceled)
    \<and> (\<exists>t. listener_error reqs t \<and> t \<in> set (unsent (ss_listeners s)))"
proof -
  let ?t = "''accept on '' @ listen_addr (reqs ! i) @ '': '' @ []"
  let ?l1 = "l\<lparr>loops := removeAll i (loops l), token := True, unsent := ?t # unsent l\<rparr>"
  let ?l2 = "?l1\<lparr>outcome := Some (Inl Canceled)\<rparr>"
  let ?s = "\<lambda>a l c r. \<lparr>ss_acceptor = a, ss_listeners = l, ss_cancelled = c, ss_result = r\<rparr>"
  let ?a = "acceptor_step a Session_cancelled"
  have "session_reach reqs (session_start a l) (?s a ?l1 False None)"
    unfolding session_start_def
    by (intro session_reach_step session_listeners listener_step.failed assms)
  moreover have "session_step reqs (?s a ?l1 False None) (?s a ?l2 False None)"
    using assms(4) by (intro session_listeners listener_step.takes_cancel) simp_all
  moreover have "session_step reqs (?s a ?l2 False None) (?s a ?l2 True None)"
  proof -
    have same: "cancel_session (?s a ?l2 False None) = ?s a ?l2 True None" by (cases l) (simp add: cancel_session_def)
    show ?thesis using session_step.listeners_end [of "?s a ?l2 False None" "Inl Canceled" reqs] unfolding same by simp
  qed
  moreover have "session_step reqs (?s a ?l2 True None) (?s ?a ?l2 True None)"
    using session_step.acceptor_cancelled [of "?s a ?l2 True None" reqs] by simp
  moreover have "session_step reqs (?s ?a ?l2 True None) (?s ?a ?l2 True (Some (Inl Canceled)))"
    using session_step.joined [of "?s ?a ?l2 True None" "Inl Canceled" "Inl Canceled" reqs] assms(1) by (simp add: is_canceled_def)
  ultimately have "session_reach reqs (session_start a l) (?s ?a ?l2 True (Some (Inl Canceled)))"
    by (meson session_reach.more)
  moreover have "listener_error reqs ?t" unfolding listener_error_def by blast
  ultimately show ?thesis by (intro exI [of _ "?s ?a ?l2 True (Some (Inl Canceled))"]) auto
qed

definition demo_listeners :: listeners where
  "demo_listeners = \<lparr>loops = [0], token = False, unsent = [], queue = [], served = [], outcome = None\<rparr>"

definition demo_acceptor :: acceptor where
  "demo_acceptor = \<lparr>phase = Await_stream, free_permits = 1, handlers = 0\<rparr>"

theorem accept_error_lost_witness:
  "\<exists>s. session_reach [] (session_start demo_acceptor demo_listeners) s \<and> ss_result s = Some (Inl Canceled)
    \<and> (\<exists>t. listener_error [] t \<and> t \<in> set (unsent (ss_listeners s)))"
  by (rule accept_error_lost [of _ 0]) (simp_all add: demo_listeners_def demo_acceptor_def)


end
