(* ===== verification/Lib.thy ===== *)
theory Lib
  imports Pipe Stream_Conn Tunnel_Session
begin

text \<open>
  The library surface: \<^verbatim>\<open>crates/qvole-app/src/options.rs\<close> and \<^verbatim>\<open>lib.rs\<close>, the resolution of options to
  the engine's parameters, and the entry points.
\<close>

section \<open>Options\<close>

record options =
  opt_code :: string
  opt_relay :: string
  opt_punch_timeout :: duration
  opt_exchange_deadline :: duration
  opt_keep_alive_period :: duration
  opt_idle_timeout :: duration
  opt_handshake_timeout :: duration
  opt_max_streams :: int
  opt_forward_max_streams :: int
  opt_stream_idle_timeout :: duration
  opt_command :: string
  opt_cmd_mode :: bool
  opt_local_tunnels :: "string list"
  opt_remote_tunnels :: "string list"
  opt_allow_all :: bool
  opt_allow_listen :: "string list"
  opt_allow_forward :: "string list"

definition default_options :: options where
  "default_options = \<lparr>opt_code = [], opt_relay = [], opt_punch_timeout = 0, opt_exchange_deadline = 0,
     opt_keep_alive_period = 0, opt_idle_timeout = 0, opt_handshake_timeout = 0, opt_max_streams = 0,
     opt_forward_max_streams = 0, opt_stream_idle_timeout = 0, opt_command = [], opt_cmd_mode = False,
     opt_local_tunnels = [], opt_remote_tunnels = [], opt_allow_all = False, opt_allow_listen = [], opt_allow_forward = []\<rparr>"

type_synonym option_fn = "options \<Rightarrow> options"

definition with_code :: "string \<Rightarrow> option_fn" where "with_code c o1 = o1\<lparr>opt_code := c\<rparr>"
definition with_relay :: "string \<Rightarrow> option_fn" where "with_relay a o1 = o1\<lparr>opt_relay := a\<rparr>"
definition with_punch_timeout :: "duration \<Rightarrow> option_fn" where "with_punch_timeout d o1 = o1\<lparr>opt_punch_timeout := d\<rparr>"
definition with_exchange_deadline :: "duration \<Rightarrow> option_fn" where "with_exchange_deadline d o1 = o1\<lparr>opt_exchange_deadline := d\<rparr>"
definition with_keep_alive :: "duration \<Rightarrow> option_fn" where "with_keep_alive d o1 = o1\<lparr>opt_keep_alive_period := d\<rparr>"
definition with_idle_timeout :: "duration \<Rightarrow> option_fn" where "with_idle_timeout d o1 = o1\<lparr>opt_idle_timeout := d\<rparr>"
definition with_handshake_timeout :: "duration \<Rightarrow> option_fn" where "with_handshake_timeout d o1 = o1\<lparr>opt_handshake_timeout := d\<rparr>"
definition with_max_streams :: "int \<Rightarrow> option_fn" where "with_max_streams n o1 = o1\<lparr>opt_max_streams := n\<rparr>"
definition with_forward_max_streams :: "int \<Rightarrow> option_fn" where "with_forward_max_streams n o1 = o1\<lparr>opt_forward_max_streams := n\<rparr>"
definition with_stream_idle_timeout :: "duration \<Rightarrow> option_fn" where "with_stream_idle_timeout d o1 = o1\<lparr>opt_stream_idle_timeout := d\<rparr>"
definition with_command :: "string \<Rightarrow> option_fn" where "with_command c o1 = o1\<lparr>opt_command := c\<rparr>"
definition with_cmd_mode :: "bool \<Rightarrow> option_fn" where "with_cmd_mode b o1 = o1\<lparr>opt_cmd_mode := b\<rparr>"
definition with_local_tunnel :: "string \<Rightarrow> option_fn" where "with_local_tunnel t o1 = o1\<lparr>opt_local_tunnels := opt_local_tunnels o1 @ [t]\<rparr>"
definition with_remote_tunnel :: "string \<Rightarrow> option_fn" where "with_remote_tunnel t o1 = o1\<lparr>opt_remote_tunnels := opt_remote_tunnels o1 @ [t]\<rparr>"
definition with_allow_all :: "bool \<Rightarrow> option_fn" where "with_allow_all b o1 = o1\<lparr>opt_allow_all := b\<rparr>"
definition with_allow_listen :: "string \<Rightarrow> option_fn" where "with_allow_listen a o1 = o1\<lparr>opt_allow_listen := opt_allow_listen o1 @ [a]\<rparr>"
definition with_allow_forward :: "string \<Rightarrow> option_fn" where "with_allow_forward a o1 = o1\<lparr>opt_allow_forward := opt_allow_forward o1 @ [a]\<rparr>"

lemmas option_defs = with_code_def with_relay_def with_punch_timeout_def with_exchange_deadline_def with_keep_alive_def
  with_idle_timeout_def with_handshake_timeout_def with_max_streams_def with_forward_max_streams_def
  with_stream_idle_timeout_def with_command_def with_cmd_mode_def with_local_tunnel_def with_remote_tunnel_def
  with_allow_all_def with_allow_listen_def with_allow_forward_def

definition resolve_options :: "option_fn list \<Rightarrow> options" where
  "resolve_options opts = foldl (\<lambda>o1 f. f o1) default_options opts"

datatype validation = Code_required | Code_too_short | Code_too_long | Relay_required

definition lib_validate :: "options \<Rightarrow> validation option" where
  "lib_validate o1 =
     (if opt_code o1 = [] then Some Code_required
      else if length (opt_code o1) < MIN_CODE_LEN then Some Code_too_short
      else if length (opt_code o1) > MAX_CODE_LEN then Some Code_too_long
      else if opt_relay o1 = [] then Some Relay_required
      else None)"

definition opt_dur :: "duration \<Rightarrow> duration option" where
  "opt_dur d = (if d \<noteq> 0 then Some d else None)"

definition opt_num :: "int \<Rightarrow> u32 option" where
  "opt_num n = (if n > 0 then Some (word_of_int n) else None)"

definition to_peer_config :: "options \<Rightarrow> peer_config" where
  "to_peer_config o1 =
     \<lparr>pc_punch_timeout = opt_dur (opt_punch_timeout o1), pc_exchange_deadline = opt_dur (opt_exchange_deadline o1),
      pc_spake2_resend = None, pc_confirm_resend = None, pc_read_deadline = None, pc_reg_interval = None,
      pc_max_streams = opt_num (opt_max_streams o1), pc_forward_max_streams = opt_num (opt_forward_max_streams o1),
      pc_keep_alive_period = opt_dur (opt_keep_alive_period o1), pc_idle_timeout = opt_dur (opt_idle_timeout o1),
      pc_handshake_timeout = opt_dur (opt_handshake_timeout o1)\<rparr>"

section \<open>Entry points\<close>

datatype lib_error =
    Lib_validation validation | Lib_connect connect_error | Lib_stream string | Lib_exec exec_error | Lib_tunnel session_error

text \<open>Connecting with the options; \<open>None\<close> as in \<open>connect_peer\<close>.\<close>

definition lib_connect :: "('p, 'k) world \<Rightarrow> option_fn list \<Rightarrow> (lib_error + connected) option" where
  "lib_connect w opts =
     (let o1 = resolve_options opts
      in case lib_validate o1 of
           Some e \<Rightarrow> Some (Inl (Lib_validation e))
         | None \<Rightarrow> map_option (map_sum Lib_connect id) (connect_peer w (to_peer_config o1) (opt_relay o1) (opt_code o1)))"

text \<open>
  \<^verbatim>\<open>dial\<close> opens and announces a stream, \<^verbatim>\<open>accept\<close> waits for one; an announcement or accept that
  fails closes the connection, which is among the actions.
\<close>

definition lib_dial ::
    "('p, 'k) world \<Rightarrow> string + unit \<Rightarrow> string + nat \<Rightarrow> option_fn list \<Rightarrow> ((lib_error + connected stream_conn) \<times> stream_action list) option" where
  "lib_dial w opened announced opts =
     map_option (\<lambda>r. case r of
         Inl e \<Rightarrow> (Inl e, [])
       | Inr con \<Rightarrow>
           (case opened of
              Inl e \<Rightarrow> (Inl (Lib_stream e), [])
            | Inr _ \<Rightarrow>
                (case announce_stream announced of
                   (acts, Inl e) \<Rightarrow> (Inl (Lib_stream e), acts @ [Close_conn 0 []])
                 | (acts, Inr _) \<Rightarrow> (Inr (stream_conn_with_endpoint con), acts))))
       (lib_connect w opts)"

definition lib_accept ::
    "('p, 'k) world \<Rightarrow> string + unit \<Rightarrow> option_fn list \<Rightarrow> ((lib_error + connected stream_conn) \<times> stream_action list) option" where
  "lib_accept w accepted opts =
     map_option (\<lambda>r. case r of
         Inl e \<Rightarrow> (Inl e, [])
       | Inr con \<Rightarrow>
           (case accepted of
              Inl e \<Rightarrow> (Inl (Lib_stream e), [Close_conn 0 []])
            | Inr _ \<Rightarrow> (Inr (stream_conn_with_endpoint con), [])))
       (lib_connect w opts)"

text \<open>The run of the command and the stdin bridge after the connection are arguments, as in \<open>run_exec_app\<close>.\<close>

definition lib_exec ::
    "('p, 'k) world \<Rightarrow> (string \<Rightarrow> exec_error + unit) \<Rightarrow> pipe_error + unit \<Rightarrow> option_fn list \<Rightarrow> (lib_error + unit) option" where
  "lib_exec w command_result bridge_result opts =
     (let o1 = resolve_options opts
      in case lib_validate o1 of
           Some e \<Rightarrow> Some (Inl (Lib_validation e))
         | None \<Rightarrow>
             map_option (\<lambda>r. map_sum Lib_exec id
                 (snd (run_exec_app (map_sum id (\<lambda>_. ()) r) (opt_cmd_mode o1) (command_result (opt_command o1)) bridge_result)))
               (connect_peer w (to_peer_config o1) (opt_relay o1) (opt_code o1)))"

text \<open>
  The tunnel up to its running session; the allowlist is checked before the connection is made, so
  the result of connecting is only looked at afterwards. \<open>None\<close> also stands for a connection that
  does not come about.
\<close>

definition lib_tunnel ::
    "('p, 'k) world \<Rightarrow> (string \<Rightarrow> string) \<Rightarrow> nat \<Rightarrow> lookup \<Rightarrow> config_io \<Rightarrow> outbound \<Rightarrow> option_fn list
     \<Rightarrow> (lib_error + tunnel_session \<times> outbound) option" where
  "lib_tunnel w lower max_permits dns io g opts =
     (let o1 = resolve_options opts; allow = allow_of (opt_allow_all o1) (opt_allow_listen o1) (opt_allow_forward o1)
      in case lib_validate o1 of
           Some e \<Rightarrow> Some (Inl (Lib_validation e))
         | None \<Rightarrow>
             (case validate allow of
                Inl bad \<Rightarrow> Some (Inl (Lib_tunnel (Bad_allow bad)))
              | Inr _ \<Rightarrow>
                  (case connect_peer w (to_peer_config o1) (opt_relay o1) (opt_code o1) of
                     None \<Rightarrow> None
                   | Some r \<Rightarrow>
                       map_option (map_sum Lib_tunnel id)
                         (start_tunnel (w_getenv w) lower max_permits dns (map_sum id con_server r) io (opt_local_tunnels o1)
                            (opt_remote_tunnels o1) allow (opt_forward_max_streams o1) (opt_stream_idle_timeout o1) g))))"

definition lib_close_write :: "string + unit \<Rightarrow> stream_action list \<times> (string + unit)" where
  "lib_close_write finished = close_write finished"

section \<open>Lemmas\<close>

lemma resolve_opt_dur: "resolve_dur getenv (opt_dur d) n dflt = (if d > 0 then d else resolve_dur getenv None n dflt)"
  by (simp add: opt_dur_def resolve_dur_def)

section \<open>Properties\<close>

text \<open>
  Options reach the engine: each timeout that is set and not zero is the one in force, whatever
  the environment says; one that is not set leaves the environment's value or the default. The
  stream limit is the one given when it fits 32 bits.
\<close>

theorem options_in_force:
  fixes o1 :: options
  assumes "0 \<le> opt_max_streams o1" "opt_max_streams o1 < 2 ^ 32"
  defines "pc \<equiv> to_peer_config o1" and "none \<equiv> to_peer_config default_options"
  shows "punch_timeout getenv pc = (if opt_punch_timeout o1 > 0 then opt_punch_timeout o1 else punch_timeout getenv none)
    \<and> exchange_deadline getenv pc = (if opt_exchange_deadline o1 > 0 then opt_exchange_deadline o1 else exchange_deadline getenv none)
    \<and> keep_alive_period getenv pc = (if opt_keep_alive_period o1 > 0 then opt_keep_alive_period o1 else keep_alive_period getenv none)
    \<and> idle_timeout getenv pc = (if opt_idle_timeout o1 > 0 then opt_idle_timeout o1 else idle_timeout getenv none)
    \<and> handshake_timeout getenv pc = (if opt_handshake_timeout o1 > 0 then opt_handshake_timeout o1 else handshake_timeout getenv none)
    \<and> uint (max_bidi (quic_transport_config getenv pc)) =
        (if opt_max_streams o1 > 0 then opt_max_streams o1 else uint (max_streams getenv none))"
proof -
  have word: "uint (word_of_int n :: u32) = n" if "0 \<le> n" "n < 2 ^ 32" for n :: int
    using that by (simp add: unsigned_of_int take_bit_int_eq_self)
  have zero: "opt_dur 0 = None" "opt_num 0 = None" by (simp_all add: opt_dur_def opt_num_def)
  have "(0 :: u32) < word_of_int (opt_max_streams o1)" if "0 < opt_max_streams o1"
    using that word [of "opt_max_streams o1"] assms(1,2) by (simp add: word_less_def)
  with word [of "opt_max_streams o1"] assms(1,2) have
    "uint (max_streams getenv pc) = (if opt_max_streams o1 > 0 then opt_max_streams o1 else uint (max_streams getenv none))"
    by (simp add: pc_def none_def to_peer_config_def max_streams_def default_options_def opt_num_def)
  then show ?thesis
    by (simp add: pc_def none_def to_peer_config_def default_options_def resolve_opt_dur zero
        punch_timeout_def exchange_deadline_def keep_alive_period_def idle_timeout_def handshake_timeout_def quic_transport_config_def)
qed

theorem options_in_force_witness:
  "punch_timeout (\<lambda>_. None) (to_peer_config (default_options\<lparr>opt_punch_timeout := from_secs 3\<rparr>)) = from_secs 3"
  using options_in_force [of "default_options\<lparr>opt_punch_timeout := from_secs 3\<rparr>" "\<lambda>_. None"]
  by (simp add: default_options_def from_secs_def)

text \<open>
  The library and the command line accept the same codes: options pass the check exactly when
  the code, given as a flag, would be taken as it is, and a relay is named. A code that passes never
  makes \<^verbatim>\<open>connect\<close> generate one.
\<close>

theorem lib_code_agrees_cli:
  "(lib_validate o1 = None \<longleftrightarrow> opt_code o1 \<noteq> [] \<and> resolve_code_from (opt_code o1) env = Inr (opt_code o1) \<and> opt_relay o1 \<noteq> [])
   \<and> (lib_validate (resolve_options opts) = None \<longrightarrow>
        lib_connect w opts = map_option (map_sum Lib_connect id \<circ> fst)
          (connect_with w (to_peer_config (resolve_options opts)) (opt_relay (resolve_options opts)) (opt_code (resolve_options opts))))"
  by (auto simp: lib_validate_def resolve_code_from_def Let_def lib_connect_def connect_peer_def connect_inner_def option.map_comp
      split: if_splits)

theorem lib_code_agrees_cli_witness:
  "lib_connect (demo_world []) [with_code ''12345678'', with_relay ''r:1''] =
     map_option (map_sum Lib_connect id \<circ> fst)
       (connect_with (demo_world []) (to_peer_config (resolve_options [with_code ''12345678'', with_relay ''r:1''])) ''r:1'' ''12345678'')"
  using lib_code_agrees_cli [of default_options None "[with_code ''12345678'', with_relay ''r:1'']" "demo_world []"]
  by (simp add: lib_validate_def resolve_options_def option_defs default_options_def MIN_CODE_LEN_def MAX_CODE_LEN_def)

end
