(* ===== verification/Relay_Spec.thy ===== *)
theory Relay_Spec
  imports Relay_Live
begin

text \<open>
  What the relay promises, without its tables: a set of members per room, the cookies that are on
  offer, and the datagrams that wait. The running server of \<^verbatim>\<open>relay.rs\<close> refines it: every run of the
  server is a run of the specification that sends the same datagrams. The store of waiting
  registrations, the rooms' own waiting lists, shards, counters, limiters and sweeps are below the
  abstraction; all a client can see of them is that a request is ignored, a member is forgotten or
  an offer lapses.
\<close>

section \<open>The cookies on offer\<close>

definition cookies :: "relay \<Rightarrow> (string \<times> socket_addr \<times> byte list) set" where
  "cookies r = {(room, src, c). keeps_cookie r room src c}"

definition no_offer :: "relay \<Rightarrow> relay \<Rightarrow> bool" where
  "no_offer r r' \<longleftrightarrow> cookies r' \<subseteq> cookies r"

definition only_offer :: "string \<times> socket_addr \<times> byte list \<Rightarrow> relay \<Rightarrow> relay \<Rightarrow> bool" where
  "only_offer k r r' \<longleftrightarrow> cookies r' \<subseteq> insert k (cookies r)"

lemma no_offer_refl [simp]: "no_offer r r"
  by (simp add: no_offer_def)

lemma no_offer_trans: "no_offer r s \<Longrightarrow> no_offer s t \<Longrightarrow> no_offer r t"
  unfolding no_offer_def by blast

lemma no_only_offer_trans: "no_offer r s \<Longrightarrow> only_offer k s t \<Longrightarrow> only_offer k r t"
  unfolding no_offer_def only_offer_def by blast

lemma only_no_offer_trans: "only_offer k r s \<Longrightarrow> no_offer s t \<Longrightarrow> only_offer k r t"
  unfolding no_offer_def only_offer_def by blast

lemma no_only_offer: "no_offer r s \<Longrightarrow> only_offer k r s"
  unfolding no_offer_def only_offer_def by blast

lemma no_offer_same: "get_room r' = get_room r \<Longrightarrow> get_pending_reg r' = get_pending_reg r \<Longrightarrow> no_offer r r'"
  by (simp add: no_offer_def cookies_def keeps_cookie_def)

lemma no_offer_core: "same_core r r' \<Longrightarrow> no_offer r r'"
  by (simp add: no_offer_def cookies_def keeps_cookie_core)

lemma no_offer_core_after: "no_offer r s \<Longrightarrow> same_core s s' \<Longrightarrow> no_offer r s'"
  by (rule no_offer_trans [OF _ no_offer_core])

lemma no_offer_drop_after: "no_offer r s \<Longrightarrow> no_offer r (drop_packet t src s)"
  by (rule no_offer_core_after [OF _ core_drop_packet])

lemma no_offer_drop [simp]: "no_offer r (drop_packet t src r)"
  by (rule no_offer_drop_after) simp

lemma get_pending_frame [simp]:
  "get_pending_reg (put_room room e r) = get_pending_reg r"
  "get_pending_reg (count_reg r) = get_pending_reg r"
  "get_pending_reg (add_ip_room ip room r) = get_pending_reg r"
  "get_pending_reg (unlink_all un r) = get_pending_reg r"
  "get_pending_reg (minus_rooms n r) = get_pending_reg r"
  "get_pending_reg (evict_shard t ttl i r) = get_pending_reg r"
  "get_pending_reg (r\<lparr>total_room_count := k\<rparr>) = get_pending_reg r"
proof -
  show "get_pending_reg (unlink_all un r) = get_pending_reg r"
    by (induction un arbitrary: r) (auto simp: get_pending_reg_def fun_eq_iff remove_ip_room_def split: option.splits)
qed (simp_all add: fun_eq_iff get_pending_reg_def put_room_def count_reg_def add_ip_room_def minus_rooms_def evict_shard_def)

lemma only_offer_put_room:
  assumes "rooms_wf r" "\<And>a p. hm_get (pending e) a = Some p \<Longrightarrow>
      (room, a, cookie p) = k \<or> (\<exists>f q. get_room r room = Some f \<and> hm_get (pending f) a = Some q \<and> cookie q = cookie p)"
  shows "only_offer k r (put_room room e r)"
proof -
  have "keeps_cookie r room' a c \<or> (room', a, c) = k" if "keeps_cookie (put_room room e r) room' a c" for room' a c
    using that assms(2) by (fastforce simp: keeps_cookie_def get_room_put_room [OF assms(1)] split: if_splits)
  then show ?thesis by (auto simp: only_offer_def cookies_def)
qed

lemma no_offer_put_room:
  assumes "rooms_wf r" "get_room r room = Some f"
    and "\<And>a p. hm_get (pending e) a = Some p \<Longrightarrow> hm_get (pending f) a = Some p"
  shows "no_offer r (put_room room e r)"
proof -
  have "keeps_cookie r room' a c" if "keeps_cookie (put_room room e r) room' a c" for room' a c
    using that assms(2,3) by (fastforce simp: keeps_cookie_def get_room_put_room [OF assms(1)] split: if_splits)
  then show ?thesis by (auto simp: no_offer_def cookies_def)
qed

lemma no_offer_put_new_room:
  assumes "rooms_wf r" "pending e = []"
  shows "no_offer r (put_room room e r)"
proof -
  have "keeps_cookie r room' a c" if "keeps_cookie (put_room room e r) room' a c" for room' a c
    using that assms(2) by (fastforce simp: keeps_cookie_def get_room_put_room [OF assms(1)] split: if_splits)
  then show ?thesis by (auto simp: no_offer_def cookies_def)
qed

section \<open>Sweeps withdraw offers only\<close>

lemma sweep_pending_sub:
  "room_ok e \<Longrightarrow> hm_get (pending (fst (remove_stale_clients room t ttl e))) a = Some p \<Longrightarrow> hm_get (pending e) a = Some p"
  by (auto simp: remove_stale_clients_state hm_get_retain room_okD split: option.splits if_splits)

lemma no_offer_unlink_after: "no_offer r s \<Longrightarrow> no_offer r (unlink_all un s)"
  by (erule no_offer_trans) (rule no_offer_same; simp)

lemma no_offer_sweep_room:
  assumes ok: "relay_ok r" and e: "get_room r room = Some e"
    and sw: "remove_stale_clients room t ttl e = (e', un)"
  shows "no_offer r (unlink_all un (put_room room e' r))"
proof (rule no_offer_unlink_after, rule no_offer_put_room [OF relay_okD(2) [OF ok] e])
  have "room_ok e" using relay_ok_entry [OF ok e] by (simp add: entry_ok_def)
  then show "hm_get (pending e') a = Some p \<Longrightarrow> hm_get (pending e) a = Some p" for a p
    using sw sweep_pending_sub [of e room t ttl] by simp
qed

lemma no_offer_evict_shard:
  assumes "rooms_wf r" "i < NUM_SHARDS"
  shows "no_offer r (evict_shard t ttl i r)"
proof -
  have "hm_get (pending e) a = Some p"
    if "get_room r room = Some e" "hm_get (pending (fst (remove_stale_clients room t ttl e))) a = Some p" for room e a p
  proof -
    from that(1) assms(1) have "room_ok e" by (auto simp: rooms_wf_def entry_ok_def)
    then show ?thesis using that(2) by (rule sweep_pending_sub)
  qed
  then have "keeps_cookie r room a c" if "keeps_cookie (evict_shard t ttl i r) room a c" for room a c
    using that by (fastforce simp: keeps_cookie_def get_room_evict_shard [OF assms] split: option.splits if_splits)
  then show ?thesis by (auto simp: no_offer_def cookies_def)
qed

lemma no_offer_evict_shards:
  assumes "rooms_wf r" "\<forall>i \<in> set is. i < NUM_SHARDS"
  shows "no_offer r (fst (evict_shards t ttl is r))"
  using assms
proof (induction "is" arbitrary: r)
  case (Cons i "is")
  let ?r = "unlink_all (unlinked_in t ttl i r) (evict_shard t ttl i r)"
  have "no_offer r ?r" using Cons.prems by (intro no_offer_unlink_after no_offer_evict_shard) auto
  moreover have "no_offer ?r (fst (evict_shards t ttl is ?r))"
    using Cons.prems by (intro Cons.IH) (auto simp: rooms_wf_evict_shard)
  ultimately show ?case
    unfolding evict_shards_Cons Let_def fst_conv by (rule no_offer_trans)
qed simp

lemma no_offer_total_after: "no_offer r s \<Longrightarrow> no_offer r (if b then s\<lparr>total_room_count := n\<rparr> else s)"
  using no_offer_trans [OF _ no_offer_same, of r s "s\<lparr>total_room_count := n\<rparr>"] by (simp add: fun_eq_iff get_room_def)

lemma no_offer_all_shards:
  assumes "relay_ok r"
  shows "no_offer r (fst (evict_shards t ttl [0..<length (shards r)] r))"
proof -
  have "length (shards r) = NUM_SHARDS" using assms by (simp add: relay_ok_def rooms_wf_def sh_ok_def)
  then show ?thesis using assms by (intro no_offer_evict_shards) (auto simp: relay_okD)
qed

lemma no_offer_evict_all: "relay_ok r \<Longrightarrow> no_offer r (fst (evict_stale_rooms_all t r))"
  by (simp add: evict_stale_rooms_all_def case_prod_beta Let_def no_offer_total_after no_offer_all_shards del: if_split)

lemma no_offer_create_sweep:
  assumes "relay_ok r"
  shows "no_offer r (create_sweep t room r)"
proof -
  have "no_offer r (evict_shard t (reg_ttl r) (room_idx room) r)"
    using assms by (simp add: no_offer_evict_shard relay_okD by_room.idx_less)
  then have "no_offer r (minus_rooms n (evict_shard t (reg_ttl r) (room_idx room) r))" for n
    by (rule no_offer_trans) (rule no_offer_same; simp)
  then show ?thesis by (simp add: create_sweep_alt no_offer_unlink_after)
qed

lemma no_offer_delete_pending_reg:
  assumes "relay_ok r"
  shows "no_offer r (delete_pending_reg room src r)"
proof -
  have ps: "ns_ok room_idx NUM_SHARDS (pending_shards r)" using assms by (simp add: relay_ok_def waiting_wf_def)
  have g: "get_room (delete_pending_reg room src r) = get_room r"
    by (auto simp: delete_pending_reg_def Let_def remove_pending_ip_def get_room_def fun_eq_iff split: option.splits)
  have "get_pending_reg r room' a = Some p" if "get_pending_reg (delete_pending_reg room src r) room' a = Some p" for room' a p
    using that
    by (auto simp: delete_pending_reg_def Let_def remove_pending_ip_def get_pending_reg_def by_room.ns_get_del [OF ps]
        split: option.splits if_splits)
  then show ?thesis by (fastforce simp: no_offer_def cookies_def keeps_cookie_def g)
qed

lemma get_room_expiry [simp]: "get_room (remove_stale_pending_regs t r) = get_room r"
  unfolding remove_stale_pending_regs_alt Let_def fold_remove_pending_ip by (simp add: get_room_def fun_eq_iff)

lemma room_tick_fades:
  assumes ok: "relay_ok r"
  shows "no_new r (room_tick t r)" and "no_offer r (room_tick t r)"
proof -
  have tick: "room_tick t r = remove_stale_pending_regs t (fst (evict_stale_rooms_all t r))"
    by (simp add: room_tick_def evict_stale_rooms_all_def case_prod_beta Let_def)
  let ?s = "fst (evict_stale_rooms_all t r)"
  have s: "relay_ok ?s" using ok by (rule relay_ok_evict_stale_rooms_all)
  show "no_new r (room_tick t r)"
    unfolding tick by (rule no_new_trans [OF no_new_evict_all [OF ok] no_new_same]) simp
  have "no_offer ?s (remove_stale_pending_regs t ?s)"
    by (auto simp: no_offer_def cookies_def keeps_cookie_def get_pending_reg_expiry [OF s] split: option.splits if_splits)
  then show "no_offer r (room_tick t r)"
    unfolding tick by (rule no_offer_trans [OF no_offer_evict_all [OF ok]])
qed

lemma rate_tick_core: "same_core r (rate_tick t r)"
  by (simp add: rate_tick_def same_core_def)

section \<open>Handlers offer what they send\<close>

lemma no_offer_admit_after:
  assumes "no_offer r s" "rooms_wf s" "get_room s room = Some f"
    "\<And>a p. hm_get (pending e) a = Some p \<Longrightarrow> hm_get (pending f) a = Some p"
  shows "no_offer r (count_reg ((if b then add_ip_room ip room else id) (put_room room e s)))"
proof -
  have "no_offer (put_room room e s) (count_reg ((if b then add_ip_room ip room else id) (put_room room e s)))"
    by (rule no_offer_same) (cases b; simp)+
  with assms no_offer_put_room [of s room f e] show ?thesis by (blast intro: no_offer_trans)
qed

lemma no_offer_reg_admit_existing:
  assumes ok: "relay_ok r" and e: "get_room r room = Some e"
  shows "no_offer r (fst (reg_admit_existing h room src src e r))"
proof -
  obtain e1 un where sw: "remove_stale_clients room (now h) (reg_ttl r) e = (e1, un)" by fastforce
  define r1 where "r1 = unlink_all un (put_room room e1 r)"
  have r1: "rooms_wf r1" unfolding r1_def by (rule relay_okD(2) [OF relay_ok_sweep_room [OF ok e sw]])
  have e1: "get_room r1 room = Some e1" unfolding r1_def using ok by (rule get_room_sweep)
  have no: "no_offer r r1" unfolding r1_def by (rule no_offer_sweep_room [OF ok e sw])
  have adm: "no_offer r (count_reg ((if b then add_ip_room ip room else id)
    (put_room room (admit_client (now h) src e1) r1)))" for b ip
    by (rule no_offer_admit_after [OF no r1 e1]) (simp add: admit_client_def)
  show ?thesis
    unfolding reg_admit_existing_def sw Let_def split_conv r1_def [symmetric]
      admit_client_def [of "now h" src e1, symmetric]
    using adm [of True "ip_key src"] adm [of False "ip_key src"] no
    by (auto intro: no_offer_drop_after)
qed

lemma no_offer_reg_create_room:
  assumes ok: "relay_ok r"
  shows "no_offer r (fst (reg_create_room h room src src r))"
proof -
  define r1 where "r1 = create_sweep (now h) room r"
  have r1: "relay_ok r1" "no_offer r r1"
    unfolding r1_def using ok by (simp_all add: relay_ok_create_sweep no_offer_create_sweep)
  let ?e = "admit_client (now h) src (room_entry_new (now h))"
  have "no_offer r1 (put_room room ?e r1)"
    by (rule no_offer_put_new_room) (simp_all add: relay_okD [OF r1(1)] admit_client_def room_entry_new_def)
  then have "no_offer r1 (count_reg (add_ip_room (ip_key src) room
       ((put_room room ?e r1)\<lparr>total_room_count := total_room_count r1 + 1\<rparr>)))"
    by (rule no_offer_trans) (rule no_offer_same; simp add: get_room_def fun_eq_iff)
  with r1 show ?thesis
    unfolding reg_create_room_def Let_def create_sweep_def [unfolded Let_def, symmetric] r1_def [symmetric]
      admit_client_def [symmetric] limits_frame
    by (auto intro: no_offer_drop_after no_offer_trans)
qed

lemma no_offer_reg_cookie_create_or_admit:
  assumes ok: "relay_ok r"
  shows "no_offer r (fst (reg_cookie_create_or_admit h room src src r))"
proof -
  define r1 where "r1 = (if total_rooms r \<ge> max_rooms r then fst (evict_stale_rooms_all (now h) r) else r)"
  have r1: "relay_ok r1" "no_offer r r1"
    using ok by (simp_all add: r1_def relay_ok_evict_stale_rooms_all no_offer_evict_all)
  then have "no_offer r1 (fst (case get_room r1 room of
      None \<Rightarrow> reg_create_room h room src src r1 | Some e \<Rightarrow> reg_admit_existing h room src src e r1))"
    by (simp add: no_offer_reg_create_room no_offer_reg_admit_existing split: option.splits)
  with r1 show ?thesis
    unfolding reg_cookie_create_or_admit_def Let_def r1_def [symmetric] by (blast intro: no_offer_trans)
qed

lemma no_offer_reg_cookie_in_room:
  assumes ok: "relay_ok r" and e: "get_room r room = Some e"
  shows "no_offer r (fst (reg_cookie_in_room h room cb src e r))"
proof (cases "hm_get (pending e) src")
  case (Some p)
  have rok: "room_ok e" using relay_ok_entry [OF ok e] by (simp add: entry_ok_def)
  then have res: "p_resolved_addr p = src" using Some by (rule room_okD(6))
  obtain e1 un where sw: "remove_stale_clients room (now h) (reg_ttl r) e = (e1, un)" by fastforce
  define r1 where "r1 = unlink_all un (put_room room e1 r)"
  have r1: "relay_ok r1" unfolding r1_def by (rule relay_ok_sweep_room [OF ok e sw])
  have e1: "get_room r1 room = Some e1" unfolding r1_def using ok by (rule get_room_sweep)
  have no: "no_offer r r1" unfolding r1_def by (rule no_offer_sweep_room [OF ok e sw])
  have sub: "hm_get (hm_remove src (pending f)) a = Some q \<Longrightarrow> hm_get (pending f) a = Some q" if "room_ok f" for f a q
    using that by (simp add: hm_get_remove room_okD split: if_splits)
  have "room_ok e1" using relay_ok_entry [OF r1 e1] by (simp add: entry_ok_def)
  then have adm: "no_offer r (count_reg ((if b then add_ip_room ip room else id)
    (put_room room (admit_client (now h) src (fst (remove_pending src e1))) r1)))" for b ip
    by (intro no_offer_admit_after [OF no relay_okD(2) [OF r1] e1]) (simp add: admit_client_def sub)
  have gone: "no_offer r (put_room room (fst (remove_pending src e)) r)"
    by (rule no_offer_put_room [OF relay_okD(2) [OF ok] e]) (simp add: sub [OF rok])
  show ?thesis
    unfolding reg_cookie_in_room_def Some option.case Let_def sw split_conv res r1_def [symmetric]
      admit_client_def [symmetric]
    using adm [of True "ip_key src"] adm [of False "ip_key src"] no gone
    by (auto intro: no_offer_drop_after)
qed (simp add: reg_cookie_in_room_def no_offer_core)

lemma send_if_regd_out:
  "snd (send_if_regd h room src x) = [] \<or> snd x = Regd \<and> snd (send_if_regd h room src x) = [(regd_ok_msg room src, src)]"
  by (cases x) (simp add: send_if_regd_def send_regd_def write_relay_def Let_def)

lemma send_if_regd_core: "same_core (fst x) (fst (send_if_regd h room src x))"
  by (cases x) (simp add: send_if_regd_def)


lemma store_pending_reg_offers:
  assumes ok: "relay_ok r"
  shows "only_offer (room, src, cookie p) r (fst (store_pending_reg room src p r))"
proof -
  have ps: "ns_ok room_idx NUM_SHARDS (pending_shards r)" using ok by (simp add: relay_ok_def waiting_wf_def)
  have g: "get_room (fst (store_pending_reg room src p r)) = get_room r"
    by (simp add: store_pending_reg_def Let_def add_pending_ip_def get_room_def fun_eq_iff)
  have "get_pending_reg r room' a = Some q \<or> room' = room \<and> a = src \<and> q = p"
    if "get_pending_reg (fst (store_pending_reg room src p r)) room' a = Some q" for room' a q
    using that
    by (auto simp: store_pending_reg_def Let_def add_pending_ip_def get_pending_reg_def by_room.ns_get_put [OF ps]
        split: option.splits if_splits)
  then show ?thesis by (fastforce simp: only_offer_def cookies_def keeps_cookie_def g)
qed

lemma challenge_out: "snd (send_reg_challenge h room c src r) \<in> {[], [(challenge_msg room c, src)]}"
  by (simp add: send_reg_challenge_def write_relay_def Let_def)

lemma regd_out: "snd (send_regd h room src r) \<in> {[], [(regd_ok_msg room src, src)]}"
  by (simp add: send_regd_def write_relay_def Let_def)

lemma reg_store_challenge_cases:
  assumes ok: "relay_ok r"
  obtains (ignored) "no_offer r (fst (reg_store_challenge h room src r))" "snd (reg_store_challenge h room src r) = []"
  | (offered) "only_offer (room, src, rnd_cookie h) r (fst (reg_store_challenge h room src r))"
      "keeps_cookie (fst (reg_store_challenge h room src r)) room src (rnd_cookie h)"
      "snd (reg_store_challenge h room src r) \<in> {[], [(challenge_msg room (rnd_cookie h), src)]}"
proof -
  let ?p = "\<lparr>cookie = rnd_cookie h, created_at = now h, p_resolved_addr = src\<rparr>"
  let ?st = "store_pending_reg room src ?p r"
  have drop: "fst ?st = r" if "\<not> snd ?st"
    using that by (auto simp: store_pending_reg_def Let_def split: if_splits)
  have "reg_store_challenge h room src r = (drop_packet (now h) src r, []) \<or>
      snd ?st \<and> reg_store_challenge h room src r = send_reg_challenge h room (rnd_cookie h) src (fst ?st)"
    using drop by (simp add: reg_store_challenge_def case_prod_beta Let_def)
  then consider (full) "reg_store_challenge h room src r = (drop_packet (now h) src r, [])"
    | (sent) "snd ?st" "reg_store_challenge h room src r = send_reg_challenge h room (rnd_cookie h) src (fst ?st)"
    by blast
  then show thesis
  proof cases
    case sent
    have "keeps_cookie (fst ?st) room src (rnd_cookie h)"
      using store_pending_reg_get [OF ok sent(1)] by (simp add: keeps_cookie_def)
    moreover have "only_offer (room, src, rnd_cookie h) r (fst ?st)"
      using store_pending_reg_offers [OF ok, of room src ?p] by simp
    ultimately show thesis
      using only_no_offer_trans [OF _ no_offer_core [OF core_send_reg_challenge]] challenge_out
      by (intro offered) (simp_all add: sent(2) keeps_cookie_core [OF core_send_reg_challenge])
  qed (use ignored in simp)
qed

lemma reg_initial_in_room_offers:
  fixes h src
  assumes ok: "relay_ok r" and e: "get_room r room = Some e"
  defines "res \<equiv> reg_initial_in_room h room src e r"
  shows "\<forall>c. snd res \<noteq> Challenge c \<Longrightarrow> no_offer r (fst res)"
    and "snd res = Challenge c \<Longrightarrow> only_offer (room, src, c) r (fst res) \<and> (keeps_cookie r room src c \<or> c = rnd_cookie h)"
proof -
  obtain e1 un where sw: "remove_stale_clients room (now h) (reg_ttl r) e = (e1, un)" by fastforce
  define r1 where "r1 = unlink_all un (put_room room e1 r)"
  have r1: "rooms_wf r1" unfolding r1_def by (rule relay_okD(2) [OF relay_ok_sweep_room [OF ok e sw]])
  have e1: "get_room r1 room = Some e1" unfolding r1_def using ok by (rule get_room_sweep)
  have no: "no_offer r r1" unfolding r1_def by (rule no_offer_sweep_room [OF ok e sw])
  have rok: "room_ok e" using relay_ok_entry [OF ok e] by (simp add: entry_ok_def)
  have held: "keeps_cookie r room src (cookie p)" if "hm_get (pending e1) src = Some p" for p
    using that sw sweep_pending_sub [OF rok, of room "now h" "reg_ttl r"] e by (fastforce simp: keeps_cookie_def)
  have cl: "no_offer r (count_reg (put_room room (e1\<lparr>udp_clients := cs\<rparr>) r1))" for cs
    using no_offer_admit_after [OF no r1 e1, of "e1\<lparr>udp_clients := cs\<rparr>" False] by simp
  have off: "only_offer (room, src, cookie p) r (put_room room (e1\<lparr>pending := hm_insert src p (pending e1), pending_by_ip := ct\<rparr>) r1)"
    for p ct
    by (rule no_only_offer_trans [OF no only_offer_put_room [OF r1]]) (auto simp: e1 hm_get_insert split: if_splits)
  have new: "only_offer (room, src, cookie p) r (put_room room (fst (add_pending src p n e1)) r1)"
    if "snd (add_pending src p n e1)" for p n
    using that by (intro no_only_offer_trans [OF no only_offer_put_room [OF r1]])
      (auto simp: add_pending_def Let_def e1 hm_get_insert split: if_splits)
  note new' = new [of "\<lparr>cookie = rnd_cookie h, created_at = now h, p_resolved_addr = src\<rparr>", simplified]
  have old: "only_offer (room, src, cookie p) r (put_room room (e1\<lparr>pending := hm_insert src
      (p\<lparr>created_at := now h, p_resolved_addr := src\<rparr>) (pending e1)\<rparr>) r1)" for p
    using off [of "p\<lparr>created_at := now h, p_resolved_addr := src\<rparr>" "pending_by_ip e1"] by simp
  show "no_offer r (fst res)" if "\<forall>c. snd res \<noteq> Challenge c"
    using that unfolding res_def reg_initial_in_room_def Let_def sw split_conv r1_def [symmetric]
    by (auto simp: case_prod_beta cl no no_offer_drop_after split: option.splits if_splits)
  show "only_offer (room, src, c) r (fst res) \<and> (keeps_cookie r room src c \<or> c = rnd_cookie h)"
    if "snd res = Challenge c"
    using that unfolding res_def reg_initial_in_room_def Let_def sw split_conv r1_def [symmetric]
    by (auto simp: case_prod_beta old new' held split: option.splits if_splits)
qed

section \<open>The specification\<close>

record spec =
  members :: "string \<Rightarrow> socket_addr set"
  offers :: "(string \<times> socket_addr \<times> byte list) set"

text \<open>Time may only take away.\<close>

definition fades :: "spec \<Rightarrow> spec \<Rightarrow> bool" where
  "fades s s' \<longleftrightarrow> (\<forall>room. members s' room \<subseteq> members s room) \<and> offers s' \<subseteq> offers s"

definition is_msg :: "string \<Rightarrow> string \<Rightarrow> string \<Rightarrow> string \<Rightarrow> bool" where
  "is_msg data room phase body \<longleftrightarrow> starts_with (trim_ascii_space data) ''MSG ''
     \<and> splitn 3 (CHR '' '') (drop CMD_PREFIX_LEN (trim_ascii_space data)) = [room, phase, body]
     \<and> valid_room_name room \<and> phase \<in> {''spake2'', ''confirm''} \<and> is_valid_hex body \<and> length body \<le> MAX_MSG_BODY_LEN"

text \<open>
  The answer to one datagram \<open>data\<close> from \<open>src\<close>. It may be ignored; a REG may be answered by a
  challenge, whose cookie is then on offer to \<open>src\<close> for this room; a REG with a cookie that is on
  offer may admit \<open>src\<close>; a member is told that it is one; a message of a member goes to other members of its
  room, at most once to each. An answer may get lost on its way out.
\<close>

inductive spec_reply :: "string \<Rightarrow> socket_addr \<Rightarrow> spec \<Rightarrow> send list \<Rightarrow> spec \<Rightarrow> bool" for data src where
  ignore: "fades s s' \<Longrightarrow> spec_reply data src s [] s'"
| challenge: "is_reg data room ck \<Longrightarrow> valid_room_name room \<Longrightarrow>
    (room, src, c) \<in> offers s \<or> length c = PENDING_COOKIE_BYTES \<Longrightarrow>
    fades (s\<lparr>offers := insert (room, src, c) (offers s)\<rparr>) s' \<Longrightarrow> (room, src, c) \<in> offers s' \<Longrightarrow>
    out \<in> {[], [(challenge_msg room c, src)]} \<Longrightarrow> spec_reply data src s out s'"
| admit: "is_reg data room ck \<Longrightarrow> valid_room_name room \<Longrightarrow> hex_decode ck = Some c \<Longrightarrow> (room, src, c) \<in> offers s \<Longrightarrow>
    fades (s\<lparr>members := (members s)(room := insert src (members s room))\<rparr>) s' \<Longrightarrow>
    out = [] \<or> out = [(regd_ok_msg room src, src)] \<and> src \<in> members s' room \<Longrightarrow> spec_reply data src s out s'"
| confirm: "is_reg data room ck \<Longrightarrow> src \<in> members s room \<Longrightarrow> fades s s' \<Longrightarrow> src \<in> members s' room \<Longrightarrow>
    out \<in> {[], [(regd_ok_msg room src, src)]} \<Longrightarrow> spec_reply data src s out s'"
| forward: "is_msg data room phase body \<Longrightarrow> src \<in> members s room \<Longrightarrow> fades s s' \<Longrightarrow> distinct out \<Longrightarrow>
    set out \<subseteq> {msgd_msg phase body} \<times> (members s room - {src}) \<Longrightarrow> spec_reply data src s out s'"

text \<open>A datagram arrives, or is lost; members and offers lapse; the oldest datagram is answered.\<close>

inductive spec_step :: "spec \<times> (string \<times> socket_addr) list \<Rightarrow> send list \<Rightarrow> spec \<times> (string \<times> socket_addr) list \<Rightarrow> bool" where
  arrive: "length data \<le> READ_BUF_SIZE \<Longrightarrow> spec_step (s, q) [] (s, q @ [(data, src)])"
| fade: "fades s s' \<Longrightarrow> spec_step (s, q) [] (s', q)"
| answer: "spec_reply data src s out s' \<Longrightarrow> spec_step (s, (data, src) # q) out (s', q)"

definition spec_start :: "spec \<times> (string \<times> socket_addr) list" where
  "spec_start = (\<lparr>members = \<lambda>_. {}, offers = {}\<rparr>, [])"

section \<open>Runs and simulation\<close>

text \<open>The runs of a system whose steps have outputs.\<close>

inductive runs :: "('s \<Rightarrow> 'o list \<Rightarrow> 's \<Rightarrow> bool) \<Rightarrow> 's \<Rightarrow> 'o list \<Rightarrow> 's \<Rightarrow> bool" for step s where
  none: "runs step s [] s"
| more: "runs step s outs t \<Longrightarrow> step t out u \<Longrightarrow> runs step s (outs @ out) u"

text \<open>A concrete system that keeps an invariant and whose steps are steps of an abstract one.\<close>

locale simulation =
  fixes cstep :: "'c \<Rightarrow> 'o list \<Rightarrow> 'c \<Rightarrow> bool"
    and astep :: "'a \<Rightarrow> 'o list \<Rightarrow> 'a \<Rightarrow> bool"
    and abs :: "'c \<Rightarrow> 'a"
    and inv :: "'c \<Rightarrow> bool"
  assumes inv_step: "inv s \<Longrightarrow> cstep s out s' \<Longrightarrow> inv s'"
    and abs_step: "inv s \<Longrightarrow> cstep s out s' \<Longrightarrow> astep (abs s) out (abs s')"
begin

lemma inv_runs: "runs cstep s outs s' \<Longrightarrow> inv s \<Longrightarrow> inv s'"
  by (induction rule: runs.induct) (auto intro: inv_step)

lemma abs_runs: "runs cstep s outs s' \<Longrightarrow> inv s \<Longrightarrow> runs astep (abs s) outs (abs s')"
proof (induction rule: runs.induct)
  case (more outs t out u)
  then show ?case using inv_runs by (blast intro: runs.more abs_step)
qed (rule runs.none)

end

section \<open>The server refines the specification\<close>

definition spec_of :: "relay \<Rightarrow> spec" where
  "spec_of r = \<lparr>members = clients r, offers = cookies r\<rparr>"

lemma spec_of_sel [simp]: "members (spec_of r) = clients r" "offers (spec_of r) = cookies r"
  by (simp_all add: spec_of_def)

lemma fades_spec_of [simp]: "fades (spec_of r) (spec_of r') \<longleftrightarrow> no_new r r' \<and> no_offer r r'"
  by (simp add: fades_def no_new_def no_offer_def)

lemma fades_offer [simp]:
  "fades ((spec_of r)\<lparr>offers := insert k (cookies r)\<rparr>) (spec_of r') \<longleftrightarrow> no_new r r' \<and> only_offer k r r'"
  by (simp add: fades_def no_new_def only_offer_def)

lemma fades_member [simp]:
  "fades ((spec_of r)\<lparr>members := (clients r)(room := insert src (clients r room))\<rparr>) (spec_of r')
     \<longleftrightarrow> only_new room src r r' \<and> no_offer r r'"
  by (auto simp: fades_def only_new_def no_offer_def)

lemma spec_of_core: "same_core r r' \<Longrightarrow> spec_of r' = spec_of r"
  by (simp add: spec_of_def clients_core cookies_def keeps_cookie_core fun_eq_iff)

lemma in_cookies: "(room, src, c) \<in> cookies r \<longleftrightarrow> keeps_cookie r room src c"
  by (simp add: cookies_def)

lemma reply_ignore: "no_new r r' \<Longrightarrow> no_offer r r' \<Longrightarrow> spec_reply data src (spec_of r) [] (spec_of r')"
  by (rule spec_reply.ignore) simp

lemma reply_core: "same_core r r' \<Longrightarrow> spec_reply data src (spec_of r) [] (spec_of r')"
  by (intro reply_ignore no_new_core no_offer_core)

lemma reply_store_challenge:
  assumes ok: "relay_ok r" and reg: "is_reg data room ck" "valid_room_name room"
    and rnd: "length (rnd_cookie h) = PENDING_COOKIE_BYTES"
  shows "spec_reply data src (spec_of r) (snd (reg_store_challenge h room src r)) (spec_of (fst (reg_store_challenge h room src r)))"
proof (cases rule: reg_store_challenge_cases [OF ok, of h room src])
  case 1
  then show ?thesis by (simp add: reply_ignore)
next
  case 2
  then show ?thesis using rnd
    by (intro spec_reply.challenge [OF reg, where c = "rnd_cookie h"]) (simp_all add: in_cookies)
qed

text \<open>A REG with a cookie starts over when the room is gone; otherwise it offers nothing.\<close>

lemma handle_reg_cookie_split:
  fixes h room ck src
  assumes ok: "relay_ok r"
  defines "res \<equiv> handle_reg_cookie h room ck src r"
  shows "res = reg_store_challenge h room src r \<or>
    no_offer r (fst res) \<and> (snd res = [] \<or> snd res = [(regd_ok_msg room src, src)] \<and> src \<in> clients (fst res) room)"
proof -
  have res: "p_resolved_addr p = src" if "get_pending_reg r room src = Some p" for p
    using that ok by (auto simp: relay_ok_def waiting_wf_def)
  have del: "relay_ok (delete_pending_reg room src r)" "no_offer r (delete_pending_reg room src r)"
    using ok by (simp_all add: relay_ok_delete_pending_reg no_offer_delete_pending_reg)
  have regd: "no_offer r (fst (send_if_regd h room src x)) \<and> (snd (send_if_regd h room src x) = [] \<or>
      snd (send_if_regd h room src x) = [(regd_ok_msg room src, src)] \<and> src \<in> clients (fst (send_if_regd h room src x)) room)"
    if "no_offer r (fst x)" "snd x = Regd \<Longrightarrow> src \<in> clients (fst x) room" for x
    using that send_if_regd_out [of h room src x] no_offer_core_after [OF _ send_if_regd_core]
    by (auto simp: clients_core [OF send_if_regd_core])
  note stored = regd [OF no_offer_trans [OF del(2) no_offer_reg_cookie_create_or_admit [OF del(1)]]
      regd_reg_cookie_create_or_admit [OF del(1)]]
  note in_room = regd [OF no_offer_reg_cookie_in_room [OF ok] regd_reg_cookie_in_room [OF ok]]
  show ?thesis
    unfolding res_def handle_reg_cookie_def
    using stored in_room del(2) by (auto simp: res no_offer_drop_after split: option.splits)
qed

lemma reply_reg_cookie:
  fixes src
  assumes ok: "relay_ok r" and reg: "is_reg data room ck" "valid_room_name room"
    and rnd: "length (rnd_cookie h) = PENDING_COOKIE_BYTES"
  defines "res \<equiv> handle_reg_cookie h room ck src r"
  shows "spec_reply data src (spec_of r) (snd res) (spec_of (fst res))"
proof (cases "res = reg_store_challenge h room src r")
  case True
  then show ?thesis using reply_store_challenge [OF ok reg rnd] by simp
next
  case False
  then have no: "no_offer r (fst res)"
    and out: "snd res = [] \<or> snd res = [(regd_ok_msg room src, src)] \<and> src \<in> clients (fst res) room"
    using handle_reg_cookie_split [OF ok, of h room ck src] by (auto simp: res_def)
  show ?thesis
  proof (cases "no_new r (fst res)")
    case True
    then have "snd res = [] \<or> src \<in> clients r room \<and> src \<in> clients (fst res) room"
      using out by (auto simp: no_new_def)
    with True no out show ?thesis
      by (auto intro: reply_ignore spec_reply.confirm [OF reg(1)])
  next
    case False
    from handle_reg_cookie_admits(2) [OF ok False [unfolded res_def]]
    obtain p where p: "waiting_cookie r room src = Some p" "hex_decode ck = Some (cookie p)" by blast
    then have "(room, src, cookie p) \<in> cookies r"
      by (auto simp: waiting_cookie_def cookies_def keeps_cookie_def split: option.splits)
    then show ?thesis
      using no out handle_reg_cookie_admits(1) [OF ok, of room src h ck]
      by (intro spec_reply.admit [OF reg p(2)]) (simp_all add: res_def)
  qed
qed

lemma reply_reg_initial:
  assumes ok: "relay_ok r" and reg: "is_reg data room ck" "valid_room_name room"
    and rnd: "length (rnd_cookie h) = PENDING_COOKIE_BYTES"
  shows "spec_reply data src (spec_of r) (snd (handle_reg_initial h room src r)) (spec_of (fst (handle_reg_initial h room src r)))"
proof (cases "count_ip_rooms r (ip_key src) \<ge> max_rooms_per_ip r \<or> get_room r room = None")
  case True
  then show ?thesis
    using reply_store_challenge [OF ok reg rnd] by (auto simp: handle_reg_initial_def intro: reply_core)
next
  case False
  then obtain e where e: "get_room r room = Some e" by blast
  let ?res = "reg_initial_in_room h room src e r"
  obtain r1 act where act: "?res = (r1, act)" by fastforce
  note facts = reg_initial_in_room_offers [OF ok e, of h src] out_reg_initial_in_room [OF ok e, of h src]
    no_new_reg_initial_in_room [OF ok e, of h src]
  have eq: "handle_reg_initial h room src r =
      (case act of Regd \<Rightarrow> send_regd h room src r1 | Challenge c \<Rightarrow> send_reg_challenge h room c src r1 | NoReply \<Rightarrow> (r1, []))"
    using False by (simp add: handle_reg_initial_def e act split: reg_action.splits)
  show ?thesis
  proof (cases act)
    case Regd
    then have f: "no_new r r1" "no_offer r r1" "src \<in> clients r1 room" using facts act by simp_all
    then have "src \<in> clients r room" by (auto simp: no_new_def)
    with f show ?thesis
      using regd_out unfolding eq Regd
      by (intro spec_reply.confirm [OF reg(1)]) (simp_all add: spec_of_core [OF core_send_regd])
  next
    case (Challenge c)
    then have f: "no_new r r1" "only_offer (room, src, c) r r1" "keeps_cookie r1 room src c"
      "keeps_cookie r room src c \<or> c = rnd_cookie h" using facts act by simp_all
    then show ?thesis
      using challenge_out rnd unfolding eq Challenge
      by (intro spec_reply.challenge [OF reg, where c = c]) (auto simp: spec_of_core [OF core_send_reg_challenge] in_cookies)
  next
    case NoReply
    with facts act show ?thesis unfolding eq by (simp add: reply_ignore)
  qed
qed

lemma reply_reg:
  assumes ok: "relay_ok r" and reg: "is_reg data room ck" "valid_room_name room"
    and rnd: "length (rnd_cookie h) = PENDING_COOKIE_BYTES"
  shows "spec_reply data src (spec_of r) (snd (handle_reg h room ck src r)) (spec_of (fst (handle_reg h room ck src r)))"
proof -
  obtain r1 lim where lim: "is_reg_rate_limited (ip_str (ip_key src)) (now h) r = (r1, lim)" by fastforce
  then have core: "same_core r r1" using core_is_reg_rate_limited [of r "ip_str (ip_key src)" "now h"] by simp
  then have ok1: "relay_ok r1" using ok by (rule relay_ok_core)
  show ?thesis
    using reply_reg_cookie [OF ok1 reg rnd] reply_reg_initial [OF ok1 reg rnd] spec_of_core [OF core]
      reply_core [OF same_core_trans [OF core core_drop_packet]]
    by (simp add: handle_reg_def lim)
qed

lemma write_targets_distinct: "distinct ts \<Longrightarrow> distinct (snd (write_targets ws i m ts r))"
proof (induction ts arbitrary: i r)
  case (Cons t ts)
  have "(m, t) \<notin> set (snd (write_targets ws (i + 1) m ts r'))" for r'
    using Cons.prems out_write_targets [of ws "i + 1" m ts r'] by auto
  moreover have "distinct (fst (snd (write_relay (ws i) m t r)))" by (simp add: write_relay_def)
  ultimately show ?case
    using Cons out_write_relay [of "ws i" m t r] by (auto simp: case_prod_beta Let_def)
qed simp

lemma relay_msg_frame:
  assumes ok: "relay_ok r"
  shows "no_offer r (fst (relay_msg h room phase body src r))" "distinct (snd (relay_msg h room phase body src r))"
proof -
  have put: "no_offer r (put_room room (e\<lparr>udp_clients := cs\<rparr>) r)" if "get_room r room = Some e" for e cs
    using that by (intro no_offer_put_room [OF relay_okD(2) [OF ok]]) simp_all
  have stat: "no_offer r (s\<lparr>stat_msgs := n\<rparr>)" if "no_offer r s" for s n
    by (rule no_offer_core_after [OF that]) (simp add: same_core_def)
  show "no_offer r (fst (relay_msg h room phase body src r))"
    unfolding relay_msg_def Let_def case_prod_beta
    using put no_offer_core_after [OF put core_write_targets]
    by (auto simp: stat intro: no_offer_drop_after split: option.splits)
  have "distinct (msg_targets (e\<lparr>udp_clients := hm_insert src (info\<lparr>c_rate_limiter := rl\<rparr>) (udp_clients e)\<rparr>) src)"
    if "get_room r room = Some e" "hm_get (udp_clients e) src = Some info" for e info rl
    using relay_ok_entry [OF ok that(1)] that(2)
    by (intro msg_targets_distinct room_ok_limiter) (simp_all add: entry_ok_def)
  then show "distinct (snd (relay_msg h room phase body src r))"
    unfolding relay_msg_def Let_def case_prod_beta by (simp add: write_targets_distinct split: option.splits)
qed

lemma relay_msg_member:
  "relay_ok r \<Longrightarrow> src \<notin> clients r room \<Longrightarrow> relay_msg h room phase body src r = (drop_packet (now h) src r, [])"
  by (auto simp: relay_msg_def clients_def hm_contains_keys [symmetric] hm_contains_def split: option.splits)

lemma reply_relay_msg:
  assumes ok: "relay_ok r" and msg: "is_msg data room phase body"
  shows "spec_reply data src (spec_of r) (snd (relay_msg h room phase body src r)) (spec_of (fst (relay_msg h room phase body src r)))"
proof (cases "src \<in> clients r room")
  case True
  show ?thesis
  proof (rule spec_reply.forward [OF msg])
    show "set (snd (relay_msg h room phase body src r)) \<subseteq> {msgd_msg phase body} \<times> (members (spec_of r) room - {src})"
      using out_relay_msg [OF ok] by fastforce
  qed (use True relay_msg_frame [OF ok] no_new_relay_msg [OF ok] in simp_all)
qed (simp add: relay_msg_member [OF ok] reply_core)

lemma reply_msg:
  assumes ok: "relay_ok r" and msg: "starts_with (trim_ascii_space data) ''MSG ''"
    "payload = drop CMD_PREFIX_LEN (trim_ascii_space data)"
  shows "spec_reply data src (spec_of r) (snd (handle_msg h payload src r)) (spec_of (fst (handle_msg h payload src r)))"
proof (cases "\<exists>room phase body. is_msg data room phase body")
  case True
  then obtain room phase body where m: "is_msg data room phase body" by blast
  then have "handle_msg h payload src r = relay_msg h room phase body src r"
    by (auto simp: is_msg_def msg(2) handle_msg_def)
  then show ?thesis using reply_relay_msg [OF ok m] by simp
next
  case False
  then have "handle_msg h payload src r = (drop_packet (now h) src r, [])"
    using msg by (auto simp: is_msg_def handle_msg_def not_less split: list.splits)
  then show ?thesis by (simp add: reply_core)
qed

lemma reply_packet:
  assumes ok: "relay_ok r" and rnd: "length (rnd_cookie h) = PENDING_COOKIE_BYTES"
  shows "spec_reply data src (spec_of r) (snd (handle_packet h data src r)) (spec_of (fst (handle_packet h data src r)))"
proof (cases rule: handle_packet_cases [of h data src r])
  case drop
  then show ?thesis by (simp add: reply_core)
next
  case (reg room c)
  then show ?thesis using reply_reg [OF ok reg(1,2) rnd] by simp
next
  case (msg payload)
  then show ?thesis using reply_msg [OF ok msg(1,2)] by simp
qed

lemma spec_tick:
  "relay_ok r \<Longrightarrow> spec_step (spec_of r, q) [] (spec_of (room_tick t r), q)"
  "spec_step (spec_of r, q) [] (spec_of (rate_tick t r), q)"
  by (rule spec_step.fade; simp add: room_tick_fades no_new_core [OF rate_tick_core] no_offer_core [OF rate_tick_core])+

lemma spec_recv:
  "spec_step (spec_of (srv_relay s), srv_queue s) [] (spec_of (srv_relay (recv_packet d src s)), srv_queue (recv_packet d src s))"
proof -
  have "spec_of ((srv_relay s)\<lparr>stat_drops := n\<rparr>) = spec_of (srv_relay s)" for n
    by (rule spec_of_core) (simp add: same_core_def)
  then show ?thesis by (auto simp: recv_packet_def Let_def intro: spec_step.arrive spec_step.fade)
qed

interpretation relay_sim: simulation server_step spec_step "\<lambda>s. (spec_of (srv_relay s), srv_queue s)" "\<lambda>s. relay_ok (srv_relay s)"
proof (unfold_locales, goal_cases)
  case (1 s out s')
  then show ?case by (blast intro: server_step_ok)
next
  case (2 s out s')
  from 2(2,1) show ?case
  proof (induction rule: server_step.induct)
    case (handle s data src q h r' out)
    then show ?case using spec_step.answer [OF reply_packet [of "srv_relay s" h data src]] by simp
  qed (simp_all add: spec_recv spec_tick)
qed

lemma spec_of_start: "(spec_of (srv_relay (serve_start (relay_new getenv t))), srv_queue (serve_start (relay_new getenv t))) = spec_start"
proof -
  have "clients (with_config t c) room = {}" "cookies (with_config t c) = {}" for c room
    using fresh_tables [of t c] by (simp_all add: clients_def cookies_def keeps_cookie_def)
  moreover have "same_core r (srv_relay (serve_start r))" for r by (simp add: serve_start_def Let_def same_core_def)
  then have "spec_of (srv_relay (serve_start r)) = spec_of r" for r by (rule spec_of_core)
  moreover have "srv_queue (serve_start r) = []" for r by (simp add: serve_start_def)
  ultimately show ?thesis by (simp add: spec_start_def relay_new_def) (simp add: spec_of_def fun_eq_iff)
qed

section \<open>Property\<close>

text \<open>
  C5. Refinement. Whatever the environment, the datagrams and the order of the steps of the server, a run of
  the server from its start is a run of the specification from the empty one with the same datagrams
  sent: nobody is a member who has not returned a cookie that was on offer to his address, nothing is
  sent but challenges and confirmations to the asker and messages of members to the other members of
  their room, each at most once, and members and offers are never invented by the clean-up.
\<close>

theorem relay_refines_spec:
  assumes "runs server_step (serve_start (relay_new getenv t)) outs s"
  shows "runs spec_step spec_start outs (spec_of (srv_relay s), srv_queue s)"
  using relay_sim.abs_runs [OF assms] relay_ok_serve_start [OF relay_ok_new] unfolding spec_of_start by simp

lemma runs_recv: "runs server_step s outs t \<Longrightarrow> runs server_step s outs (recv_packet d src t)"
  using runs.more [where step = server_step and out = "[]", OF _ server_step.recv] by simp

lemma demo_server_runs:
  "runs server_step (serve_start fresh_relay)
     [(challenge_msg ''lobby'' (replicate 16 7), demo_addr 5000), (regd_ok_msg ''lobby'' (demo_addr 5000), demo_addr 5000)]
     demo_server"
proof -
  let ?s = "serve_start fresh_relay" and ?src = "demo_addr 5000"
  let ?d1 = "reg_wire ''lobby''" and ?d2 = "reg_cookie_wire ''lobby'' (replicate 16 7)"
  define res1 where "res1 = handle_packet (demo_env 0) ?d1 ?src (srv_relay ?s)"
  define res2 where "res2 = handle_packet (demo_env 1000) ?d2 ?src (fst res1)"
  note out = demo_server_run [folded res1_def, folded res2_def]
  have queue: "srv_queue ?s = []" "2 \<le> unat (cfg_pkt_chan_buf (cfg (srv_relay ?s)))"
    by (simp_all add: serve_start_def fresh_relay_config with_config_def config_defaults_def)
  have len: "length ?d1 \<le> READ_BUF_SIZE" "length ?d2 \<le> READ_BUF_SIZE"
    by (simp_all add: READ_BUF_SIZE_def reg_wire_def reg_cookie_wire_def NL_def)
  have rnd: "length (rnd_cookie (demo_env n)) = PENDING_COOKIE_BYTES" for n by (simp add: demo_env_def room_consts)
  have q: "recv_packet ?d2 ?src (recv_packet ?d1 ?src ?s) = ?s\<lparr>srv_queue := [(?d1, ?src), (?d2, ?src)]\<rparr>" (is "_ = ?t")
    using queue len by (simp add: recv_packet_def)
  have "runs server_step ?s [] ?t"
    unfolding q [symmetric] by (intro runs_recv runs.none)
  moreover have "server_step ?t (snd res1) (?t\<lparr>srv_relay := fst res1, srv_queue := [(?d2, ?src)]\<rparr>)" (is "server_step _ _ ?u")
    by (rule server_step.handle [OF _ rnd [of 0]]) (simp_all add: res1_def)
  ultimately have "runs server_step ?s ([] @ snd res1) ?u" by (rule runs.more)
  moreover have "server_step ?u (snd res2) (?u\<lparr>srv_relay := fst res2, srv_queue := []\<rparr>)"
    by (rule server_step.handle [OF _ rnd [of 1000]]) (simp_all add: res2_def)
  ultimately have "runs server_step ?s (([] @ snd res1) @ snd res2) (?u\<lparr>srv_relay := fst res2, srv_queue := []\<rparr>)"
    by (rule runs.more)
  moreover have "?u\<lparr>srv_relay := fst res2, srv_queue := []\<rparr> = demo_server"
    using queue(1) by (simp add: demo_server_def Let_def res1_def res2_def)
  ultimately show ?thesis using out by simp
qed

theorem relay_refines_spec_witness:
  "runs spec_step spec_start
     [(challenge_msg ''lobby'' (replicate 16 7), demo_addr 5000), (regd_ok_msg ''lobby'' (demo_addr 5000), demo_addr 5000)]
     (spec_of (srv_relay demo_server), srv_queue demo_server)
   \<and> members (spec_of (srv_relay demo_server)) ''lobby'' = {demo_addr 5000}"
  using relay_refines_spec [OF demo_server_runs [unfolded fresh_relay_def]] by (simp add: demo_server_clients)

end
