(* ===== verification/Relay_Run.thy ===== *)
theory Relay_Run
  imports Relay_Spec Resolver Logger
begin

text \<open>
  \<^verbatim>\<open>Relay::run\<close> in \<^verbatim>\<open>crates/qvole-relay/src/relay.rs\<close>: opening the sockets with every error, and the life of
  the server from then on to its end. The steps of the read loop, the workers and the clean-up task
  are those of the theory Relay\_Steps; here they can be cancelled and the read loop can fail.
\<close>

section \<open>Start\<close>

text \<open>The errors, if any, of binding, of the switch to non-blocking, of the \<open>i\<close>th clone and of wrapping it.\<close>

record socket_calls =
  sc_bind :: "socket_addr \<Rightarrow> string option"
  sc_nonblocking :: "string option"
  sc_clone :: "nat \<Rightarrow> string option"
  sc_wrap :: "nat \<Rightarrow> string option"

text \<open>A call for each of some numbers up to the first that fails.\<close>

fun first_error :: "(nat \<Rightarrow> string option) \<Rightarrow> nat list \<Rightarrow> string option" where
  "first_error f [] = None"
| "first_error f (i # is) = (case f i of Some e \<Rightarrow> Some e | None \<Rightarrow> first_error f is)"

definition open_sockets ::
    "(string \<Rightarrow> string + socket_addr list) \<Rightarrow> string option \<Rightarrow> socket_calls \<Rightarrow> nat \<Rightarrow> string \<Rightarrow> string option" where
  "open_sockets dns services sc workers addr =
     (case resolve_udp_addr dns services addr of
        Inl e \<Rightarrow> Some (''resolve UDP: '' @ e)
      | Inr sock_addr \<Rightarrow>
     (case sc_bind sc sock_addr of
        Some e \<Rightarrow> Some (''listen UDP: '' @ e)
      | None \<Rightarrow>
     (case sc_nonblocking sc of
        Some e \<Rightarrow> Some (''set nonblocking: '' @ e)
      | None \<Rightarrow>
     (case first_error (sc_clone sc) [0..<workers + 1] of
        Some e \<Rightarrow> Some (''clone UDP socket: '' @ e)
      | None \<Rightarrow> map_option (\<lambda>e. ''wrap UDP socket: '' @ e) (sc_wrap sc 0)))))"

text \<open>
  The workers' sockets are wrapped after the write pool is there. Making a semaphore of more than
  \<open>max_permits\<close> permits panics, which is \<open>None\<close>.
\<close>

definition run_start ::
    "(string \<Rightarrow> string + socket_addr list) \<Rightarrow> string option \<Rightarrow> socket_calls \<Rightarrow> nat \<Rightarrow> string \<Rightarrow> relay \<Rightarrow> (string + server) option" where
  "run_start dns services sc max_permits addr r =
     (let workers = unat (cfg_relay_workers (cfg r)) in
      case open_sockets dns services sc workers addr of
        Some e \<Rightarrow> Some (Inl e)
      | None \<Rightarrow>
          if max_permits < unat (cfg_write_pool_size (cfg r)) then None
          else (case first_error (sc_wrap sc) [1..<workers + 1] of
                  Some e \<Rightarrow> Some (Inl (''wrap UDP socket: '' @ e))
                | None \<Rightarrow> Some (Inr (serve_start r))))"

definition listening_line :: "log_switches \<Rightarrow> string \<Rightarrow> relay \<Rightarrow> string" where
  "listening_line sw addr r =
     ''Listening on UDP '' @ bold sw addr @ '' ('' @ dec_str (unat (cfg_relay_workers (cfg r))) @ '' workers, ''
       @ dec_str (unat (cfg_write_pool_size (cfg r))) @ '' writePool)''"

definition stats_line :: "relay \<Rightarrow> string" where
  "stats_line r =
     ''Stats: '' @ dec_str (unat (total_rooms r)) @ '' rooms, '' @ dec_str (total_clients r) @ '' clients | ''
       @ dec_str (unat (stat_regs r)) @ '' REGs, '' @ dec_str (unat (stat_msgs r)) @ '' MSGs relayed, ''
       @ dec_str (unat (stat_drops r)) @ '' drops''"

section \<open>The running server\<close>

text \<open>The token, the server, what \<^verbatim>\<open>run\<close> returned, if it has, and the datagrams sent.\<close>

record running =
  rn_cancelled :: bool
  rn_server :: server
  rn_result :: "(string + unit) option"
  rn_sent :: "send list"

definition run_begin :: "server \<Rightarrow> running" where
  "run_begin s = \<lparr>rn_cancelled = False, rn_server = s, rn_result = None, rn_sent = []\<rparr>"

text \<open>
  When \<^verbatim>\<open>run\<close> returns, the sending end of the packet channel is dropped: the workers still handle
  what is queued. The clean-up task ends on cancellation, but not on a failed read.
\<close>

inductive run_step :: "running \<Rightarrow> running \<Rightarrow> bool" where
  cancels: "run_step s (s\<lparr>rn_cancelled := True\<rparr>)"
| reads: "rn_result s = None \<Longrightarrow> run_step s (s\<lparr>rn_server := recv_packet dgram src (rn_server s)\<rparr>)"
| read_fails: "rn_result s = None \<Longrightarrow> run_step s (s\<lparr>rn_result := Some (Inl e)\<rparr>)"
| returns: "rn_result s = None \<Longrightarrow> rn_cancelled s \<Longrightarrow> run_step s (s\<lparr>rn_result := Some (Inr ())\<rparr>)"
| works: "srv_queue (rn_server s) = (data, src) # q \<Longrightarrow> length (rnd_cookie h) = PENDING_COOKIE_BYTES \<Longrightarrow>
    handle_packet h data src (srv_relay (rn_server s)) = (r', out) \<Longrightarrow>
    run_step s (s\<lparr>rn_server := (rn_server s)\<lparr>srv_relay := r', srv_queue := q\<rparr>, rn_sent := rn_sent s @ out\<rparr>)"
| rate: "\<not> rn_cancelled s \<Longrightarrow> run_step s (s\<lparr>rn_server := (rn_server s)\<lparr>srv_relay := rate_tick t (srv_relay (rn_server s))\<rparr>\<rparr>)"
| room: "\<not> rn_cancelled s \<Longrightarrow> run_step s (s\<lparr>rn_server := (rn_server s)\<lparr>srv_relay := room_tick t (srv_relay (rn_server s))\<rparr>\<rparr>)"

inductive run_reach :: "running \<Rightarrow> running \<Rightarrow> bool" for s where
  here: "run_reach s s"
| onward: "run_reach s s' \<Longrightarrow> run_step s' s'' \<Longrightarrow> run_reach s s''"

section \<open>Lemmas\<close>

text \<open>A step of a run is one of the server of Relay\_Steps, or leaves the server alone.\<close>

lemma run_step_server:
  "run_step s s' \<Longrightarrow> rn_server s' = rn_server s \<and> rn_sent s' = rn_sent s
     \<or> (\<exists>out. server_step (rn_server s) out (rn_server s') \<and> rn_sent s' = rn_sent s @ out)"
proof (induction rule: run_step.induct)
  case (works s data src q h r' out)
  then show ?case using server_step.handle [of "rn_server s" data src q h r' out] by auto
qed (use server_step.intros(1,3,4) in \<open>fastforce+\<close>)

lemma run_reach_runs: "run_reach (run_begin s0) s \<Longrightarrow> runs server_step s0 (rn_sent s) (rn_server s)"
proof (induction rule: run_reach.induct)
  case (onward s' s'')
  then show ?case using run_step_server [OF onward(2)] runs.more [OF onward.IH] by auto
qed (simp add: run_begin_def runs.none)

lemma runs_reachable: "runs server_step s outs s' \<Longrightarrow> reachable getenv s \<Longrightarrow> reachable getenv s'"
  by (induction rule: runs.induct) (auto intro: reachable.step)

lemma run_start_serves:
  "run_start dns services sc max_permits addr r = Some (Inr s) \<Longrightarrow> s = serve_start r"
  by (auto simp: run_start_def Let_def split: option.splits if_splits)

lemma run_step_result:
  assumes "run_step s s'" "rn_result s = Some x"
  shows "rn_result s' = Some x \<and> length (srv_queue (rn_server s')) \<le> length (srv_queue (rn_server s))"
  using assms by (induction rule: run_step.induct) auto

lemma run_step_ok_cancelled:
  "run_step s s' \<Longrightarrow> (rn_result s = Some (Inr ()) \<longrightarrow> rn_cancelled s) \<Longrightarrow> rn_result s' = Some (Inr ()) \<longrightarrow> rn_cancelled s'"
  by (induction rule: run_step.induct) auto

lemma run_reach_trans: "run_reach s' s'' \<Longrightarrow> run_reach s s' \<Longrightarrow> run_reach s s''"
  by (induction rule: run_reach.induct) (auto intro: run_reach.onward)

text \<open>The workers empty the queue.\<close>

lemma run_drains: "\<exists>s'. run_reach s s' \<and> srv_queue (rn_server s') = [] \<and> rn_result s' = rn_result s"
proof (induction "srv_queue (rn_server s)" arbitrary: s)
  case Nil
  then show ?case by (metis run_reach.here)
next
  case (Cons x q)
  obtain data src where x: "x = (data, src)" by (cases x)
  let ?h = "\<lparr>now = 0, rnd_cookie = replicate PENDING_COOKIE_BYTES 0, writes = (\<lambda>_. (True, SendOk))\<rparr>"
  obtain r' out where r': "handle_packet ?h data src (srv_relay (rn_server s)) = (r', out)" by fastforce
  let ?s = "s\<lparr>rn_server := (rn_server s)\<lparr>srv_relay := r', srv_queue := q\<rparr>, rn_sent := rn_sent s @ out\<rparr>"
  have step: "run_step s ?s" using Cons(2) x r' by (intro run_step.works [where h = ?h]) simp_all
  have "q = srv_queue (rn_server ?s)" by simp
  from Cons(1) [OF this] obtain s' where "run_reach ?s s'" "srv_queue (rn_server s') = []" "rn_result s' = rn_result s" by auto
  with step show ?case by (meson run_reach_trans run_reach.here run_reach.onward)
qed

section \<open>Properties\<close>

text \<open>
  C38. A relay that starts serves until it is told to stop. Every state of a run is a reachable one, so
  all that holds of the tables holds to the end, and the datagrams sent since the start are those of a run of
  the specification of Relay\_Spec; \<^verbatim>\<open>run\<close> returns success only when it was cancelled;
  once it has returned, what it returned stays, no datagram is taken in any more, and the workers can
  still finish what is queued.
\<close>

theorem relay_run_sound:
  assumes "run_start dns services sc max_permits addr (relay_new getenv t) = Some (Inr s0)" "run_reach (run_begin s0) s"
  shows "reachable getenv (rn_server s) \<and> relay_ok (srv_relay (rn_server s))
    \<and> runs spec_step spec_start (rn_sent s) (spec_of (srv_relay (rn_server s)), srv_queue (rn_server s))
    \<and> (rn_result s = Some (Inr ()) \<longrightarrow> rn_cancelled s)
    \<and> (\<forall>x s'. rn_result s = Some x \<and> run_step s s' \<longrightarrow>
         rn_result s' = Some x \<and> length (srv_queue (rn_server s')) \<le> length (srv_queue (rn_server s)))
    \<and> (\<exists>s'. run_reach s s' \<and> srv_queue (rn_server s') = [] \<and> rn_result s' = rn_result s)"
proof -
  have runs: "runs server_step (serve_start (relay_new getenv t)) (rn_sent s) (rn_server s)"
    using run_reach_runs [OF assms(2)] run_start_serves [OF assms(1)] by simp
  have r: "reachable getenv (rn_server s)" using runs_reachable [OF runs reachable.start] .
  have "runs spec_step spec_start (rn_sent s) (spec_of (srv_relay (rn_server s)), srv_queue (rn_server s))"
    using relay_sim.abs_runs [OF runs] relay_ok_serve_start [OF relay_ok_new] unfolding spec_of_start by simp
  moreover have "rn_result s = Some (Inr ()) \<longrightarrow> rn_cancelled s"
    using assms(2) by (induction rule: run_reach.induct) (simp_all add: run_begin_def run_step_ok_cancelled)
  ultimately show ?thesis using r reachable_ok [OF r] run_drains [of s] run_step_result [of s] by blast
qed

definition quiet_sockets :: socket_calls where
  "quiet_sockets = \<lparr>sc_bind = (\<lambda>_. None), sc_nonblocking = None, sc_clone = (\<lambda>_. None), sc_wrap = (\<lambda>_. None)\<rparr>"

lemma first_error_None [simp]: "first_error (\<lambda>_. None) is = None"
  by (induction "is") simp_all

lemma fresh_relay_starts: "run_start (\<lambda>_. Inl []) None quiet_sockets 100000 '':'' fresh_relay = Some (Inr (serve_start fresh_relay))"
proof -
  have "split_host_port '':'' = Inr ([], [])"
    using split_join [of "[]" "[]"] by (simp add: join_host_port_def host_text_def)
  then have "resolve_udp_addr (\<lambda>_. Inl []) None '':'' = Inr (SockV4 0 0)"
    by (simp add: resolve_udp_addr_def empty_port_is_zero)
  then have "open_sockets (\<lambda>_. Inl []) None quiet_sockets n '':'' = None" for n
    by (simp add: open_sockets_def quiet_sockets_def)
  moreover have "unat (cfg_write_pool_size (cfg fresh_relay)) \<le> 100000"
    by (simp add: fresh_relay_config with_config_def config_defaults_def)
  ultimately show ?thesis by (simp add: run_start_def Let_def quiet_sockets_def not_less)
qed

theorem relay_run_sound_witness:
  "\<exists>s0 s'. run_start (\<lambda>_. Inl []) None quiet_sockets 100000 '':'' fresh_relay = Some (Inr s0)
    \<and> run_reach (run_begin s0) s' \<and> srv_queue (rn_server s') = [] \<and> rn_result s' = None"
  using relay_run_sound [OF fresh_relay_starts [unfolded fresh_relay_def] run_reach.here] fresh_relay_starts
  by (auto simp: run_begin_def fresh_relay_def)

end
