(* ===== verification/Program.thy ===== *)
theory Program
  imports Lib Relay_Run
begin

text \<open>
  \<^verbatim>\<open>crates/qvole-bin/src/main.rs\<close> as a program: what a command line prints before it runs, what it
  runs and the exit code. The subcommands, their plans and the exit codes of their results are those
  of the theory Cli; here the plans are carried out by the components. What the components depend on
  is the record \<open>machine\<close>.
\<close>

section \<open>Errors of flags\<close>

text \<open>The text of an error; \<open>debug\<close> is the standard library's rendering of a string with quotes and escapes.\<close>

definition flags_error_text :: "(string \<Rightarrow> string) \<Rightarrow> flags_error \<Rightarrow> string" where
  "flags_error_text debug e =
     (case e of
        Help \<Rightarrow> ''flag: help requested''
      | Bad_syntax s \<Rightarrow> ''bad flag syntax: '' @ s
      | Not_defined n \<Rightarrow> ''flag provided but not defined: -'' @ n
      | Bad_bool v n \<Rightarrow> ''invalid boolean value '' @ debug v @ '' for -'' @ n @ '': strconv.ParseBool: parsing '' @ debug v @ '': invalid syntax''
      | Needs_argument n \<Rightarrow> ''flag needs an argument: -'' @ n)"

text \<open>What is printed before the log line, and the text of that line.\<close>

definition report_flag_error :: "(string \<Rightarrow> string) \<Rightarrow> string \<Rightarrow> flags_error \<Rightarrow> string \<times> string" where
  "report_flag_error debug set_name e =
     (case e of
        Help \<Rightarrow> (flagset_usage set_name (flag_specs_for set_name), ''flag: flag: help requested'')
      | _ \<Rightarrow> ([], ''flag: '' @ flags_error_text debug e))"

fun code_error_text :: "code_error \<Rightarrow> string" where
  "code_error_text (RandIntRange n) = ''randInt: max out of range: '' @ dec_str n"
| "code_error_text (GenerateCode e) = ''generate code: '' @ code_error_text e"

definition code_problem_text :: "code_problem \<Rightarrow> string" where
  "code_problem_text p =
     (case p of
        Too_short n \<Rightarrow> ''code is too short ('' @ dec_str n @ '' chars); minimum is '' @ dec_str MIN_CODE_LEN
      | Too_long \<Rightarrow> ''code exceeds maximum length of '' @ dec_str MAX_CODE_LEN @ '' characters''
      | Not_generated e \<Rightarrow> ''generate code: '' @ code_error_text e)"

section \<open>Running a plan\<close>

record ('p, 'k) machine =
  m_cli :: cli
  m_world :: "('p, 'k) world"
  m_terminal :: bool
  m_opened :: "string + unit"
  m_announced :: "string + unit"
  m_accept :: accept_result
  m_cancelled :: bool
  m_spawn :: "string list \<Rightarrow> string option"
  m_exec_events :: "exec_event list"
  m_lower :: "string \<Rightarrow> string"
  m_max_permits :: nat
  m_lookup :: lookup
  m_config_io :: config_io
  m_outbound :: outbound
  m_session :: "tunnel_session \<Rightarrow> tunnel_error + unit"
  m_relay_run :: "string \<Rightarrow> string + unit"

text \<open>The parameters of the engine are left to the environment.\<close>

definition default_peer_config :: peer_config where
  "default_peer_config = to_peer_config default_options"

definition m_connect :: "('p, 'k) machine \<Rightarrow> string \<Rightarrow> string \<Rightarrow> (connect_error + connected) option" where
  "m_connect m relay code = connect_peer (m_world m) default_peer_config relay code"

text \<open>
  The tunnel: an error before its session, or the session's own result, which is one of the theory
  Tunnel\_Session.
\<close>

definition run_tunnel_app ::
    "('p, 'k) machine \<Rightarrow> string \<Rightarrow> string \<Rightarrow> string list \<Rightarrow> string list \<Rightarrow> tunnel_allow \<Rightarrow> (session_error + tunnel_error + unit) option" where
  "run_tunnel_app m relay code ls rs allow =
     (case validate allow of
        Inl bad \<Rightarrow> Some (Inl (Bad_allow bad))
      | Inr _ \<Rightarrow>
          (case m_connect m relay code of
             None \<Rightarrow> None
           | Some con \<Rightarrow>
               map_option (map_sum id (\<lambda>(s, _). m_session m s))
                 (start_tunnel (w_getenv (m_world m)) (m_lower m) (m_max_permits m) (m_lookup m) (map_sum id con_server con)
                    (m_config_io m) ls rs allow 0 0 (m_outbound m))))"

text \<open>Every error before the session is one of the connection or a text.\<close>

definition tunnel_app_exit :: "session_error + tunnel_error + unit \<Rightarrow> int" where
  "tunnel_app_exit r = (case r of Inl _ \<Rightarrow> 1 | Inr res \<Rightarrow> tunnel_exit res)"

definition relay_app :: "('p, 'k) machine \<Rightarrow> string \<Rightarrow> int option" where
  "relay_app m addr = Some (relay_exit (m_relay_run m addr))"

definition pipe_app :: "('p, 'k) machine \<Rightarrow> string \<Rightarrow> string \<Rightarrow> int option" where
  "pipe_app m relay code =
     map_option (\<lambda>con. pipe_exit (run_pipe_app (map_sum id (\<lambda>_. ()) con) (m_terminal m) (m_opened m) (m_announced m) (m_accept m)))
       (m_connect m relay code)"

definition exec_app :: "('p, 'k) machine \<Rightarrow> string \<Rightarrow> string \<Rightarrow> string \<Rightarrow> bool \<Rightarrow> int option" where
  "exec_app m relay code cmd cmd_mode =
     (case m_connect m relay code of
        None \<Rightarrow> None
      | Some con \<Rightarrow>
          (case (if cmd_mode \<and> con \<in> range Inr
                 then run_exec_command (m_cancelled m) (m_opened m) (m_announced m) (m_spawn m) cmd (m_exec_events m)
                 else Some (Inr ())) of
             None \<Rightarrow> None
           | Some command_result \<Rightarrow>
               Some (exec_exit (m_cancelled m)
                 (snd (run_exec_app (map_sum id (\<lambda>_. ()) con) cmd_mode command_result (run_pipe_mode (m_accept m) (m_cancelled m)))))))"

definition run_plan :: "('p, 'k) machine \<Rightarrow> plan \<Rightarrow> int option" where
  "run_plan m p =
     (case p of
        Exit_plan code \<Rightarrow> Some code
      | Relay_plan addr \<Rightarrow> relay_app m addr
      | Pipe_plan relay code with_stats \<Rightarrow> pipe_app m relay code
      | Exec_plan relay code cmd cmd_mode \<Rightarrow> exec_app m relay code cmd cmd_mode
      | Tunnel_plan relay code ls rs allow \<Rightarrow> map_option tunnel_app_exit (run_tunnel_app m relay code ls rs allow))"

text \<open>\<^verbatim>\<open>main\<close>: the exit code; \<open>None\<close> is a panic or a run that does not end.\<close>

definition qvole_main :: "('p, 'k) machine \<Rightarrow> string list \<Rightarrow> int option" where
  "qvole_main m args =
     (case main_action_for (m_cli m) args of
        Usage \<Rightarrow> Some 0
      | Version \<Rightarrow> Some 0
      | Subcommand None \<Rightarrow> None
      | Subcommand (Some (_, p)) \<Rightarrow> run_plan m p)"

definition version_line :: "string \<Rightarrow> string" where
  "version_line version = ''qvole '' @ version @ '' (protocol v'' @ PROTOCOL_VERSION @ '', rust port)'' @ NL"

section \<open>Lemmas\<close>

lemmas run_plan_defs = run_plan_def relay_app_def pipe_app_def exec_app_def

lemma relay_exit_01: "relay_exit r \<in> {0, 1}"
  by (simp add: relay_exit_def split: sum.splits)

lemma pipe_exit_01: "pipe_exit r \<in> {0, 1}"
  by (auto simp: pipe_exit_def split: sum.splits pipe_error.splits)

lemma tunnel_app_exit_01: "tunnel_app_exit r \<in> {0, 1}"
  by (auto simp: tunnel_app_exit_def tunnel_exit_def split: sum.splits tunnel_error.splits)

lemma exec_exit_cases:
  "exec_exit cancelled r \<notin> {0, 1} \<Longrightarrow>
     r = Inl (Exec_exit (exec_exit cancelled r)) \<and> 0 \<le> exec_exit cancelled r
     \<or> r = Inl Exec_killed \<and> cancelled \<and> exec_exit cancelled r = EXIT_CODE_INTERRUPT"
  by (auto simp: exec_exit_def split: sum.splits exec_error.splits if_splits)

lemma exec_prepare_error:
  "exec_prepare cancelled opened announced spawn command = Inl e \<Longrightarrow> (\<forall>c. e \<noteq> Exec_exit c) \<and> e \<noteq> Exec_killed"
  by (auto simp: exec_prepare_def Let_def split: sum.splits option.splits if_splits)

lemma command_status:
  assumes "run_exec_command cancelled opened announced spawn command es = Some (Inl e)" "(\<exists>c. e = Exec_exit c) \<or> e = Exec_killed"
  shows "(\<exists>args. split_command command = Some args \<and> args \<noteq> [] \<and> spawn args = None)
    \<and> (\<exists>st. first_status es = Some st \<and> status_error st = Some e)"
proof -
  obtain args where p: "exec_prepare cancelled opened announced spawn command = Inr args" and r: "ex_phase (exec_events es) = Returned (Inl e)"
    using assms exec_prepare_error [of cancelled opened announced spawn command e]
    by (auto simp: run_exec_command_def split: sum.splits exec_phase.splits)
  from r exec_events_inv [of es] obtain st out where "first_status es = Some st" "finish (status_error st) out = Inl e"
    by (auto simp: result_inv_def)
  then show ?thesis
    using assms(2) exec_prepare_started [OF p] by (auto simp: finish_def split: sum.splits option.splits)
qed

lemma main_plans:
  assumes "main_action_for c args = Subcommand (Some (hint, p))"
  shows "p = Exit_plan code \<Longrightarrow> code = 1" and "p = Exec_plan relay code' cmd cmd_mode \<Longrightarrow> cmd_mode \<longleftrightarrow> cmd \<noteq> []"
  using assms
  by (auto simp: main_action_for_def run_relay_def run_exec_def run_tunnel_def run_pipe_def Let_def
      split: list.splits if_splits sum.splits option.splits prod.splits)

text \<open>The bridge of exec without a command has no exit code of its own.\<close>

lemma bridge_exit_01: "exec_exit cancelled (snd (run_exec_app con False r b)) \<in> {0, 1}"
  by (cases b) (auto simp: run_exec_app_def exec_exit_def exec_error_of_def split: sum.splits pipe_error.splits)

section \<open>Properties\<close>

text \<open>
  C39. An exit code means what it says. The program ends with 0 or 1, unless it is \<^verbatim>\<open>exec\<close> with a command:
  then the peer was connected, the command line was split and started, and the code is the exit code
  of the command itself, or 130 for a command that was killed by a signal after a local interrupt.
  A command line that is refused gives 1.
\<close>

theorem exit_code_provenance:
  assumes "qvole_main m args = Some code"
  shows "(code \<notin> {0, 1} \<longrightarrow>
      (\<exists>hint relay code' cmd con words st.
        main_action_for (m_cli m) args = Subcommand (Some (hint, Exec_plan relay code' cmd True))
        \<and> m_connect m relay code' = Some (Inr con) \<and> split_command cmd = Some words \<and> words \<noteq> [] \<and> m_spawn m words = None
        \<and> first_status (m_exec_events m) = Some st
        \<and> (st = Exited code \<and> 0 \<le> code \<or> st = Signaled \<and> m_cancelled m \<and> code = EXIT_CODE_INTERRUPT)))
    \<and> (\<forall>hint n. main_action_for (m_cli m) args = Subcommand (Some (hint, Exit_plan n)) \<longrightarrow> code = 1)"
proof (intro conjI impI)
  show "\<forall>hint n. main_action_for (m_cli m) args = Subcommand (Some (hint, Exit_plan n)) \<longrightarrow> code = 1"
    using assms main_plans(1) by (fastforce simp: qvole_main_def run_plan_defs)
  assume code: "code \<notin> {0, 1}"
  with assms obtain hint p where p: "main_action_for (m_cli m) args = Subcommand (Some (hint, p))" "run_plan m p = Some code"
    by (auto simp: qvole_main_def split: main_action.splits option.splits)
  from main_plans(1) [OF p(1)] p(2) code relay_exit_01 pipe_exit_01 tunnel_app_exit_01
  obtain relay code' cmd cmd_mode where e: "p = Exec_plan relay code' cmd cmd_mode"
    by (cases p) (fastforce simp: run_plan_defs)+
  obtain con r where c: "m_connect m relay code' = Some con"
    "(if cmd_mode \<and> con \<in> range Inr then run_exec_command (m_cancelled m) (m_opened m) (m_announced m) (m_spawn m) cmd (m_exec_events m)
       else Some (Inr ())) = Some r"
    and x: "exec_exit (m_cancelled m) (snd (run_exec_app (map_sum id (\<lambda>_. ()) con) cmd_mode r (run_pipe_mode (m_accept m) (m_cancelled m)))) = code"
    using p(2) unfolding e run_plan_defs by (auto split: option.splits)
  have mode: "cmd_mode" using x code bridge_exit_01 by (metis (full_types))
  obtain con' where con: "con = Inr con'" using x code by (cases con) (auto simp: run_exec_app_def exec_exit_def)
  have r: "exec_exit (m_cancelled m) r = code" using x mode con by (simp add: run_exec_app_def)
  from exec_exit_cases [of "m_cancelled m" r] r code obtain err where
    err: "r = Inl err" "err = Exec_exit code \<and> 0 \<le> code \<or> err = Exec_killed \<and> m_cancelled m \<and> code = EXIT_CODE_INTERRUPT" by auto
  from command_status [of "m_cancelled m" "m_opened m" "m_announced m" "m_spawn m" cmd "m_exec_events m" err] c(2) mode con err
  obtain words st where w: "split_command cmd = Some words" "words \<noteq> []" "m_spawn m words = None"
    "first_status (m_exec_events m) = Some st" "status_error st = Some err" by auto
  from w(5) err(2) have "st = Exited code \<and> 0 \<le> code \<or> st = Signaled \<and> m_cancelled m \<and> code = EXIT_CODE_INTERRUPT"
    by (auto simp: status_error_def split: child_status.splits if_splits)
  moreover have "main_action_for (m_cli m) args = Subcommand (Some (hint, Exec_plan relay code' cmd True))"
    "m_connect m relay code' = Some (Inr con')"
    using p(1) e c(1) con mode by simp_all
  ultimately show "\<exists>hint relay code' cmd con words st.
        main_action_for (m_cli m) args = Subcommand (Some (hint, Exec_plan relay code' cmd True))
        \<and> m_connect m relay code' = Some (Inr con) \<and> split_command cmd = Some words \<and> words \<noteq> [] \<and> m_spawn m words = None
        \<and> first_status (m_exec_events m) = Some st
        \<and> (st = Exited code \<and> 0 \<le> code \<or> st = Signaled \<and> m_cancelled m \<and> code = EXIT_CODE_INTERRUPT)"
    using w by blast
qed

text \<open>A command that exits with 3, run for a peer that connects.\<close>

definition demo_machine :: "turn_input list \<Rightarrow> (zn, nat \<times> nat) machine" where
  "demo_machine ts = \<lparr>m_cli = \<lparr>cli_env = (\<lambda>_. None), cli_words = [], cli_draws = (\<lambda>_. 0)\<rparr>, m_world = demo_world ts, m_terminal = False,
     m_opened = Inr (), m_announced = Inr (), m_accept = Accepted, m_cancelled = False, m_spawn = (\<lambda>_. None),
     m_exec_events = [Stdin_copy_ended, Child_ended (Exited 3), Stdout_ended (Inr ())],
     m_lower = id, m_max_permits = 100000, m_lookup = (\<lambda>_. []), m_config_io = web_io False [],
     m_outbound = fst two_out, m_session = (\<lambda>_. Inr ()), m_relay_run = (\<lambda>_. Inr ())\<rparr>"

definition demo_args :: "string list" where
  "demo_args = [''exec'', ''--code'', ''codecode'', ''--relay'', '':'', ''--cmd'', ''true'']"

lemma demo_args_plan: "main_action_for (m_cli (demo_machine ts)) demo_args = Subcommand (Some ([], Exec_plan '':'' ''codecode'' ''true'' True))"
proof -
  have "m_cli (demo_machine ts) = \<lparr>cli_env = (\<lambda>_. None), cli_words = [], cli_draws = (\<lambda>_. 0)\<rparr>" by (simp add: demo_machine_def)
  moreover have "main_action_for \<lparr>cli_env = (\<lambda>_. None), cli_words = [], cli_draws = (\<lambda>_. 0)\<rparr> demo_args
      = Subcommand (Some ([], Exec_plan '':'' ''codecode'' ''true'' True))"
    by code_simp
  ultimately show ?thesis by simp
qed

theorem exit_code_provenance_witness:
  "\<exists>ts con. qvole_main (demo_machine ts) demo_args = Some 3 \<and> m_connect (demo_machine ts) '':'' ''codecode'' = Some (Inr con)
    \<and> first_status (m_exec_events (demo_machine ts)) = Some (Exited 3)"
proof -
  obtain ts con probes where con: "connect_with (demo_world ts) demo_cfg '':'' ''codecode'' = Some (Inr con, probes)"
    using demo_world_connects by blast
  have cfg: "default_peer_config = demo_cfg"
    by (simp add: default_peer_config_def to_peer_config_def default_options_def demo_cfg_def opt_dur_def opt_num_def)
  have c: "m_connect (demo_machine ts) '':'' ''codecode'' = Some (Inr con)"
    using con by (simp add: m_connect_def cfg connect_peer_def connect_inner_def demo_machine_def)
  have "run_exec_command False (Inr ()) (Inr ()) (\<lambda>_. None) ''true'' [Stdin_copy_ended, Child_ended (Exited 3), Stdout_ended (Inr ())]
      = Some (Inl (Exec_exit 3))"
    by code_simp
  then have main: "qvole_main (demo_machine ts) demo_args = Some 3"
    unfolding qvole_main_def demo_args_plan
    by (simp add: run_plan_defs c) (simp add: demo_machine_def run_exec_app_def exec_exit_def)
  from exit_code_provenance [OF main] have "first_status (m_exec_events (demo_machine ts)) = Some (Exited 3)"
    by (auto simp: EXIT_CODE_INTERRUPT_def)
  with main c show ?thesis by blast
qed

end
