(* ===== verification/Readers.thy ===== *)
theory Readers
  imports Copy
begin

text \<open>
  The two readers of \<^verbatim>\<open>crates/qvole-app\<close>: \<^verbatim>\<open>IdleReader\<close> of \<^verbatim>\<open>tunnel.rs\<close>, which fails when a tunnel has
  been silent for too long, and \<^verbatim>\<open>StdinReader\<close> of \<^verbatim>\<open>stdin_reader.rs\<close>, which gets its bytes from a
  thread over a channel. A poll gives \<open>Pending\<close> or what was read, where no bytes are the end.
\<close>

datatype poll_result = Pending | Ready "io_error + byte list"

section \<open>The idle deadline\<close>

text \<open>
  The deadline is shared by the two readers of a tunnel, so the polls of both are one sequence. The
  result of the inner reader is given as it would be; it is not asked when the deadline has passed.
\<close>

fun has_data :: "poll_result \<Rightarrow> bool" where
  "has_data (Ready (Inr bs)) = (bs \<noteq> [])"
| "has_data _ = False"

definition idle_poll :: "duration \<Rightarrow> instant \<Rightarrow> poll_result \<Rightarrow> instant option \<Rightarrow> poll_result \<times> instant option" where
  "idle_poll idle now inner deadline =
     (if (case deadline of Some d \<Rightarrow> d \<le> now | None \<Rightarrow> False)
      then (Ready (Inl (Plain Kind_timed_out)), deadline)
      else (inner, if has_data inner then Some (now + idle) else deadline))"

fun idle_run :: "duration \<Rightarrow> instant option \<Rightarrow> (instant \<times> poll_result) list \<Rightarrow> poll_result list" where
  "idle_run idle deadline [] = []"
| "idle_run idle deadline ((now, inner) # ps) =
     (let (r, deadline) = idle_poll idle now inner deadline in r # idle_run idle deadline ps)"

text \<open>The reads of \<^verbatim>\<open>tunnel_copy\<close>, started at \<open>t0\<close>; without an idle time the readers are not wrapped.\<close>

definition tunnel_reads :: "duration \<Rightarrow> instant \<Rightarrow> (instant \<times> poll_result) list \<Rightarrow> poll_result list" where
  "tunnel_reads idle t0 ps = (if idle \<le> 0 then map snd ps else idle_run idle (Some (t0 + idle)) ps)"

text \<open>The time of the last data, from \<open>t0\<close> on.\<close>

fun last_data :: "instant \<Rightarrow> (instant \<times> poll_result) list \<Rightarrow> instant" where
  "last_data t [] = t"
| "last_data t ((now, r) # ps) = last_data (if has_data r then now else t) ps"

text \<open>Every poll comes within the idle time of the data before it.\<close>

fun active :: "duration \<Rightarrow> instant \<Rightarrow> (instant \<times> poll_result) list \<Rightarrow> bool" where
  "active idle t [] = True"
| "active idle t ((now, r) # ps) = (now < t + idle \<and> active idle (if has_data r then now else t) ps)"

lemma idle_run_active_append:
  "active idle t ps \<Longrightarrow> idle_run idle (Some (t + idle)) (ps @ qs) = map snd ps @ idle_run idle (Some (last_data t ps + idle)) qs"
  by (induction idle t ps rule: active.induct) (auto simp: idle_poll_def)

lemma idle_run_expired:
  "\<forall>p \<in> set ps. d \<le> fst p \<Longrightarrow> idle_run idle (Some d) ps = replicate (length ps) (Ready (Inl (Plain Kind_timed_out)))"
  by (induction ps) (auto simp: idle_poll_def)

section \<open>Standard input\<close>

text \<open>
  The thread: what it sends into the channel for the reads it makes, up to the end, an error, or
  the first send that fails because the receiver is gone.
\<close>

fun stdin_thread :: "(io_error + byte list) list \<Rightarrow> (io_error + byte list) list" where
  "stdin_thread [] = []"
| "stdin_thread (Inr bs # rs) = (if bs = [] then [Inr []] else Inr bs # stdin_thread rs)"
| "stdin_thread (Inl e # rs) = [Inl e]"

record stdin_reader =
  sr_pending :: "byte list option"
  eof :: bool

datatype recv_result = Received "io_error + byte list" | Channel_closed | Nothing_yet

definition deliver :: "nat \<Rightarrow> byte list \<Rightarrow> byte list \<times> byte list option" where
  "deliver remaining bs = (let n = min (length bs) remaining in (take n bs, if n < length bs then Some (drop n bs) else None))"

definition recv_chunk :: "nat \<Rightarrow> recv_result \<Rightarrow> stdin_reader \<Rightarrow> poll_result \<times> stdin_reader" where
  "recv_chunk remaining recv s =
     (if eof s then (Ready (Inr []), s)
      else case recv of
             Received (Inr chunk) \<Rightarrow>
               if chunk = [] then (Ready (Inr []), s\<lparr>eof := True\<rparr>)
               else let (now, left) = deliver remaining chunk
                    in (Ready (Inr now), if left = None then s else s\<lparr>sr_pending := left\<rparr>)
           | Received (Inl e) \<Rightarrow> (Ready (Inl e), s)
           | Channel_closed \<Rightarrow> (Ready (Inr []), s\<lparr>eof := True\<rparr>)
           | Nothing_yet \<Rightarrow> (Pending, s))"

text \<open>Whether the poll asks the channel is the third component.\<close>

definition stdin_poll :: "nat \<Rightarrow> recv_result \<Rightarrow> stdin_reader \<Rightarrow> poll_result \<times> stdin_reader \<times> bool" where
  "stdin_poll remaining recv s =
     (case sr_pending s of
        Some p \<Rightarrow>
          if p \<noteq> [] then (let (now, left) = deliver remaining p in (Ready (Inr now), s\<lparr>sr_pending := left\<rparr>, False))
          else (let (r, s') = recv_chunk remaining recv (s\<lparr>sr_pending := None\<rparr>) in (r, s', \<not> eof s))
      | None \<Rightarrow> (let (r, s') = recv_chunk remaining recv s in (r, s', \<not> eof s)))"

text \<open>
  Reading with buffers of given sizes from a channel that holds \<open>chunks\<close> and is then closed; each
  poll that asks the channel takes one chunk. The result is what was read, in order.
\<close>

fun stdin_reads :: "nat list \<Rightarrow> (io_error + byte list) list \<Rightarrow> stdin_reader \<Rightarrow> poll_result list" where
  "stdin_reads [] chunks s = []"
| "stdin_reads (n # ns) chunks s =
     (let (r, s', asked) = stdin_poll n (case chunks of [] \<Rightarrow> Channel_closed | c # _ \<Rightarrow> Received c) s
      in r # stdin_reads ns (if asked then tl chunks else chunks) s')"

fun poll_bytes :: "poll_result \<Rightarrow> byte list" where
  "poll_bytes (Ready (Inr bs)) = bs"
| "poll_bytes _ = []"

definition read_bytes :: "poll_result list \<Rightarrow> byte list" where
  "read_bytes rs = concat (map poll_bytes rs)"

fun chunk_bytes :: "(io_error + byte list) list \<Rightarrow> byte list" where
  "chunk_bytes [] = []"
| "chunk_bytes (Inr bs # cs) = (if bs = [] then [] else bs @ chunk_bytes cs)"
| "chunk_bytes (Inl e # cs) = []"

definition left_over :: "stdin_reader \<Rightarrow> byte list" where
  "left_over s = (case sr_pending s of Some p \<Rightarrow> p | None \<Rightarrow> [])"

lemma deliver_split: "deliver n bs = (now, left) \<Longrightarrow> bs = now @ (case left of Some l \<Rightarrow> l | None \<Rightarrow> [])"
  by (auto simp: deliver_def Let_def split: if_splits)

lemma deliver_None: "deliver n bs = (now, None) \<Longrightarrow> now = bs"
  by (auto simp: deliver_def Let_def split: if_splits)

lemma chunk_bytes_thread: "chunk_bytes (stdin_thread rs) = chunk_bytes rs"
  by (induction rs rule: stdin_thread.induct) auto

lemma deliver_pos: "0 < n \<Longrightarrow> bs \<noteq> [] \<Longrightarrow> deliver n bs = (now, left) \<Longrightarrow> now \<noteq> []"
  by (cases n; cases bs) (auto simp: deliver_def Let_def min_def split: if_splits)

text \<open>What is still to come: the bytes kept and those the channel holds.\<close>

definition to_come :: "(io_error + byte list) list \<Rightarrow> stdin_reader \<Rightarrow> byte list" where
  "to_come chunks s = left_over s @ (if eof s then [] else chunk_bytes chunks)"

definition next_recv :: "(io_error + byte list) list \<Rightarrow> recv_result" where
  "next_recv chunks = (case chunks of [] \<Rightarrow> Channel_closed | c # _ \<Rightarrow> Received c)"

lemma thread_cases:
  obtains "stdin_thread rs = []" | "stdin_thread rs = [Inr []]" | e where "stdin_thread rs = [Inl e]"
  | bs rs' where "bs \<noteq> []" "stdin_thread rs = Inr bs # stdin_thread rs'"
proof (cases rs rule: stdin_thread.cases)
  case (2 bs rs')
  then show thesis using that by (cases "bs = []") auto
qed (use that in auto)

lemma recv_chunk_step:
  assumes "recv_chunk n (next_recv (stdin_thread rs)) s = (r, s')" "sr_pending s = None"
  shows "\<exists>rs'. stdin_thread rs' = (if eof s then stdin_thread rs else tl (stdin_thread rs))
    \<and> to_come (stdin_thread rs) s = poll_bytes r @ to_come (stdin_thread rs') s'
    \<and> (0 < n \<and> to_come (stdin_thread rs) s \<noteq> [] \<longrightarrow> poll_bytes r \<noteq> [])"
proof (cases "eof s")
  case True
  with assms show ?thesis by (auto simp: recv_chunk_def to_come_def left_over_def)
next
  case False
  show ?thesis
  proof (cases rs rule: thread_cases)
    case (4 bs rs')
    obtain now left where d: "deliver n bs = (now, left)" by fastforce
    with assms False 4 have r: "r = Ready (Inr now)" and s': "s' = (if left = None then s else s\<lparr>sr_pending := left\<rparr>)"
      by (auto simp: recv_chunk_def next_recv_def)
    have "to_come (stdin_thread rs) s = now @ to_come (stdin_thread rs') s'"
      using deliver_split [OF d] 4 False assms(2) by (auto simp: to_come_def left_over_def s' split: option.splits)
    moreover have "0 < n \<longrightarrow> now \<noteq> []" using deliver_pos [OF _ 4(1) d] by blast
    ultimately show ?thesis using 4 False r by (intro exI [of _ rs']) simp
  qed (use assms False in \<open>auto simp: recv_chunk_def next_recv_def to_come_def left_over_def intro!: exI [of _ "[]"]\<close>)
qed

lemma stdin_poll_step:
  assumes "stdin_poll n (next_recv (stdin_thread rs)) s = (r, s', asked)"
  shows "\<exists>rs'. stdin_thread rs' = (if asked then tl (stdin_thread rs) else stdin_thread rs)
    \<and> to_come (stdin_thread rs) s = poll_bytes r @ to_come (stdin_thread rs') s'
    \<and> (0 < n \<and> to_come (stdin_thread rs) s \<noteq> [] \<longrightarrow> poll_bytes r \<noteq> [])"
proof (cases "sr_pending s = None \<or> sr_pending s = Some []")
  case True
  obtain r' s1 where rc: "recv_chunk n (next_recv (stdin_thread rs)) (s\<lparr>sr_pending := None\<rparr>) = (r', s1)" by fastforce
  have same: "recv_chunk n x s = recv_chunk n x (s\<lparr>sr_pending := None\<rparr>)" if "sr_pending s = None" for x
    using that by (cases s) simp
  from True have "stdin_poll n (next_recv (stdin_thread rs)) s =
      (let (r, s') = recv_chunk n (next_recv (stdin_thread rs)) (s\<lparr>sr_pending := None\<rparr>) in (r, s', \<not> eof s))"
  proof
    assume "sr_pending s = None"
    then show ?thesis unfolding stdin_poll_def same [OF \<open>sr_pending s = None\<close>] by simp
  qed (simp add: stdin_poll_def)
  with rc assms have "r' = r" "s1 = s'" "asked = (\<not> eof s)" by auto
  moreover have "to_come (stdin_thread rs) (s\<lparr>sr_pending := None\<rparr>) = to_come (stdin_thread rs) s"
    using True by (auto simp: to_come_def left_over_def)
  ultimately show ?thesis using recv_chunk_step [OF rc] by (cases "eof s") auto
next
  case False
  then obtain p where p: "sr_pending s = Some p" "p \<noteq> []" by auto
  obtain now left where d: "deliver n p = (now, left)" by fastforce
  with p assms have "r = Ready (Inr now)" "s' = s\<lparr>sr_pending := left\<rparr>" "\<not> asked" by (auto simp: stdin_poll_def)
  then show ?thesis
    using deliver_split [OF d] deliver_pos [OF _ p(2) d] p(1)
    by (intro exI [of _ rs]) (auto simp: to_come_def left_over_def split: option.splits)
qed

lemma stdin_reads_exact:
  "\<forall>n \<in> set ns. 0 < n \<Longrightarrow>
   \<exists>rest. to_come (stdin_thread rs) s = read_bytes (stdin_reads ns (stdin_thread rs) s) @ rest
     \<and> (rest = [] \<or> length ns \<le> length (read_bytes (stdin_reads ns (stdin_thread rs) s)))"
proof (induction ns arbitrary: rs s)
  case (Cons n ns)
  obtain r s' asked where p: "stdin_poll n (next_recv (stdin_thread rs)) s = (r, s', asked)" by (metis prod_cases3)
  obtain rs' where rs': "stdin_thread rs' = (if asked then tl (stdin_thread rs) else stdin_thread rs)"
    "to_come (stdin_thread rs) s = poll_bytes r @ to_come (stdin_thread rs') s'"
    "0 < n \<and> to_come (stdin_thread rs) s \<noteq> [] \<longrightarrow> poll_bytes r \<noteq> []"
    using stdin_poll_step [OF p] by blast
  from Cons.IH [of rs' s'] Cons.prems obtain rest where
    ih: "to_come (stdin_thread rs') s' = read_bytes (stdin_reads ns (stdin_thread rs') s') @ rest"
      "rest = [] \<or> length ns \<le> length (read_bytes (stdin_reads ns (stdin_thread rs') s'))" by auto
  have eq: "read_bytes (stdin_reads (n # ns) (stdin_thread rs) s) = poll_bytes r @ read_bytes (stdin_reads ns (stdin_thread rs') s')"
    using p by (simp add: next_recv_def read_bytes_def rs'(1))
  have "rest \<noteq> [] \<Longrightarrow> poll_bytes r \<noteq> []" using rs'(2,3) ih(1) Cons.prems by auto
  then have "rest \<noteq> [] \<Longrightarrow> Suc (length ns) \<le> length (poll_bytes r) + length (read_bytes (stdin_reads ns (stdin_thread rs') s'))"
    using ih(2) by (cases "poll_bytes r") auto
  then show ?case unfolding eq using rs'(2) ih(1) by (intro exI [of _ rest]) auto
qed (simp add: read_bytes_def)

section \<open>Properties\<close>

text \<open>
  C22. The idle reaper is exact. As long as every poll of either side comes within the idle time of
  the last data of either side, the readers change nothing; the first poll after a silence of the
  idle time fails with a timeout, and so do all polls after it. Without an idle time nothing is
  ever changed.
\<close>

theorem idle_reaper_exact:
  assumes "0 < idle" "active idle t0 ps" "sorted (map fst qs)"
    and "qs \<noteq> []" "last_data t0 ps + idle \<le> fst (hd qs)"
  shows "tunnel_reads idle t0 (ps @ qs) = map snd ps @ replicate (length qs) (Ready (Inl (Plain Kind_timed_out)))
    \<and> tunnel_reads 0 t0 (ps @ qs) = map snd (ps @ qs)"
proof -
  have "\<forall>q \<in> set qs. last_data t0 ps + idle \<le> fst q"
    using assms(3-5) by (cases qs) (auto intro: order_trans)
  then show ?thesis
    using assms(1,2) by (simp add: tunnel_reads_def idle_run_active_append idle_run_expired)
qed

theorem idle_reaper_exact_witness:
  "tunnel_reads 10 0 ([(5, Ready (Inr [1])), (14, Pending)] @ [(15, Ready (Inr [2])), (16, Pending)])
     = [Ready (Inr [1]), Pending, Ready (Inl (Plain Kind_timed_out)), Ready (Inl (Plain Kind_timed_out))]"
  using idle_reaper_exact [of 10 0 "[(5, Ready (Inr [1])), (14, Pending)]" "[(15, Ready (Inr [2])), (16, Pending)]"]
  by (simp add: numeral_2_eq_2)

text \<open>
  C23. Reading standard input through the thread and the channel, with buffers of any sizes, gives
  the bytes of the input up to its end or its first error, in order, each once; as many polls as
  there are bytes are enough to get all of them.
\<close>

theorem stdin_reader_exact:
  fixes rs :: "(io_error + byte list) list"
  assumes "\<forall>n \<in> set ns. 0 < n"
  defines "out \<equiv> read_bytes (stdin_reads ns (stdin_thread rs) \<lparr>sr_pending = None, eof = False\<rparr>)"
  shows "prefix out (chunk_bytes rs) \<and> (length (chunk_bytes rs) \<le> length ns \<longrightarrow> out = chunk_bytes rs)"
proof -
  have start: "to_come (stdin_thread rs) \<lparr>sr_pending = None, eof = False\<rparr> = chunk_bytes rs"
    by (simp add: to_come_def left_over_def chunk_bytes_thread)
  from stdin_reads_exact [OF assms(1), of rs "\<lparr>sr_pending = None, eof = False\<rparr>"] obtain rest where
    "chunk_bytes rs = out @ rest" "rest = [] \<or> length ns \<le> length out" unfolding start out_def by blast
  then show ?thesis by (cases rest) auto
qed

theorem stdin_reader_exact_witness:
  "read_bytes (stdin_reads [2, 1, 5, 4] (stdin_thread [Inr [1, 2, 3], Inr [4], Inr []]) \<lparr>sr_pending = None, eof = False\<rparr>) = [1, 2, 3, 4]"
  using stdin_reader_exact [of "[2, 1, 5, 4]" "[Inr [1, 2, 3], Inr [4], Inr []]"] by simp

end
