(* ===== verification/Spec2Isabelle.thy ===== *)
theory Spec2Isabelle
  imports Rendezvous Program Readers
begin

text \<open>
  \<^bold>\<open>qvole-rs: a verification development.\<close> qvole connects two machines behind NATs. Two peers that share
  a short code register with a relay under a room name derived from it, run SPAKE2 through the relay,
  punch a hole between their UDP sockets, and open a QUIC connection whose certificates are pinned to
  the fingerprints the exchange authenticated. Over the connection they pipe standard input and
  output, run a command for each other, or forward TCP ports.

  \<^bold>\<open>The parts and their theories.\<close> Paths are below \<^verbatim>\<open>src/crates\<close>.

  \<^item> Shared: \<open>Prelude\<close> (machine integers, text, times), \<open>Hash_Map\<close> (hash maps, sharded and nested
    maps, counters), \<open>Limiter\<close> (the contract of the rate limiters), \<open>Net\<close>, \<open>Net_Parse\<close>, \<open>Text\<close> (what
    the sources use of the standard library for addresses and text), \<open>Hex\<close>
    (\<^verbatim>\<open>qvole-protocol/src/hex.rs\<close>, the copies in \<^verbatim>\<open>relay.rs\<close> and \<^verbatim>\<open>code.rs\<close>), \<open>Env\<close>
    (\<^verbatim>\<open>qvole-protocol/src/env.rs\<close>).
  \<^item> The relay, \<^verbatim>\<open>qvole-relay/src\<close>: \<open>Room\<close> is \<^verbatim>\<open>room.rs\<close>; \<open>Relay_State\<close> and \<open>Relay\<close> are \<^verbatim>\<open>relay.rs\<close>,
    tables and then handlers; \<open>Relay_Steps\<close> is the serving relay as a step relation, \<open>Relay_Run\<close> its
    \<^verbatim>\<open>run\<close> from the sockets to the end. \<open>Relay_Inv\<close>, \<open>Relay_Waiting\<close> and \<open>Relay_Safe\<close> show the invariant for
    every operation, \<open>Relay_Auth\<close> and \<open>Relay_Out\<close> who is admitted and what is sent to whom, \<open>Relay_Live\<close>
    and \<open>Relay_Join\<close> what one and what two well-behaved clients get; \<open>Relay_Spec\<close> is an abstract relay of
    members and offered cookies, which the server refines.
  \<^item> The key exchange: \<open>Spake2\<close> is \<^verbatim>\<open>qvole-spake2/src/spake2.rs\<close>, \<open>Code_Gen\<close> is \<^verbatim>\<open>code.rs\<close> and
    \<^verbatim>\<open>words.rs\<close>; \<open>Exchange\<close> is \<^verbatim>\<open>qvole-protocol/src/exchange.rs\<close>. \<open>Spake2_Agree\<close>, \<open>Exchange_Agree\<close> and
    \<open>Exchange_Loop\<close> hold their theorems, \<open>Spake2_Model\<close> the concrete group that the witnesses use,
    \<open>Handshake\<close> a peer's loop against the relay's answers, and \<open>Rendezvous\<close> two peers and the relay
    between them.
  \<^item> The connection: \<open>Resolver\<close>, \<open>Punch\<close> and \<open>Connect\<close> are \<^verbatim>\<open>qvole-protocol/src/resolver.rs\<close>, \<^verbatim>\<open>punch.rs\<close> and
    \<^verbatim>\<open>connect.rs\<close>; \<open>Transport\<close> is \<^verbatim>\<open>transport.rs\<close> and \<^verbatim>\<open>cert.rs\<close>; \<open>Logger\<close> is \<^verbatim>\<open>logger.rs\<close> and
    \<^verbatim>\<open>role.rs\<close>, \<open>Stats\<close> is \<^verbatim>\<open>stats.rs\<close>.
  \<^item> The application, \<^verbatim>\<open>qvole-app/src\<close>: \<open>Tunnel_Request\<close> and \<open>Tunnel_Allow\<close> are
    \<^verbatim>\<open>tunnel_request.rs\<close> and \<^verbatim>\<open>tunnel_allow.rs\<close>; \<^verbatim>\<open>tunnel.rs\<close> is \<open>Tunnel\<close> (configuration, start, one connection),
    \<open>Tunnel_Guard\<close> (the limits) and \<open>Tunnel_Session\<close> (the tasks of a running session); \<open>Copy\<close> is \<^verbatim>\<open>copy.rs\<close>, \<^verbatim>\<open>disconnect.rs\<close>,
    \<^verbatim>\<open>pool.rs\<close> and the stdin bridge of \<^verbatim>\<open>pipe.rs\<close>; \<open>Readers\<close> is \<^verbatim>\<open>stdin_reader.rs\<close> and the idle reader;
    \<open>Exec\<close> is \<^verbatim>\<open>exec.rs\<close>, \<open>Pipe\<close> is \<^verbatim>\<open>pipe.rs\<close>, \<open>Stream_Conn\<close> is \<^verbatim>\<open>stream_conn.rs\<close>, \<open>Lib\<close> is \<^verbatim>\<open>options.rs\<close> and
    \<^verbatim>\<open>lib.rs\<close>.
  \<^item> The command line, \<^verbatim>\<open>qvole-bin/src/main.rs\<close>: \<open>Cli\<close> is what a command line means, \<open>Program\<close> the program
    that carries it out with the components and its exit code.

  \<^bold>\<open>How code becomes definitions.\<close> A struct is a record, an enum a datatype, a function a definition of
  the same name that returns the new state beside its result. What the surroundings decide is an
  argument: the clock, random bytes, cookies, the results of socket calls, the order in which a
  \<^verbatim>\<open>select!\<close> sees its events. Datagrams and streams written are part of the result. Errors are
  values of sum types; \<open>None\<close> at the outside is a panic or a wait without end. Atomic counters are
  64-bit words, so that an underflow would show. A hash map is an association list with distinct keys
  in an arbitrary order. A handler of the relay runs without interruption and reads the clock once;
  handlers, timers and the read loop interleave in any order.

  Code of other crates is a parameter: the record \<open>crypto\<close> (curve, hash, key derivation, MAC,
  cipher), \<open>pki\<close> and \<open>tls_library\<close> (key generation, signatures, the checks of the TLS library), the ticker of the
  runtime, the name service, the services file, \<^verbatim>\<open>str::to_lowercase\<close>, the word list. What is relied on
  is stated in \<open>group_ok\<close>, \<open>gcm_ok\<close> and \<open>interval_documented\<close>; \<open>Spake2_Model\<close> satisfies the first two and
  \<open>Punch\<close> gives a ticker for the third. The records \<open>world\<close> (\<open>Connect\<close>) and \<open>machine\<close> (\<open>Program\<close>) collect what
  a whole run depends on.

  \<^bold>\<open>Interfaces.\<close> \<open>keyed_store\<close>, \<open>counter\<close>, \<open>sharding\<close> and \<open>tallied_store\<close> (\<open>Hash_Map\<close>) are interpreted on
  the plain maps, on the sixteen shards and on the nested tables of the relay; \<open>window_limiter\<close>
  (\<open>Limiter\<close>) on the message limiter, the registration limiter and the inbound limiter of the exchange
  loop; \<open>permit_pool\<close> (\<open>Tunnel_Guard\<close>) on the outbound guard and on the acceptor's semaphore; \<open>two_way\<close>
  (\<open>Copy\<close>) on the bidirectional copy and on the stdin bridge; \<open>courier\<close> (\<open>Relay_Join\<close>), what two peers need
  of the relay between them, on the relay's dispatch; \<open>simulation\<close> (\<open>Relay_Spec\<close>) on the server and its
  specification.

  \<^bold>\<open>What is shown.\<close>

  \<^item> Relay: in every reachable state all counters are exact and all caps hold, clients are linked to
    their rooms (this theory, from \<open>Relay_Safe\<close>); admission needs the unexpired cookie sent to the
    same address; every datagram sent is an answer to its source or a message between clients of a
    room; registration and delivery succeed for a well-behaved client; rates are bounded; sweeps
    remove exactly what is stale. Every run of the server sends what a run of the abstract relay sends
    (\<open>Relay_Spec\<close>, \<open>Relay_Run\<close>).
  \<^item> Rendezvous: with one peer waiting in its room, a second peer with the same code registers through
    the relay, and both exchanges finish with each other's address and fingerprint.
  \<^item> Exchange: two peers with the same code that hear each other finish with each other's
    fingerprint, opposite roles and equal keys; a run that finishes has verified a confirmation under
    keys derived from the payload whose fingerprint it returns; the tables of the loop stay bounded.
  \<^item> Connection: it is opened only to the IP address the exchange returned and only with a
    certificate of the fingerprint it returned, whose key signed the handshake.
  \<^item> Tunnels: the request lists of both sides agree after the exchange; a listener on one side meets
    the dial on the other; exactly the permitted ports are opened and only permitted targets
    dialled; the command printed for the peer permits what it was printed for; a session ends once one
    of its tasks has ended or it is cancelled, with the error that occurred.
  \<^item> Copies: no byte is lost, repeated or reordered and each side is shut down as the code means to;
    a command's exit code reaches the process, and every exit code but 0 and 1 is one.

  \<^bold>\<open>Bounds and termination.\<close> Loops over data are structural. The reader of a request list stops after
  \<open>MAX_TUNNEL_REQUESTS\<close> lines, which is its fuel. Rejection sampling (\<open>rand_loop\<close>), hashing to the
  curve (\<open>hash_loop\<close>, \<open>password_loop\<close>) may run for ever in principle and are partial functions; the
  theorems say for which random sources they return. Loops that wait for events are folds over the
  events.

  \<^bold>\<open>Not modelled.\<close> The inside of sockets, of the QUIC and TLS libraries, of processes, signals and the
  asynchronous runtime belongs to the system and to other crates; what a call returns is an argument.
  Two handlers of the relay that run at the same time on different workers are taken one after the
  other. The log lines of the exchange, of the tunnel and of drops are left out, as are the accessors
  and the pass-through reads, writes and flushes of the stream wrappers, the long usage text, the
  test-util feature and the tests.
\<close>

section \<open>The relay in every reachable state\<close>

lemma length_concat_sh_sum: "length (concat shs) = sh_sum (\<lambda>_ _. 1) shs"
  by (induction shs) (simp_all add: sh_sum_def hm_len_sum)

definition all_waiting :: "relay \<Rightarrow> (socket_addr \<times> pending_reg) list" where
  "all_waiting r = concat (map snd (concat (pending_shards r)))"

lemma length_all_waiting: "length (all_waiting r) = ns_sum (\<lambda>_ _. 1) (pending_shards r)"
proof -
  have "length (concat (map snd g)) = hm_sum (ns_row (\<lambda>_ _. 1)) g" for g :: "(string, (socket_addr, pending_reg) hashmap) hashmap"
    by (induction g) (auto simp: ns_row_def hm_len_sum)
  then have "length (concat (map snd (concat ps))) = ns_sum (\<lambda>_ _. 1) ps" for ps :: "(string, socket_addr, pending_reg) nested"
    by (induction ps) (simp_all add: ns_sum_def sh_sum_def)
  then show ?thesis by (simp add: all_waiting_def)
qed

lemma count_all_waiting:
  "length (filter (\<lambda>(src, _). ip_key src = ip) (all_waiting r))
     = ns_sum (tally (\<lambda>(_, src). ip_key src) ip) (pending_shards r)"
proof -
  have row: "length (filter (\<lambda>(src, _). ip_key src = ip) m) = ns_row (tally (\<lambda>(_, src). ip_key src) ip) room m"
    for room and m :: "(socket_addr, pending_reg) hashmap"
    by (induction m) (auto simp: ns_row_def tally_def)
  have "length (filter (\<lambda>(src, _). ip_key src = ip) (concat (map snd g)))
      = hm_sum (ns_row (tally (\<lambda>(_, src). ip_key src) ip)) g" for g :: "(string, (socket_addr, pending_reg) hashmap) hashmap"
    by (induction g) (auto simp: row [symmetric])
  then have "length (filter (\<lambda>(src, _). ip_key src = ip) (concat (map snd (concat ps))))
      = ns_sum (tally (\<lambda>(_, src). ip_key src) ip) ps" for ps :: "(string, socket_addr, pending_reg) nested"
    by (induction ps) (simp_all add: ns_sum_def sh_sum_def)
  then show ?thesis by (simp add: all_waiting_def)
qed

text \<open>
  C10. Caps of a room: in every state the server can reach from any environment, a room has at
  most the configured number of clients, of clients per address prefix, of waiting registrations
  and of waiting registrations per IP, and no client has passed its message limit.
\<close>

theorem reachable_room_caps:
  assumes "reachable getenv s" "get_room (srv_relay s) room = Some e"
  shows "length (udp_clients e) \<le> max_clients_hard (srv_relay s)
    \<and> (\<forall>ip. count_prefix_clients e ip \<le> max_clients_per_prefix_per_room (srv_relay s))
    \<and> length (pending e) \<le> max_pending_per_room (srv_relay s)
    \<and> (\<forall>ip. length (filter (\<lambda>(src, _). ip_key src = ip) (pending e)) \<le> max_pending_per_ip (srv_relay s))"
proof -
  have e: "entry_ok (srv_relay s) e" using relay_ok_entry [OF reachable_ok] assms .
  then have "room_ok e" by (simp add: entry_ok_def)
  moreover have "length (filter (\<lambda>(src, _). ip_key src = ip) m) = hm_sum (tally ip_key ip) m"
    for ip and m :: "(socket_addr, pending_reg) hashmap"
    by (induction m) (auto simp: tally_def)
  ultimately show ?thesis using e by (auto simp: entry_ok_def entry_pending_count_for_ip_def room_okD(4))
qed

theorem reachable_room_caps_witness:
  "\<exists>e. get_room (srv_relay demo_server) ''lobby'' = Some e \<and> length (udp_clients e) \<le> max_clients_hard (srv_relay demo_server)"
proof -
  obtain e where e: "get_room (srv_relay demo_server) ''lobby'' = Some e"
    using demo_server_clients by (cases "get_room (srv_relay demo_server) ''lobby''") (auto simp: clients_def)
  with reachable_room_caps [OF demo_server_reachable e] show ?thesis by blast
qed





end
